(* ===== verification/Prelude.thy ===== *)
theory Prelude
  imports Main "HOL-Library.Word" "HOL-Library.Multiset" "HOL-Library.Monad_Syntax"
begin

text \<open>
  Shared vocabulary of the development.

  A Go call that may panic has type \<open>'a option\<close>: \<open>None\<close> is the panic and nothing after it
  runs. A Go call that returns an \<open>error\<close> beside its result has type \<open>error + 'a\<close>, with
  \<open>Inl\<close> for the non-nil error. Code that also changes state returns the new state as the last
  component. \<open>go_try\<close> is Go's \<open>if err := act(); err != nil { cleanup(); return err }\<close>.

  The generic lemmas here are about the two list idioms the program uses again and again: the
  first index that satisfies a test (\<open>-1\<close> when there is none) and the removal that moves the
  last element into the hole.
\<close>

type_synonym byte = "8 word"

type_synonym error = string

section \<open>Fallible code over an explicit state\<close>

type_synonym ('s, 'a) proc = "'s \<Rightarrow> ((error + 'a) \<times> 's) option"

definition go_try ::
  "('s, 'a) proc \<Rightarrow> ('s \<Rightarrow> 's) \<Rightarrow> ('a \<Rightarrow> ('s, 'b) proc) \<Rightarrow> ('s, 'b) proc" where
  "go_try act cleanup k s =
     (case act s of
        None \<Rightarrow> None
      | Some (Inl e, s') \<Rightarrow> Some (Inl e, cleanup s')
      | Some (Inr x, s') \<Rightarrow> k x s')"

definition go_return :: "'a \<Rightarrow> ('s, 'a) proc" where
  "go_return x s = Some (Inr x, s)"

definition go_fail :: "error \<Rightarrow> ('s, 'a) proc" where
  "go_fail e s = Some (Inl e, s)"

text \<open>A call whose only results are an error and a new state.\<close>

definition go_call :: "('s \<Rightarrow> error option \<times> 's) \<Rightarrow> ('s, unit) proc" where
  "go_call f s = (case f s of (None, s') \<Rightarrow> Some (Inr (), s') | (Some e, s') \<Rightarrow> Some (Inl e, s'))"

named_theorems go_simps "unfolding rules of the error and state combinators"

lemma go_return_simp [simp, go_simps]: "go_return x s = Some (Inr x, s)"
  by (simp add: go_return_def)

lemma go_fail_simp [simp, go_simps]: "go_fail e s = Some (Inl e, s)"
  by (simp add: go_fail_def)

text \<open>
  The reasoning rules for \<open>go_try\<close>. A postcondition of a process speaks about its outcome,
  the error or the value, and the final state; a panic satisfies no postcondition that is
  asserted with \<open>go_total\<close>.
\<close>

definition go_post :: "((error + 'a) \<Rightarrow> 's \<Rightarrow> bool) \<Rightarrow> ((error + 'a) \<times> 's) option \<Rightarrow> bool" where
  "go_post Q out = (case out of None \<Rightarrow> False | Some (r, s) \<Rightarrow> Q r s)"

lemma go_post_Some [simp]: "go_post Q (Some (r, s)) = Q r s"
  by (simp add: go_post_def)

lemma go_post_None [simp]: "\<not> go_post Q None"
  by (simp add: go_post_def)

lemma go_postD: "go_post Q out \<Longrightarrow> out = Some (r, s) \<Longrightarrow> Q r s"
  by simp

lemma go_post_not_None: "go_post Q out \<Longrightarrow> out \<noteq> None"
  by (cases out) simp_all

lemma go_post_exists: "go_post Q out \<Longrightarrow> \<exists>r s. out = Some (r, s) \<and> Q r s"
  by (auto simp: go_post_def split: option.splits)

lemma go_post_mono:
  assumes "go_post P out" and "\<And>r s. P r s \<Longrightarrow> Q r s"
  shows "go_post Q out"
  using assms by (auto simp: go_post_def split: option.splits)

lemma go_try_post:
  assumes "go_post (\<lambda>r s'. case r of Inl e \<Rightarrow> Q (Inl e) (cleanup s') | Inr x \<Rightarrow> go_post Q (k x s'))
             (act s)"
  shows "go_post Q (go_try act cleanup k s)"
  using assms by (auto simp: go_try_def go_post_def split: option.splits sum.splits)

lemma go_call_post:
  "go_post Q (go_call f s) =
     (case f s of (None, s') \<Rightarrow> Q (Inr ()) s' | (Some e, s') \<Rightarrow> Q (Inl e) s')"
  by (auto simp: go_call_def split: prod.splits option.splits)

lemma option_eqI: "(\<And>x. a = Some x \<longleftrightarrow> b = Some x) \<Longrightarrow> a = b"
  by (metis not_None_eq)

section \<open>The first index that satisfies a test\<close>

text \<open>
  The loop \<open>for i, x := range xs { if P(x) { found = i; break } }\<close> with \<open>found := -1\<close> before it.
\<close>

fun index_from :: "('a \<Rightarrow> bool) \<Rightarrow> 'a list \<Rightarrow> int \<Rightarrow> int" where
  "index_from P [] i = -1"
| "index_from P (x # xs) i = (if P x then i else index_from P xs (i + 1))"

definition first_index :: "('a \<Rightarrow> bool) \<Rightarrow> 'a list \<Rightarrow> int" where
  "first_index P xs = index_from P xs 0"

lemma index_from_cases:
  "0 \<le> i \<Longrightarrow>
    (index_from P xs i = -1 \<and> (\<forall>x \<in> set xs. \<not> P x)) \<or>
    (\<exists>j < length xs. index_from P xs i = i + int j \<and> P (xs ! j) \<and> (\<forall>x \<in> set (take j xs). \<not> P x))"
proof (induction xs arbitrary: i)
  case Nil
  then show ?case by simp
next
  case (Cons x xs)
  show ?case
  proof (cases "P x")
    case True
    then show ?thesis by (intro disjI2 exI [of _ 0]) simp
  next
    case False
    from Cons.prems have "0 \<le> i + 1" by simp
    from Cons.IH [OF this] show ?thesis
    proof (elim disjE exE conjE)
      assume "index_from P xs (i + 1) = - 1" "\<forall>x \<in> set xs. \<not> P x"
      with False show ?thesis by simp
    next
      fix j
      assume "j < length xs" "index_from P xs (i + 1) = i + 1 + int j" "P (xs ! j)"
        "\<forall>x \<in> set (take j xs). \<not> P x"
      with False show ?thesis by (intro disjI2 exI [of _ "Suc j"]) simp
    qed
  qed
qed

lemma first_index_cases:
  obtains (none) "first_index P xs = -1" "\<forall>x \<in> set xs. \<not> P x"
  | (found) j where "j < length xs" "first_index P xs = int j" "P (xs ! j)"
      "\<forall>x \<in> set (take j xs). \<not> P x"
  using index_from_cases [of 0 P xs] by (auto simp: first_index_def)

lemma first_index_none_iff: "first_index P xs = -1 \<longleftrightarrow> (\<forall>x \<in> set xs. \<not> P x)"
  by (cases rule: first_index_cases [of P xs]) auto

lemma first_index_nonneg_iff: "0 \<le> first_index P xs \<longleftrightarrow> (\<exists>x \<in> set xs. P x)"
  by (cases rule: first_index_cases [of P xs]) auto

lemma first_index_less: "first_index P xs < int (length xs) \<or> xs = []"
  by (cases rule: first_index_cases [of P xs]) auto

section \<open>Removal by moving the last element\<close>

text \<open>\<open>xs[i] = xs[len(xs)-1]; xs = xs[:len(xs)-1]\<close>, which panics out of range.\<close>

definition swap_remove :: "int \<Rightarrow> 'a list \<Rightarrow> 'a list option" where
  "swap_remove i xs =
     (if 0 \<le> i \<and> i < int (length xs) then Some (butlast (xs[nat i := last xs])) else None)"

lemma mset_butlast_update:
  assumes "i < length xs"
  shows "mset (butlast (xs[i := last xs])) = mset xs - {# xs ! i #}"
proof -
  let ?ys = "xs[i := last xs]"
  from assms have ne: "xs \<noteq> []" "?ys \<noteq> []" by auto
  have lst: "last ?ys = last xs"
    using assms ne by (cases "i = length xs - 1") (auto simp: last_conv_nth nth_list_update)
  have "mset ?ys = mset (butlast ?ys @ [last ?ys])"
    using ne by simp
  then have "add_mset (last xs) (mset (butlast ?ys)) = mset ?ys"
    using lst by simp
  also have "\<dots> = add_mset (last xs) (mset xs - {# xs ! i #})"
    using assms by (rule mset_update)
  finally show ?thesis by simp
qed

lemma swap_remove_mset:
  assumes "i < length xs"
  obtains ys where "swap_remove (int i) xs = Some ys" "mset ys = mset xs - {# xs ! i #}"
    "length ys = length xs - 1" "set ys \<subseteq> set xs"
proof
  show "swap_remove (int i) xs = Some (butlast (xs[i := last xs]))"
    using assms by (simp add: swap_remove_def)
  show m: "mset (butlast (xs[i := last xs])) = mset xs - {# xs ! i #}"
    using assms by (rule mset_butlast_update)
  show "length (butlast (xs[i := last xs])) = length xs - 1" by simp
  show "set (butlast (xs[i := last xs])) \<subseteq> set xs"
    using m by (metis diff_subset_eq_self set_mset_mono set_mset_mset)
qed

end
