(* ===== verification/SliceApi.thy ===== *)
theory SliceApi
  imports Prelude
begin

text \<open>
  \<open>utils/SliceApi.go\<close>: the mutex-protected slice that the MQTT client keeps its running interests
  in. The locale \<open>registry\<close> is what its users rely on: the multiset of elements, what adding and
  removing an element does to it, and that \<open>Exists\<close> decides membership.
\<close>

record 'a genericSlice =
  slice_data :: "'a list"

definition NewSlice :: "'a genericSlice" where
  "NewSlice = \<lparr>slice_data = []\<rparr>"

definition Slice_Add :: "'a \<Rightarrow> 'a genericSlice \<Rightarrow> 'a genericSlice" where
  "Slice_Add elem s = s\<lparr>slice_data := slice_data s @ [elem]\<rparr>"

definition findLocked :: "'a \<Rightarrow> 'a genericSlice \<Rightarrow> int" where
  "findLocked elem s = first_index (\<lambda>currentElem. currentElem = elem) (slice_data s)"

definition removeLocked :: "int \<Rightarrow> 'a genericSlice \<Rightarrow> 'a genericSlice" where
  "removeLocked index s =
     (if index \<ge> 0 \<and> index < int (length (slice_data s))
      then s\<lparr>slice_data := butlast ((slice_data s)[nat index := last (slice_data s)])\<rparr>
      else s)"

definition Slice_Remove :: "int \<Rightarrow> 'a genericSlice \<Rightarrow> 'a genericSlice" where
  "Slice_Remove index s = removeLocked index s"

definition Slice_RemoveElem :: "'a \<Rightarrow> 'a genericSlice \<Rightarrow> 'a genericSlice" where
  "Slice_RemoveElem elem s = removeLocked (findLocked elem s) s"

definition Slice_Find :: "'a \<Rightarrow> 'a genericSlice \<Rightarrow> int" where
  "Slice_Find elem s = findLocked elem s"

definition Slice_Exists :: "'a \<Rightarrow> 'a genericSlice \<Rightarrow> bool" where
  "Slice_Exists elem s \<longleftrightarrow> Slice_Find elem s \<ge> 0"

definition Slice_Get :: "'a genericSlice \<Rightarrow> 'a list" where
  "Slice_Get s = slice_data s"

section \<open>The contract\<close>

locale registry =
  fixes elems :: "'s \<Rightarrow> 'a multiset"
    and empty :: 's
    and add :: "'a \<Rightarrow> 's \<Rightarrow> 's"
    and remove :: "'a \<Rightarrow> 's \<Rightarrow> 's"
    and exists :: "'a \<Rightarrow> 's \<Rightarrow> bool"
  assumes elems_empty: "elems empty = {#}"
    and elems_add: "elems (add x s) = add_mset x (elems s)"
    and elems_remove: "elems (remove x s) = elems s - {#x#}"
    and exists_iff: "exists x s \<longleftrightarrow> x \<in># elems s"
begin

text \<open>Each element occurs at most once.\<close>

definition unique :: "'s \<Rightarrow> bool" where
  "unique s \<longleftrightarrow> (\<forall>x. count (elems s) x \<le> 1)"

lemma unique_empty: "unique empty"
  by (simp add: unique_def elems_empty)

lemma unique_guarded_add: "unique s \<Longrightarrow> \<not> exists x s \<Longrightarrow> unique (add x s)"
  by (simp add: unique_def elems_add exists_iff not_in_iff)

lemma unique_remove: "unique s \<Longrightarrow> unique (remove x s)"
  by (simp add: unique_def elems_remove le_diff_conv le_SucI)

lemma exists_add: "exists x (add y s) \<longleftrightarrow> x = y \<or> exists x s"
  by (simp add: exists_iff elems_add)

lemma exists_remove: "unique s \<Longrightarrow> exists x (remove y s) \<longleftrightarrow> x \<noteq> y \<and> exists x s"
proof -
  assume "unique s"
  then have "count (elems s) y - 1 = 0" by (simp add: unique_def)
  then show ?thesis
    by (cases "x = y") (auto simp: exists_iff elems_remove in_diff_count not_in_iff
      simp flip: count_greater_zero_iff)
qed

end

section \<open>The slice provides it\<close>

definition slice_elems :: "'a genericSlice \<Rightarrow> 'a multiset" where
  "slice_elems s = mset (slice_data s)"

lemma slice_remove_elems: "slice_elems (Slice_RemoveElem x s) = slice_elems s - {#x#}"
proof (cases rule: first_index_cases [of "\<lambda>y. y = x" "slice_data s"])
  case none
  then show ?thesis
    by (auto simp: Slice_RemoveElem_def findLocked_def removeLocked_def slice_elems_def)
next
  case (found j)
  then show ?thesis
    by (simp add: Slice_RemoveElem_def findLocked_def removeLocked_def slice_elems_def
        mset_butlast_update)
qed

interpretation slice: registry slice_elems NewSlice Slice_Add Slice_RemoveElem Slice_Exists
  by unfold_locales
     (auto simp: slice_elems_def NewSlice_def Slice_Add_def slice_remove_elems [unfolded slice_elems_def]
       Slice_Exists_def Slice_Find_def findLocked_def first_index_nonneg_iff)

end
