(* ===== verification/GoStrings.thy ===== *)
theory GoStrings
  imports Prelude
begin

text \<open>
  What the program uses of Go's \<open>strings\<close>, \<open>strconv\<close> and \<open>fmt\<close> packages, on byte strings:
  \<open>strings.Split\<close> with a one-byte separator, \<open>strings.Contains\<close>, \<open>strings.Replace(s, old, new, -1)\<close>,
  \<open>strconv.Itoa\<close> (also \<open>%d\<close>) and \<open>strconv.Atoi\<close>.
  The lemmas are the round trips: splitting a join and joining a split, and reading back a
  printed number.
\<close>

section \<open>Decimal numbers\<close>

definition digit_char :: "nat \<Rightarrow> char" where
  "digit_char d = ''0123456789'' ! d"

definition is_digit :: "char \<Rightarrow> bool" where
  "is_digit c \<longleftrightarrow> c \<in> set ''0123456789''"

definition digit_val :: "char \<Rightarrow> nat" where
  "digit_val c = of_char c - 48"

fun itoa :: "nat \<Rightarrow> string" where
  "itoa n = (if n < 10 then [digit_char n] else itoa (n div 10) @ [digit_char (n mod 10)])"

declare itoa.simps [simp del]

definition Itoa :: "int \<Rightarrow> string" where
  "Itoa i = (if i < 0 then CHR ''-'' # itoa (nat (- i)) else itoa (nat i))"

definition dec_val :: "string \<Rightarrow> nat" where
  "dec_val ds = foldl (\<lambda>n c. n * 10 + digit_val c) 0 ds"

text \<open>\<open>strconv.Atoi\<close> on a 64-bit machine; \<open>None\<close> is a syntax or range error.\<close>

definition Atoi :: "string \<Rightarrow> int option" where
  "Atoi s =
     (let neg = (s \<noteq> [] \<and> hd s = CHR ''-'');
          signed = (s \<noteq> [] \<and> (hd s = CHR ''-'' \<or> hd s = CHR ''+''));
          ds = (if signed then tl s else s);
          n = int (dec_val ds)
      in if ds = [] \<or> \<not> list_all is_digit ds then None
         else if neg then (if n > 2 ^ 63 then None else Some (- n))
         else (if n \<ge> 2 ^ 63 then None else Some n))"

lemma less_10_cases:
  "(n::nat) < 10 \<Longrightarrow> n = 0 \<or> n = 1 \<or> n = 2 \<or> n = 3 \<or> n = 4 \<or> n = 5 \<or> n = 6 \<or> n = 7 \<or> n = 8 \<or> n = 9"
  by arith

lemma digit_char_is_digit: "n < 10 \<Longrightarrow> is_digit (digit_char n)"
  by (drule less_10_cases) (auto simp: is_digit_def digit_char_def)

lemma digit_val_digit_char: "n < 10 \<Longrightarrow> digit_val (digit_char n) = n"
  by (drule less_10_cases) (auto simp: digit_val_def digit_char_def)

lemma digit_char_zero_iff: "n < 10 \<Longrightarrow> digit_char n = CHR ''0'' \<longleftrightarrow> n = 0"
  by (drule less_10_cases) (auto simp: digit_char_def)

lemma itoa_digits: "list_all is_digit (itoa n)"
proof (induction n rule: itoa.induct)
  case (1 n)
  then show ?case by (subst itoa.simps) (simp add: digit_char_is_digit)
qed

lemma itoa_not_Nil [simp]: "itoa n \<noteq> []"
  by (subst itoa.simps) simp

lemma dec_val_itoa: "dec_val (itoa n) = n"
proof (induction n rule: itoa.induct)
  case (1 n)
  then show ?case
    by (subst itoa.simps) (auto simp: dec_val_def digit_val_digit_char)
qed

lemma is_digit_not_sign: "is_digit c \<Longrightarrow> c \<noteq> CHR ''-'' \<and> c \<noteq> CHR ''+''"
  by (auto simp: is_digit_def)

lemma Atoi_itoa:
  assumes "n < 2 ^ 63"
  shows "Atoi (itoa n) = Some (int n)"
proof -
  have "list_all is_digit (itoa n)" by (rule itoa_digits)
  then have "is_digit (hd (itoa n))"
    using itoa_not_Nil [of n] by (cases "itoa n") (auto)
  then have "hd (itoa n) \<noteq> CHR ''-'' \<and> hd (itoa n) \<noteq> CHR ''+''"
    by (rule is_digit_not_sign)
  with assms show ?thesis
    by (simp add: Atoi_def Let_def itoa_digits dec_val_itoa)
qed

section \<open>Splitting, searching and replacing\<close>

fun split_on :: "char \<Rightarrow> string \<Rightarrow> string list" where
  "split_on c [] = [[]]"
| "split_on c (x # xs) =
     (if x = c then [] # split_on c xs
      else (x # hd (split_on c xs)) # tl (split_on c xs))"

fun join_on :: "string \<Rightarrow> string list \<Rightarrow> string" where
  "join_on sep [] = []"
| "join_on sep [s] = s"
| "join_on sep (s # t # ss) = s @ sep @ join_on sep (t # ss)"

fun Contains :: "string \<Rightarrow> string \<Rightarrow> bool" where
  "Contains [] t = (t = [])"
| "Contains (x # xs) t = (take (length t) (x # xs) = t \<or> Contains xs t)"

function replace_all :: "string \<Rightarrow> string \<Rightarrow> string \<Rightarrow> string" where
  "replace_all old new [] = []"
| "replace_all old new (c # cs) =
     (if old \<noteq> [] \<and> take (length old) (c # cs) = old
      then new @ replace_all old new (drop (length old) (c # cs))
      else c # replace_all old new cs)"
  by pat_completeness auto
termination
  by (relation "measure (\<lambda>(old, new, s). length s)") auto

declare replace_all.simps(2) [simp del]

lemma split_on_not_Nil [simp]: "split_on c s \<noteq> []"
  by (cases s) auto

lemma split_on_no_sep: "p \<in> set (split_on c s) \<Longrightarrow> c \<notin> set p"
proof (induction s arbitrary: p)
  case Nil
  then show ?case by simp
next
  case (Cons x xs)
  obtain y ys where y: "split_on c xs = y # ys" by (cases "split_on c xs") auto
  with Cons.IH have "c \<notin> set y" "\<forall>z \<in> set ys. c \<notin> set z" by auto
  with Cons.prems y show ?case by (auto split: if_splits)
qed

lemma split_on_id: "c \<notin> set s \<Longrightarrow> split_on c s = [s]"
  by (induction s) auto

lemma split_on_append: "c \<notin> set p \<Longrightarrow> split_on c (p @ c # s) = p # split_on c s"
  by (induction p) auto

lemma split_on_join:
  "ps \<noteq> [] \<Longrightarrow> \<forall>p \<in> set ps. c \<notin> set p \<Longrightarrow> split_on c (join_on [c] ps) = ps"
proof (induction "[c]" ps rule: join_on.induct)
  case (3 s t ss)
  then show ?case by (simp add: split_on_append)
qed (auto simp: split_on_id)

lemma join_on_Cons: "ss \<noteq> [] \<Longrightarrow> join_on sep (s # ss) = s @ sep @ join_on sep ss"
  by (cases ss) auto

lemma join_split_on: "join_on [c] (split_on c s) = s"
proof (induction s)
  case Nil
  then show ?case by simp
next
  case (Cons x xs)
  obtain y ys where y: "split_on c xs = y # ys" by (cases "split_on c xs") auto
  with Cons show ?case
    by (cases ys) (auto simp: join_on_Cons)
qed

lemma Contains_iff: "Contains s t \<longleftrightarrow> (\<exists>p q. s = p @ t @ q)"
proof (induction s)
  case Nil
  then show ?case by auto
next
  case (Cons x xs)
  have "take (length t) (x # xs) = t \<longleftrightarrow> (\<exists>q. x # xs = t @ q)"
    by (metis append_eq_conv_conj append_take_drop_id)
  moreover have "(\<exists>p q. x # xs = p @ t @ q) \<longleftrightarrow>
      (\<exists>q. x # xs = t @ q) \<or> (\<exists>p q. xs = p @ t @ q)"
  proof
    assume "\<exists>p q. x # xs = p @ t @ q"
    then obtain p q where "x # xs = p @ t @ q" by blast
    then show "(\<exists>q. x # xs = t @ q) \<or> (\<exists>p q. xs = p @ t @ q)"
      by (cases p) auto
  next
    assume "(\<exists>q. x # xs = t @ q) \<or> (\<exists>p q. xs = p @ t @ q)"
    then show "\<exists>p q. x # xs = p @ t @ q"
      by (metis append_Cons append_Nil)
  qed
  ultimately show ?case using Cons by simp
qed

lemma Contains_refl: "Contains s s"
  unfolding Contains_iff by (metis append_Nil append_Nil2)

lemma Contains_not_char: "c \<in> set t \<Longrightarrow> c \<notin> set s \<Longrightarrow> \<not> Contains s t"
  by (auto simp: Contains_iff)

lemma replace_all_id: "\<not> Contains s old \<Longrightarrow> replace_all old new s = s"
  by (induction old new s rule: replace_all.induct) (auto simp: replace_all.simps(2))

end
