(* ===== verification/GoNet.thy ===== *)
theory GoNet
  imports GoStrings
begin

text \<open>
  What the program uses of Go's \<open>net\<close> package: addresses are byte slices (\<open>None\<close> is the nil
  slice), \<open>IP_Equal\<close>, \<open>To4\<close>, \<open>To16\<close>, \<open>IP_Mask\<close>, \<open>CIDRMask\<close>, and the textual forms
  \<open>IP_String\<close> (\<open>IP.String\<close>) and \<open>ParseIP\<close> with the parsers of \<open>net/netip\<close> behind it.
  The lemmas show that \<open>IP_Equal\<close> is an equivalence, that big-endian bytes and numbers
  correspond, and that dotted decimal text is read back as the address it was printed from.
\<close>

unbundle bit_operations_syntax

section \<open>Addresses\<close>

type_synonym ip = "byte list option"

definition ip_bytes :: "ip \<Rightarrow> byte list" where
  "ip_bytes a = (case a of None \<Rightarrow> [] | Some bs \<Rightarrow> bs)"

definition v4InV6Prefix :: "byte list" where
  "v4InV6Prefix = [0, 0, 0, 0, 0, 0, 0, 0, 0, 0, 0xff, 0xff]"

definition IPv4 :: "byte \<Rightarrow> byte \<Rightarrow> byte \<Rightarrow> byte \<Rightarrow> ip" where
  "IPv4 a b c d = Some (v4InV6Prefix @ [a, b, c, d])"

definition IP_Equal :: "ip \<Rightarrow> ip \<Rightarrow> bool" where
  "IP_Equal p q =
     (let x = ip_bytes p; y = ip_bytes q in
      if length x = length y then x = y
      else if length x = 4 \<and> length y = 16 then take 12 y = v4InV6Prefix \<and> x = drop 12 y
      else if length x = 16 \<and> length y = 4 then take 12 x = v4InV6Prefix \<and> drop 12 x = y
      else False)"

definition To4 :: "ip \<Rightarrow> ip" where
  "To4 p =
     (let x = ip_bytes p in
      if length x = 4 then p
      else if length x = 16 \<and> take 12 x = v4InV6Prefix then Some (drop 12 x)
      else None)"

definition To16 :: "ip \<Rightarrow> ip" where
  "To16 p =
     (let x = ip_bytes p in
      if length x = 4 then Some (v4InV6Prefix @ x)
      else if length x = 16 then p
      else None)"

type_synonym ip_mask = "byte list"

definition IP_Mask :: "ip \<Rightarrow> ip_mask \<Rightarrow> ip" where
  "IP_Mask p m =
     (let x = ip_bytes p;
          m' = (if length m = 16 \<and> length x = 4 \<and> take 12 m = replicate 12 0xff
                then drop 12 m else m);
          x' = (if length m' = 4 \<and> length x = 16 \<and> take 12 x = v4InV6Prefix
                then drop 12 x else x)
      in if length x' \<noteq> length m' then None else Some (map2 (AND) x' m'))"

text \<open>\<open>net.CIDRMask(ones, bits)\<close>, for \<open>bits\<close> 32 or 128 and \<open>0 \<le> ones \<le> bits\<close>.\<close>

definition CIDRMask :: "nat \<Rightarrow> nat \<Rightarrow> ip_mask" where
  "CIDRMask ones bits =
     (if (bits = 32 \<or> bits = 128) \<and> ones \<le> bits
      then map (\<lambda>i. if 8 * i + 8 \<le> ones then 0xff
                    else if ones \<le> 8 * i then 0
                    else NOT (drop_bit (ones - 8 * i) 0xff)) [0 ..< bits div 8]
      else [])"

record IPNet =
  net_IP :: ip
  net_Mask :: ip_mask

subsection \<open>Equality of addresses\<close>

text \<open>The 16-byte form that decides \<open>IP_Equal\<close>.\<close>

definition ip_canon :: "ip \<Rightarrow> byte list" where
  "ip_canon p = (let x = ip_bytes p in if length x = 4 then v4InV6Prefix @ x else x)"

lemma length_v4InV6Prefix [simp]: "length v4InV6Prefix = 12"
  by (simp add: v4InV6Prefix_def)

lemma IP_Equal_canon: "IP_Equal p q \<longleftrightarrow> ip_canon p = ip_canon q"
proof -
  define x y where "x = ip_bytes p" and "y = ip_bytes q"
  have a: "take 12 y = v4InV6Prefix \<and> x = drop 12 y \<longleftrightarrow> v4InV6Prefix @ x = y"
    by (metis append_eq_conv_conj length_v4InV6Prefix)
  have b: "take 12 x = v4InV6Prefix \<and> drop 12 x = y \<longleftrightarrow> x = v4InV6Prefix @ y"
    by (metis append_eq_conv_conj length_v4InV6Prefix)
  show ?thesis
    unfolding IP_Equal_def ip_canon_def Let_def x_def [symmetric] y_def [symmetric] a b
    by auto
qed

lemma IP_Equal_refl [simp]: "IP_Equal p p"
  by (simp add: IP_Equal_canon)

lemma IP_Equal_sym: "IP_Equal p q = IP_Equal q p"
  by (auto simp: IP_Equal_canon)

lemma IP_Equal_trans: "IP_Equal p q \<Longrightarrow> IP_Equal q r \<Longrightarrow> IP_Equal p r"
  by (simp add: IP_Equal_canon)

lemma IP_Equal_cong: "IP_Equal p q \<Longrightarrow> IP_Equal p r = IP_Equal q r"
  by (simp add: IP_Equal_canon)

lemma IP_Equal_Some: "length x = length y \<Longrightarrow> IP_Equal (Some x) (Some y) = (x = y)"
  by (simp add: IP_Equal_def ip_bytes_def)

lemma IPv4_Equal_iff:
  "IP_Equal (IPv4 a b c d) (IPv4 a' b' c' d') \<longleftrightarrow> a = a' \<and> b = b' \<and> c = c' \<and> d = d'"
  by (simp add: IPv4_def IP_Equal_Some)

lemma To4_IPv4 [simp]: "To4 (IPv4 a b c d) = Some [a, b, c, d]"
  by (simp add: To4_def IPv4_def ip_bytes_def)

lemma To16_IPv4 [simp]: "To16 (IPv4 a b c d) = IPv4 a b c d"
  by (simp add: To16_def IPv4_def ip_bytes_def)

lemma To4_Some_length: "To4 p = Some x \<Longrightarrow> length x = 4"
  by (auto simp: To4_def ip_bytes_def Let_def split: if_splits option.splits)

lemma To16_Some_length: "To16 p = Some x \<Longrightarrow> length x = 16"
  by (auto simp: To16_def ip_bytes_def Let_def split: if_splits option.splits)

section \<open>Big-endian numbers\<close>

definition be_val :: "byte list \<Rightarrow> nat" where
  "be_val bs = foldl (\<lambda>v b. v * 256 + unat b) 0 bs"

fun be_bytes :: "nat \<Rightarrow> nat \<Rightarrow> byte list" where
  "be_bytes 0 v = []"
| "be_bytes (Suc n) v = be_bytes n (v div 256) @ [of_nat (v mod 256)]"

lemma be_val_Nil [simp]: "be_val [] = 0"
  by (simp add: be_val_def)

lemma be_val_snoc [simp]: "be_val (bs @ [b]) = be_val bs * 256 + unat b"
  by (simp add: be_val_def)

lemma length_be_bytes [simp]: "length (be_bytes n v) = n"
  by (induction n arbitrary: v) auto

lemma unat_of_nat_byte [simp]: "unat (of_nat (v mod 256) :: byte) = v mod 256"
  by (simp add: unat_of_nat take_bit_eq_mod)

lemma unat_byte_less: "unat (b :: byte) < 256"
proof -
  have "unat b < 2 ^ LENGTH(8)" by (rule unsigned_less)
  then show ?thesis by simp
qed

lemma be_val_be_bytes: "be_val (be_bytes n v) = v mod 256 ^ n"
proof (induction n arbitrary: v)
  case 0
  then show ?case by simp
next
  case (Suc n)
  have "v mod 256 ^ Suc n = 256 * (v div 256 mod 256 ^ n) + v mod 256"
    by (simp add: mod_mult2_eq)
  then show ?case by (simp add: Suc.IH)
qed

lemma be_bytes_be_val: "be_bytes (length bs) (be_val bs) = bs"
proof (induction bs rule: rev_induct)
  case Nil
  then show ?case by simp
next
  case (snoc b bs)
  have lt: "unat b < 256" by (rule unat_byte_less)
  then have "(be_val bs * 256 + unat b) div 256 = be_val bs"
    and "(be_val bs * 256 + unat b) mod 256 = unat b"
    by simp_all
  with snoc show ?case by simp
qed

lemma be_val_less: "be_val bs < 256 ^ length bs"
proof -
  have "be_val bs = be_val bs mod 256 ^ length bs"
    using be_val_be_bytes [of "length bs" "be_val bs"] by (simp add: be_bytes_be_val)
  then show ?thesis by (metis mod_less_divisor zero_less_numeral zero_less_power)
qed

lemma be_val_inj: "length xs = length ys \<Longrightarrow> be_val xs = be_val ys \<Longrightarrow> xs = ys"
  by (metis be_bytes_be_val)

section \<open>Text\<close>

subsection \<open>Printing\<close>

definition dotted :: "byte list \<Rightarrow> string" where
  "dotted bs = join_on ''.'' (map (\<lambda>b. itoa (unat b)) bs)"

definition hex_digit :: "nat \<Rightarrow> char" where
  "hex_digit d = ''0123456789abcdef'' ! d"

definition hex_byte :: "byte \<Rightarrow> string" where
  "hex_byte b = [hex_digit (unat b div 16), hex_digit (unat b mod 16)]"

fun hex_nat :: "nat \<Rightarrow> string" where
  "hex_nat n = (if n < 16 then [hex_digit n] else hex_nat (n div 16) @ [hex_digit (n mod 16)])"

declare hex_nat.simps [simp del]

fun groups16 :: "byte list \<Rightarrow> nat list" where
  "groups16 (a # b # bs) = (unat a * 256 + unat b) # groups16 bs"
| "groups16 _ = []"

text \<open>The longest run of at least two zero groups, the first one of that length.\<close>

definition zero_run :: "nat list \<Rightarrow> nat \<Rightarrow> nat" where
  "zero_run gs i = length (takeWhile (\<lambda>g. g = 0) (drop i gs))"

definition best_run :: "nat list \<Rightarrow> nat \<times> nat" where
  "best_run gs = foldl (\<lambda>(s, l) i. let n = zero_run gs i in if n \<ge> 2 \<and> n > l then (i, n) else (s, l))
     (0, 0) [0 ..< length gs]"

definition hex_groups :: "nat list \<Rightarrow> string" where
  "hex_groups gs = join_on '':'' (map hex_nat gs)"

definition string6 :: "byte list \<Rightarrow> string" where
  "string6 bs =
     (let gs = groups16 bs; (s, l) = best_run gs in
      if l = 0 then hex_groups gs
      else hex_groups (take s gs) @ ''::'' @ hex_groups (drop (s + l) gs))"

definition IP_String :: "ip \<Rightarrow> string" where
  "IP_String p =
     (let x = ip_bytes p in
      if x = [] then ''<nil>''
      else if length x \<noteq> 4 \<and> length x \<noteq> 16 then CHR ''?'' # concat (map hex_byte x)
      else case To4 p of
             Some q \<Rightarrow> dotted q
           | None \<Rightarrow> string6 x)"

subsection \<open>Parsing\<close>

text \<open>
  \<open>parseIPv4Fields\<close> of \<open>net/netip\<close>: \<open>at_field\<close> holds at the start and after a dot, \<open>v\<close> and
  \<open>dl\<close> are the value and the number of digits of the current octet, \<open>fs\<close> the octets read.
\<close>

fun parseIPv4Fields :: "string \<Rightarrow> bool \<Rightarrow> nat \<Rightarrow> nat \<Rightarrow> byte list \<Rightarrow> byte list option" where
  "parseIPv4Fields [] at_field v dl fs =
     (if length fs < 3 then None else Some (fs @ [of_nat v]))"
| "parseIPv4Fields (c # cs) at_field v dl fs =
     (if is_digit c then
        (if dl = 1 \<and> v = 0 then None
         else if v * 10 + digit_val c > 255 then None
         else parseIPv4Fields cs False (v * 10 + digit_val c) (dl + 1) fs)
      else if c = CHR ''.'' then
        (if at_field \<or> cs = [] then None
         else if length fs = 3 then None
         else parseIPv4Fields cs True 0 0 (fs @ [of_nat v]))
      else None)"

definition hex_val :: "char \<Rightarrow> nat option" where
  "hex_val c =
     (let n = of_char c :: nat in
      if 48 \<le> n \<and> n \<le> 57 then Some (n - 48)
      else if 97 \<le> n \<and> n \<le> 102 then Some (n - 87)
      else if 65 \<le> n \<and> n \<le> 70 then Some (n - 55)
      else None)"

text \<open>A run of hexadecimal digits: its length, its value and the rest; five digits are an error.\<close>

fun hex_run :: "string \<Rightarrow> nat \<Rightarrow> nat \<Rightarrow> (nat \<times> nat \<times> string) option" where
  "hex_run [] off acc = Some (off, acc, [])"
| "hex_run (c # cs) off acc =
     (case hex_val c of
        None \<Rightarrow> Some (off, acc, c # cs)
      | Some d \<Rightarrow> if off > 3 then None else hex_run cs (off + 1) (acc * 16 + d))"

text \<open>The loop of \<open>parseIPv6\<close>; \<open>ell\<close> is the position of the ellipsis in the bytes read.\<close>

function parse6_loop ::
  "string \<Rightarrow> byte list \<Rightarrow> nat option \<Rightarrow> (byte list \<times> nat option \<times> string) option" where
  "parse6_loop s bs ell =
     (if length bs \<ge> 16 then Some (bs, ell, s)
      else case hex_run s 0 0 of
        None \<Rightarrow> None
      | Some (off, acc, rest) \<Rightarrow>
          if off = 0 then None
          else case rest of
            [] \<Rightarrow> Some (bs @ be_bytes 2 acc, ell, [])
          | c # rest' \<Rightarrow>
              if c = CHR ''.'' then
                (if ell = None \<and> length bs \<noteq> 12 then None
                 else if length bs + 4 > 16 then None
                 else map_option (\<lambda>f. (bs @ f, ell, [])) (parseIPv4Fields s True 0 0 []))
              else if c \<noteq> CHR '':'' \<or> rest' = [] then None
              else if hd rest' = CHR '':'' then
                (if ell \<noteq> None then None
                 else if tl rest' = [] then Some (bs @ be_bytes 2 acc, Some (length bs + 2), [])
                 else parse6_loop (tl rest') (bs @ be_bytes 2 acc) (Some (length bs + 2)))
              else parse6_loop rest' (bs @ be_bytes 2 acc) ell)"
  by pat_completeness auto
termination
  by (relation "measure (\<lambda>(s, bs, ell). 16 - length bs)") auto

declare parse6_loop.simps [simp del]

definition parse6_finish :: "byte list \<times> nat option \<times> string \<Rightarrow> byte list option" where
  "parse6_finish r =
     (case r of (bs, ell, s) \<Rightarrow>
      if s \<noteq> [] then None
      else if length bs < 16 then
        (case ell of None \<Rightarrow> None
         | Some e \<Rightarrow> Some (take e bs @ replicate (16 - length bs) 0 @ drop e bs))
      else if ell \<noteq> None then None
      else Some bs)"

definition parseIPv6 :: "string \<Rightarrow> byte list option" where
  "parseIPv6 s =
     (if take 2 s = ''::'' then
        (if drop 2 s = [] then Some (replicate 16 0)
         else Option.bind (parse6_loop (drop 2 s) [] (Some 0)) parse6_finish)
      else Option.bind (parse6_loop s [] None) parse6_finish)"

definition ip_sep :: "char \<Rightarrow> bool" where
  "ip_sep c \<longleftrightarrow> c = CHR ''.'' \<or> c = CHR '':'' \<or> c = CHR ''%''"

text \<open>
  \<open>net.ParseIP\<close>: the first \<open>.\<close>, \<open>:\<close> or \<open>%\<close> selects the parser; an address with a zone is
  rejected; an IPv4 address comes back in its 16-byte form.
\<close>

definition ParseIP :: "string \<Rightarrow> ip" where
  "ParseIP s =
     (case dropWhile (\<lambda>c. \<not> ip_sep c) s of
        [] \<Rightarrow> None
      | c # _ \<Rightarrow>
          if c = CHR ''.'' then map_option (\<lambda>f. v4InV6Prefix @ f) (parseIPv4Fields s True 0 0 [])
          else if c = CHR ''%'' \<or> CHR ''%'' \<in> set s then None
          else parseIPv6 s)"

subsection \<open>Dotted decimal is read back\<close>

lemma itoa_octet_cases:
  assumes "n < 256"
  obtains (one) "n < 10" "itoa n = [digit_char n]"
  | (two) "10 \<le> n" "n < 100" "itoa n = [digit_char (n div 10), digit_char (n mod 10)]"
  | (three) "100 \<le> n" "itoa n =
      [digit_char (n div 100), digit_char (n div 10 mod 10), digit_char (n mod 10)]"
proof -
  consider "n < 10" | "10 \<le> n" "n < 100" | "100 \<le> n" by linarith
  then show thesis
  proof cases
    case 1
    then show thesis by (intro one) (simp_all add: itoa.simps)
  next
    case 2
    then show thesis
      by (intro two) (simp_all add: itoa.simps [of n] itoa.simps [of "n div 10"])
  next
    case 3
    have "n div 10 div 10 = n div 100" by (simp add: div_mult2_eq [symmetric])
    moreover from 3 assms have "n div 100 < 10" "\<not> n div 10 < 10" by auto
    ultimately show thesis using 3
      by (intro three)
         (simp_all add: itoa.simps [of n] itoa.simps [of "n div 10"] itoa.simps [of "n div 100"])
  qed
qed

lemma parse_octet:
  assumes n: "n < 256"
  shows "\<exists>dl. parseIPv4Fields (itoa n @ rest) b 0 0 fs = parseIPv4Fields rest False n dl fs"
proof -
  have hundreds: "n div 100 * 10 + n div 10 mod 10 = n div 10"
    using div_mult_mod_eq [of "n div 10" 10] by (simp add: div_mult2_eq [symmetric])
  from n show ?thesis
  proof (cases rule: itoa_octet_cases)
    case one
    then show ?thesis by (auto simp: digit_char_is_digit digit_val_digit_char)
  next
    case two
    then have "n div 10 < 10" "n div 10 \<noteq> 0" by auto
    with two n show ?thesis by (auto simp: digit_char_is_digit digit_val_digit_char)
  next
    case three
    with n have "n div 100 < 10" "n div 100 \<noteq> 0" "n div 10 < 26" by auto
    with three n hundreds show ?thesis
      by (auto simp: digit_char_is_digit digit_val_digit_char)
  qed
qed

lemma dot_not_digit [simp]: "\<not> is_digit CHR ''.''"
  by (simp add: is_digit_def)

lemma dotted4: "dotted [a, b, c, d] =
    itoa (unat a) @ ''.'' @ itoa (unat b) @ ''.'' @ itoa (unat c) @ ''.'' @ itoa (unat d)"
  by (simp add: dotted_def)

lemma parse_octet_dot:
  assumes "n < 256" "length fs < 3" "rest \<noteq> []"
  shows "parseIPv4Fields (itoa n @ CHR ''.'' # rest) b 0 0 fs =
    parseIPv4Fields rest True 0 0 (fs @ [of_nat n])"
  using parse_octet [OF assms(1), of "CHR ''.'' # rest" b fs] assms(2,3) by auto

lemma parse_octet_end:
  assumes "n < 256" "length fs = 3"
  shows "parseIPv4Fields (itoa n) b 0 0 fs = Some (fs @ [of_nat n])"
  using parse_octet [OF assms(1), of "[]" b fs] assms(2) by auto

lemma parse_dotted: "parseIPv4Fields (dotted [a, b, c, d]) True 0 0 [] = Some [a, b, c, d]"
  by (simp add: dotted4 parse_octet_dot parse_octet_end unat_byte_less)

lemma digit_not_sep: "is_digit c \<Longrightarrow> \<not> ip_sep c"
  by (auto simp: is_digit_def ip_sep_def)

lemma dotted_dispatch:
  "\<exists>t. dropWhile (\<lambda>c. \<not> ip_sep c) (dotted [a, b, c, d]) = CHR ''.'' # t"
proof -
  have "\<forall>x \<in> set (itoa (unat a)). \<not> ip_sep x"
    using itoa_digits [of "unat a"] unfolding list_all_iff by (blast dest: digit_not_sep)
  moreover have "ip_sep CHR ''.''" by (simp add: ip_sep_def)
  ultimately have "dropWhile (\<lambda>c. \<not> ip_sep c) (itoa (unat a) @ CHR ''.'' # t) = CHR ''.'' # t" for t
    by (simp add: dropWhile_append)
  then show ?thesis by (simp add: dotted4)
qed

lemma ParseIP_dotted: "ParseIP (dotted [a, b, c, d]) = IPv4 a b c d"
proof -
  obtain t where "dropWhile (\<lambda>c. \<not> ip_sep c) (dotted [a, b, c, d]) = CHR ''.'' # t"
    using dotted_dispatch by blast
  then show ?thesis by (simp only: ParseIP_def list.case) (simp add: parse_dotted IPv4_def)
qed

lemma list_length4: "length x = 4 \<Longrightarrow> \<exists>a b c d. x = [a, b, c, d]"
  by (auto simp: numeral_eq_Suc length_Suc_conv)

lemma ParseIP_String4:
  assumes "To4 p = Some q"
  shows "ParseIP (IP_String p) = Some (v4InV6Prefix @ q)" "IP_Equal (ParseIP (IP_String p)) p"
proof -
  from assms obtain a b c d where q: "q = [a, b, c, d]"
    using To4_Some_length list_length4 by blast
  have ne: "ip_bytes p \<noteq> []" "length (ip_bytes p) = 4 \<or> length (ip_bytes p) = 16"
    using assms by (auto simp: To4_def Let_def split: if_splits)
  then have "IP_String p = dotted q"
    using assms by (auto simp: IP_String_def Let_def)
  with q show 1: "ParseIP (IP_String p) = Some (v4InV6Prefix @ q)"
    by (simp add: ParseIP_dotted IPv4_def)
  have "ip_canon p = v4InV6Prefix @ q"
    using assms unfolding To4_def ip_canon_def Let_def
    by (auto simp: ip_bytes_def split: if_splits option.splits)
       (metis append_take_drop_id)
  with 1 q show "IP_Equal (ParseIP (IP_String p)) p"
    by (simp add: IP_Equal_canon ip_canon_def ip_bytes_def)
qed


subsection \<open>Parsed addresses have sixteen bytes\<close>

lemma parseIPv4Fields_length:
  "parseIPv4Fields s at_field v dl fs = Some x \<Longrightarrow> length fs \<le> 3 \<Longrightarrow> length x = 4"
  by (induction s at_field v dl fs rule: parseIPv4Fields.induct) (auto split: if_splits)

lemma parse6_loop_length:
  "parse6_loop s bs ell = Some (x, ell', r) \<Longrightarrow> even (length bs) \<Longrightarrow> length bs \<le> 16 \<Longrightarrow>
    length x \<le> 16"
proof (induction s bs ell arbitrary: x ell' r rule: parse6_loop.induct)
  case (1 s bs ell)
  show ?case
  proof (cases "16 \<le> length bs")
    case True
    with "1.prems" show ?thesis by (simp add: parse6_loop.simps)
  next
    case False
    with "1.prems"(2) have short: "length bs + 2 \<le> 16" by presburger
    from "1.prems"(1) False obtain off acc rest where h: "hex_run s 0 0 = Some (off, acc, rest)" "off \<noteq> 0"
      by (subst (asm) parse6_loop.simps) (auto split: option.splits if_splits)
    show ?thesis
    proof (cases rest)
      case Nil
      with "1.prems"(1) False h short show ?thesis by (subst (asm) parse6_loop.simps) auto
    next
      case (Cons c rest')
      note loop = "1.prems"(1) [unfolded parse6_loop.simps [of s bs ell]]
      show ?thesis
      proof (cases "c = CHR ''.''")
        case True
        with loop False h Cons show ?thesis
          by (auto split: if_splits dest!: parseIPv4Fields_length)
      next
        case no_dot: False
        show ?thesis
        proof (cases "hd rest' = CHR '':''")
          case True
          with loop False h Cons no_dot short show ?thesis
            using "1.IH"(1) [OF False h(1) refl refl h(2) Cons no_dot _ True] "1.prems"(2)
            by (auto split: if_splits)
        next
          case colon: False
          with loop False h Cons no_dot short show ?thesis
            using "1.IH"(2) [OF False h(1) refl refl h(2) Cons no_dot _ colon] "1.prems"(2)
            by (auto split: if_splits)
        qed
      qed
    qed
  qed
qed

lemma parseIPv6_length: "parseIPv6 s = Some x \<Longrightarrow> length x = 16"
proof -
  have fin: "length x = 16" if "parse6_finish (bs, ell, r) = Some x" "length bs \<le> 16" for bs ell r
    using that by (auto simp: parse6_finish_def split: if_splits option.splits)
  have "length x = 16" if "Option.bind (parse6_loop s' [] ell) parse6_finish = Some x" for s' ell
    using that fin parse6_loop_length [of s' "[]" ell] by (auto simp: bind_eq_Some_conv)
  then show "parseIPv6 s = Some x \<Longrightarrow> length x = 16"
    by (auto simp: parseIPv6_def split: if_splits)
qed

lemma ParseIP_length: "ParseIP s = Some x \<Longrightarrow> length x = 16"
  by (auto simp: ParseIP_def split: list.splits if_splits dest!: parseIPv4Fields_length parseIPv6_length)

end
