(* ===== verification/TableCache.thy ===== *)
theory TableCache
  imports GoNet
begin

text \<open>
  \<open>TableEntryCache/serviceTranslationTable.go\<close>: the translation table from service addresses to
  the namespace addresses of the instances that serve them. The table is the slice of entries in
  the order the code keeps it, so removals show the element that moves into the hole.

  The locale \<open>entry_table\<close> is the contract the environment manager relies on: what adding and the
  two removals do to the multiset of entries. Its lemmas are about replacing the entry of a key.
\<close>

section \<open>Data\<close>

datatype ServiceIpType = InstanceNumber | Closest | RoundRobin

text \<open>The constants are numbered in this order (\<open>iota\<close>), which is also their order as integers.\<close>

instantiation ServiceIpType :: linorder
begin

fun iota :: "ServiceIpType \<Rightarrow> nat" where
  "iota InstanceNumber = 0"
| "iota Closest = 1"
| "iota RoundRobin = 2"

definition less_eq_ServiceIpType :: "ServiceIpType \<Rightarrow> ServiceIpType \<Rightarrow> bool" where
  "less_eq_ServiceIpType a b \<longleftrightarrow> iota a \<le> iota b"

definition less_ServiceIpType :: "ServiceIpType \<Rightarrow> ServiceIpType \<Rightarrow> bool" where
  "less_ServiceIpType a b \<longleftrightarrow> iota a < iota b"

instance
proof
  fix a b c :: ServiceIpType
  show "a < b \<longleftrightarrow> a \<le> b \<and> \<not> b \<le> a"
    by (auto simp: less_eq_ServiceIpType_def less_ServiceIpType_def)
  show "a \<le> a" by (simp add: less_eq_ServiceIpType_def)
  show "a \<le> b \<Longrightarrow> b \<le> c \<Longrightarrow> a \<le> c" by (simp add: less_eq_ServiceIpType_def)
  show "a \<le> b \<Longrightarrow> b \<le> a \<Longrightarrow> a = b"
    by (cases a; cases b) (simp_all add: less_eq_ServiceIpType_def)
  show "a \<le> b \<or> b \<le> a" by (auto simp: less_eq_ServiceIpType_def)
qed

end

record ServiceIP =
  IpType :: ServiceIpType
  Address :: ip
  Address_v6 :: ip

record TableEntry =
  JobName :: string
  Appname :: string
  Appns :: string
  Servicename :: string
  Servicenamespace :: string
  Instancenumber :: int
  Cluster :: int
  Nodeip :: ip
  Nodeport :: int
  Nsip :: ip
  Nsipv6 :: ip
  ServiceIPs :: "ServiceIP list"

record TableManager =
  translationTable :: "TableEntry list"

definition NewTableManager :: TableManager where
  "NewTableManager = \<lparr>translationTable = []\<rparr>"

section \<open>Operations\<close>

text \<open>The regular expression \<open>^[a-zA-Z0-9]{1,30}$\<close>.\<close>

definition name_char :: "char \<Rightarrow> bool" where
  "name_char c \<longleftrightarrow>
     (let n = of_char c :: nat in
      (97 \<le> n \<and> n \<le> 122) \<or> (65 \<le> n \<and> n \<le> 90) \<or> (48 \<le> n \<and> n \<le> 57))"

definition name_matches :: "string \<Rightarrow> bool" where
  "name_matches s \<longleftrightarrow> 1 \<le> length s \<and> length s \<le> 30 \<and> list_all name_char s"

definition isValid :: "TableEntry \<Rightarrow> bool" where
  "isValid entry =
     (if \<not> name_matches (Appname entry) then False
      else if \<not> name_matches (Appns entry) then False
      else if \<not> name_matches (Servicename entry) then False
      else if \<not> name_matches (Servicenamespace entry) then False
      else if Instancenumber entry < 0 then False
      else if Cluster entry < 0 then False
      else if Nodeip entry = None then False
      else if Nsip entry = None then False
      else if Nsipv6 entry = None then False
      else if length (ServiceIPs entry) < 1 then False
      else True)"

definition TableManager_Add :: "TableEntry \<Rightarrow> TableManager \<Rightarrow> error option \<times> TableManager" where
  "TableManager_Add entry t =
     (if isValid entry
      then (None, t\<lparr>translationTable := translationTable t @ [entry]\<rparr>)
      else (Some ''InvalidEntry'', t))"

definition removeByIndex :: "int \<Rightarrow> TableManager \<Rightarrow> (error option \<times> TableManager) option" where
  "removeByIndex index t =
     (if index > -1 then
        (case swap_remove index (translationTable t) of
           None \<Rightarrow> None
         | Some tab \<Rightarrow> Some (None, t\<lparr>translationTable := tab\<rparr>))
      else Some (Some ''entry not found'', t))"

definition nsip_matches :: "ip \<Rightarrow> TableEntry \<Rightarrow> bool" where
  "nsip_matches nsip e \<longleftrightarrow> IP_Equal (Nsip e) nsip \<or> IP_Equal (Nsipv6 e) nsip"

definition RemoveByNsip :: "ip \<Rightarrow> TableManager \<Rightarrow> (error option \<times> TableManager) option" where
  "RemoveByNsip nsip t =
     (let found = first_index (nsip_matches nsip) (translationTable t) in removeByIndex found t)"

function removeJob_loop ::
  "string \<Rightarrow> int \<Rightarrow> int \<Rightarrow> TableManager \<Rightarrow> (error option \<times> TableManager) option" where
  "removeJob_loop jobname i elems t =
     (if i < elems then
        (if i < 0 \<or> i \<ge> int (length (translationTable t)) then None
         else if JobName (translationTable t ! nat i) = jobname then
           (case removeByIndex i t of
              None \<Rightarrow> None
            | Some (Some err, t') \<Rightarrow> Some (Some err, t')
            | Some (None, t') \<Rightarrow> removeJob_loop jobname i (elems - 1) t')
         else removeJob_loop jobname (i + 1) elems t)
      else Some (None, t))"
  by pat_completeness auto
termination
  by (relation "measure (\<lambda>(jobname, i, elems, t). nat (elems - i))") auto

declare removeJob_loop.simps [simp del]

definition RemoveByJobName :: "string \<Rightarrow> TableManager \<Rightarrow> (error option \<times> TableManager) option" where
  "RemoveByJobName jobname t = removeJob_loop jobname 0 (int (length (translationTable t))) t"

definition sip_matches :: "ip \<Rightarrow> ServiceIP \<Rightarrow> bool" where
  "sip_matches a s \<longleftrightarrow> IP_Equal (Address s) a \<or> IP_Equal (Address_v6 s) a"

text \<open>One copy of the entry is returned for each of its service addresses that matches.\<close>

definition SearchByServiceIP :: "ip \<Rightarrow> TableManager \<Rightarrow> TableEntry list" where
  "SearchByServiceIP a t =
     concat (map (\<lambda>tableElement.
       concat (map (\<lambda>elemip. if sip_matches a elemip then [tableElement] else [])
         (ServiceIPs tableElement))) (translationTable t))"

text \<open>\<open>None\<close> is the pair of the zero entry and \<open>false\<close>.\<close>

definition SearchByNsIP :: "ip \<Rightarrow> TableManager \<Rightarrow> TableEntry option" where
  "SearchByNsIP a t = List.find (nsip_matches a) (translationTable t)"

definition SearchByNodeIp :: "ip \<Rightarrow> TableManager \<Rightarrow> TableEntry list" where
  "SearchByNodeIp a t = filter (\<lambda>e. IP_Equal (Nodeip e) a) (translationTable t)"

definition SearchByJobName :: "string \<Rightarrow> TableManager \<Rightarrow> TableEntry list" where
  "SearchByJobName jobname t = filter (\<lambda>e. JobName e = jobname) (translationTable t)"

fun IsNamespaceStillValid :: "ip \<Rightarrow> TableEntry list \<Rightarrow> bool" where
  "IsNamespaceStillValid nsip [] = False"
| "IsNamespaceStillValid nsip (entry # table) =
     (if nsip_matches nsip entry then True else IsNamespaceStillValid nsip table)"

section \<open>The contract of a table\<close>

locale entry_table =
  fixes entries :: "'t \<Rightarrow> 'e multiset"
    and valid :: "'e \<Rightarrow> bool"
    and matches :: "'k \<Rightarrow> 'e \<Rightarrow> bool"
    and job :: "'e \<Rightarrow> 'j"
    and add :: "'e \<Rightarrow> 't \<Rightarrow> error option \<times> 't"
    and remove_key :: "'k \<Rightarrow> 't \<Rightarrow> (error option \<times> 't) option"
    and remove_job :: "'j \<Rightarrow> 't \<Rightarrow> (error option \<times> 't) option"
  assumes add_valid: "valid e \<Longrightarrow> \<exists>t'. add e t = (None, t') \<and> entries t' = add_mset e (entries t)"
    and add_invalid: "\<not> valid e \<Longrightarrow> \<exists>err. add e t = (Some err, t)"
    and remove_key_hit: "\<exists>e. e \<in># entries t \<and> matches k e \<Longrightarrow>
      \<exists>e t'. e \<in># entries t \<and> matches k e \<and> remove_key k t = Some (None, t') \<and>
        entries t' = entries t - {#e#}"
    and remove_key_miss: "\<forall>e. e \<in># entries t \<longrightarrow> \<not> matches k e \<Longrightarrow>
      \<exists>err. remove_key k t = Some (Some err, t)"
    and remove_job_all: "\<exists>t'. remove_job j t = Some (None, t') \<and>
      entries t' = filter_mset (\<lambda>e. job e \<noteq> j) (entries t)"
begin

text \<open>Removing a key always returns, and takes away at most one entry, which has the key.\<close>

lemma remove_key_cases:
  obtains (hit) e t' where "e \<in># entries t" "matches k e" "remove_key k t = Some (None, t')"
      "entries t' = entries t - {#e#}"
  | (miss) err where "\<forall>e. e \<in># entries t \<longrightarrow> \<not> matches k e" "remove_key k t = Some (Some err, t)"
proof (cases "\<exists>e. e \<in># entries t \<and> matches k e")
  case True
  from remove_key_hit [OF this] show ?thesis using hit by blast
next
  case False
  then show ?thesis using remove_key_miss [of t k] miss by blast
qed

lemma remove_key_subset: "remove_key k t = Some (r, t') \<Longrightarrow> entries t' \<subseteq># entries t"
  by (cases rule: remove_key_cases [where k = k and t = t]) auto

lemma add_subset: "add e t = (r, t') \<Longrightarrow> entries t' \<subseteq># add_mset e (entries t)"
  using add_valid [of e t] add_invalid [of e t]
  by (cases "valid e") (auto simp: subset_mset.le_iff_add intro: exI [of _ "{#e#}"])

lemma all_valid_add:
  "add e t = (r, t') \<Longrightarrow> \<forall>x \<in># entries t. valid x \<Longrightarrow> \<forall>x \<in># entries t'. valid x"
  using add_valid [of e t] add_invalid [of e t] by (cases "valid e") auto

text \<open>
  If at most one entry has the key, none is left after the removal: the first match is the only one.
\<close>

lemma remove_unique_key:
  assumes "size (filter_mset (matches k) (entries t)) \<le> 1" and "remove_key k t = Some (r, t')"
  shows "filter_mset (matches k) (entries t') = {#}"
proof (cases rule: remove_key_cases [where k = k and t = t])
  case (hit e t'')
  then have "e \<in># filter_mset (matches k) (entries t)" by simp
  with assms(1) have "filter_mset (matches k) (entries t) = {#e#}"
    by (metis One_nat_def le_Suc_eq le_zero_eq nonempty_has_size multi_member_split
        not_in_iff size_1_singleton_mset size_eq_0_iff_empty add_mset_eq_single empty_iff set_mset_empty)
  with hit assms(2) show ?thesis by (simp add: filter_diff_mset)
next
  case (miss err)
  with assms(2) show ?thesis by (auto simp: multiset_eq_iff not_in_iff)
qed

end

section \<open>The translation table provides it\<close>

definition table_entries :: "TableManager \<Rightarrow> TableEntry multiset" where
  "table_entries t = mset (translationTable t)"

lemma RemoveByNsip_cases:
  obtains (hit) j t' where "j < length (translationTable t)" "nsip_matches k (translationTable t ! j)"
      "\<forall>x \<in> set (take j (translationTable t)). \<not> nsip_matches k x"
      "RemoveByNsip k t = Some (None, t')"
      "table_entries t' = table_entries t - {# translationTable t ! j #}"
  | (miss) "\<forall>e \<in> set (translationTable t). \<not> nsip_matches k e"
      "RemoveByNsip k t = Some (Some ''entry not found'', t)"
proof (cases rule: first_index_cases [of "nsip_matches k" "translationTable t"])
  case none
  then show ?thesis using miss by (simp add: RemoveByNsip_def removeByIndex_def)
next
  case (found j)
  from found(1) obtain ys where "swap_remove (int j) (translationTable t) = Some ys"
    "mset ys = mset (translationTable t) - {# translationTable t ! j #}"
    by (rule swap_remove_mset)
  with found hit [of j "t\<lparr>translationTable := ys\<rparr>"] show ?thesis
    by (simp add: RemoveByNsip_def removeByIndex_def table_entries_def)
qed

lemma removeJob_loop_spec:
  assumes "0 \<le> i" "elems = int (length (translationTable t))"
    "\<forall>e \<in> set (take (nat i) (translationTable t)). JobName e \<noteq> jobname"
  shows "\<exists>t'. removeJob_loop jobname i elems t = Some (None, t') \<and>
    table_entries t' = filter_mset (\<lambda>e. JobName e \<noteq> jobname) (table_entries t)"
  using assms
proof (induction jobname i elems t rule: removeJob_loop.induct)
  case (1 jobname i elems t)
  let ?tab = "translationTable t"
  show ?case
  proof (cases "i < elems")
    case False
    with "1.prems" have "\<forall>e \<in> set ?tab. JobName e \<noteq> jobname" by simp
    then have "filter_mset (\<lambda>e. JobName e \<noteq> jobname) (mset ?tab) = mset ?tab"
      by (simp add: filter_mset_eq_conv)
    with False show ?thesis by (subst removeJob_loop.simps) (simp add: table_entries_def)
  next
    case True
    with "1.prems" have range: "\<not> (i < 0 \<or> i \<ge> int (length ?tab))" "nat i < length ?tab" by auto
    show ?thesis
    proof (cases "JobName (?tab ! nat i) = jobname")
      case match: True
      let ?ys = "butlast (?tab[nat i := last ?tab])"
      let ?t' = "t\<lparr>translationTable := ?ys\<rparr>"
      have rem: "removeByIndex i t = Some (None, ?t')"
        using range "1.prems" by (simp add: removeByIndex_def swap_remove_def)
      have ms: "mset ?ys = mset ?tab - {# ?tab ! nat i #}"
        using range(2) by (rule mset_butlast_update)
      have pre: "take (nat i) ?ys = take (nat i) ?tab"
        using range(2) by (simp add: take_butlast)
      from "1.IH"(1) [OF True range(1) match rem refl] "1.prems" pre range obtain t'' where
        "removeJob_loop jobname i (elems - 1) ?t' = Some (None, t'')"
        "table_entries t'' = filter_mset (\<lambda>e. JobName e \<noteq> jobname) (table_entries ?t')"
        by auto
      moreover have "filter_mset (\<lambda>e. JobName e \<noteq> jobname) (table_entries ?t') =
          filter_mset (\<lambda>e. JobName e \<noteq> jobname) (table_entries t)"
        using match by (simp add: table_entries_def ms)
      ultimately show ?thesis
        using True range match rem by (subst removeJob_loop.simps) simp
    next
      case False
      have "nat (i + 1) = Suc (nat i)" using "1.prems" by simp
      then have "\<forall>e \<in> set (take (nat (i + 1)) ?tab). JobName e \<noteq> jobname"
        using "1.prems"(3) False range(2) by (auto simp: take_Suc_conv_app_nth)
      with "1.IH"(2) [OF True range(1) False] "1.prems" show ?thesis
        using True range False by (subst removeJob_loop.simps) simp
    qed
  qed
qed

interpretation tab: entry_table table_entries isValid nsip_matches JobName
  TableManager_Add RemoveByNsip RemoveByJobName
proof unfold_locales
  show "isValid e \<Longrightarrow> \<exists>t'. TableManager_Add e t = (None, t') \<and> table_entries t' = add_mset e (table_entries t)"
    for e t by (simp add: TableManager_Add_def table_entries_def)
  show "\<not> isValid e \<Longrightarrow> \<exists>err. TableManager_Add e t = (Some err, t)" for e t
    by (simp add: TableManager_Add_def)
  show "\<exists>e. e \<in># table_entries t \<and> nsip_matches k e \<Longrightarrow>
      \<exists>e t'. e \<in># table_entries t \<and> nsip_matches k e \<and> RemoveByNsip k t = Some (None, t') \<and>
        table_entries t' = table_entries t - {#e#}" for t k
    by (cases rule: RemoveByNsip_cases [of t k])
       (auto simp: table_entries_def, metis nth_mem)
  show "\<forall>e. e \<in># table_entries t \<longrightarrow> \<not> nsip_matches k e \<Longrightarrow>
      \<exists>err. RemoveByNsip k t = Some (Some err, t)" for t k
    by (cases rule: RemoveByNsip_cases [of t k]) (auto simp: table_entries_def)
  show "\<exists>t'. RemoveByJobName j t = Some (None, t') \<and>
      table_entries t' = filter_mset (\<lambda>e. JobName e \<noteq> j) (table_entries t)" for j t
    unfolding RemoveByJobName_def by (rule removeJob_loop_spec) auto
qed

section \<open>Searches\<close>

definition serves :: "ip \<Rightarrow> TableEntry \<Rightarrow> bool" where
  "serves a e \<longleftrightarrow> (\<exists>s \<in> set (ServiceIPs e). sip_matches a s)"

lemma set_SearchByServiceIP: "set (SearchByServiceIP a t) = {e \<in> set (translationTable t). serves a e}"
  by (auto simp: SearchByServiceIP_def serves_def)

lemma IsNamespaceStillValid_iff: "IsNamespaceStillValid a es \<longleftrightarrow> (\<exists>e \<in> set es. nsip_matches a e)"
  by (induction es) auto

lemma SearchByNsIP_Some:
  "SearchByNsIP a t = Some e \<Longrightarrow> e \<in> set (translationTable t) \<and> nsip_matches a e"
  by (auto simp: SearchByNsIP_def find_Some_iff)

lemma SearchByNsIP_None: "SearchByNsIP a t = None \<longleftrightarrow> (\<forall>e \<in> set (translationTable t). \<not> nsip_matches a e)"
  by (auto simp: SearchByNsIP_def find_None_iff)

section \<open>Properties\<close>

text \<open>A table in use: any sequence of the three mutating operations.\<close>

datatype table_op = OpAdd TableEntry | OpRemoveNsip ip | OpRemoveJob string

fun table_step :: "table_op \<Rightarrow> TableManager \<Rightarrow> TableManager option" where
  "table_step (OpAdd e) t = Some (snd (TableManager_Add e t))"
| "table_step (OpRemoveNsip k) t = map_option snd (RemoveByNsip k t)"
| "table_step (OpRemoveJob j) t = map_option snd (RemoveByJobName j t)"

fun table_run :: "table_op list \<Rightarrow> TableManager \<Rightarrow> TableManager option" where
  "table_run [] t = Some t"
| "table_run (x # xs) t = do { t' \<leftarrow> table_step x t; table_run xs t' }"

lemma table_step_valid:
  assumes "list_all isValid (translationTable t)"
  shows "\<exists>t'. table_step x t = Some t' \<and> list_all isValid (translationTable t')"
proof -
  have sub: "list_all isValid (translationTable t')" if "table_entries t' \<subseteq># table_entries t" for t'
    using set_mset_mono [OF that] assms by (auto simp: table_entries_def list_all_iff)
  show ?thesis
  proof (cases x)
    case (OpAdd e)
    with assms show ?thesis by (simp add: TableManager_Add_def)
  next
    case (OpRemoveNsip k)
    then show ?thesis
      by (cases rule: tab.remove_key_cases [where k = k and t = t])
         (use sub assms in \<open>auto simp: diff_subset_eq_self\<close>)
  next
    case (OpRemoveJob j)
    then show ?thesis using tab.remove_job_all [of j t] sub by auto
  qed
qed

lemma table_run_ok:
  "list_all isValid (translationTable t) \<Longrightarrow>
    \<exists>t'. table_run xs t = Some t' \<and> list_all isValid (translationTable t')"
proof (induction xs arbitrary: t)
  case Nil
  then show ?case by simp
next
  case (Cons x xs)
  from table_step_valid [OF Cons.prems] obtain t' where
    "table_step x t = Some t'" "list_all isValid (translationTable t')" by blast
  with Cons.IH show ?case by simp
qed

text \<open>
  Whatever sequence of insertions and removals a table has seen since it was created, no
  operation has indexed out of range and every entry in it passed the validation.
\<close>

theorem table_entries_stay_valid:
  "\<exists>t. table_run ops NewTableManager = Some t \<and> list_all isValid (translationTable t)"
  by (rule table_run_ok) (simp add: NewTableManager_def)

text \<open>
  Removing a job returns without error, deletes every entry of the job and keeps every other
  entry, with its multiplicity; a search for the job then finds nothing.
\<close>

theorem remove_by_job_name:
  "\<exists>t'. RemoveByJobName jobname t = Some (None, t') \<and>
    mset (translationTable t') = filter_mset (\<lambda>e. JobName e \<noteq> jobname) (mset (translationTable t)) \<and>
    SearchByJobName jobname t' = []"
proof -
  obtain t' where t': "RemoveByJobName jobname t = Some (None, t')"
    "table_entries t' = filter_mset (\<lambda>e. JobName e \<noteq> jobname) (table_entries t)"
    using tab.remove_job_all by blast
  then have "set (translationTable t') = {e \<in> set (translationTable t). JobName e \<noteq> jobname}"
    by (metis set_mset_filter set_mset_mset table_entries_def)
  then have "SearchByJobName jobname t' = []" by (simp add: SearchByJobName_def filter_empty_conv)
  with t' show ?thesis by (simp add: table_entries_def)
qed

text \<open>
  Removing a namespace address deletes exactly one entry, the first whose IPv4 or IPv6
  namespace address equals it, and fails without changing the table when there is none.
\<close>

theorem remove_by_nsip:
  "(\<exists>j t'. j < length (translationTable t) \<and> nsip_matches k (translationTable t ! j) \<and>
      list_all (\<lambda>e. \<not> nsip_matches k e) (take j (translationTable t)) \<and>
      RemoveByNsip k t = Some (None, t') \<and>
      mset (translationTable t') = mset (translationTable t) - {# translationTable t ! j #}) \<or>
   (list_all (\<lambda>e. \<not> nsip_matches k e) (translationTable t) \<and>
      RemoveByNsip k t = Some (Some ''entry not found'', t))"
  by (cases rule: RemoveByNsip_cases [of t k]) (auto simp: table_entries_def list_all_iff)

text \<open>
  The search by service address returns every entry with that IPv4 or IPv6 service address,
  once for each of its service addresses that matches, and no other entry.
\<close>

theorem search_by_service_ip_count:
  "count (mset (SearchByServiceIP a t)) e =
    count (mset (translationTable t)) e * length (filter (sip_matches a) (ServiceIPs e))"
proof -
  have one: "mset (concat (map (\<lambda>s. if sip_matches a s then [x] else []) ss)) =
      replicate_mset (length (filter (sip_matches a) ss)) x" for ss and x :: TableEntry
    by (induction ss) auto
  have "count (mset (concat (map (\<lambda>x. concat (map (\<lambda>s. if sip_matches a s then [x] else [])
      (ServiceIPs x))) es))) e = count (mset es) e * length (filter (sip_matches a) (ServiceIPs e))" for es
    by (induction es) (auto simp: one count_replicate_mset)
  then show ?thesis unfolding SearchByServiceIP_def .
qed

end
