(* ===== verification/ProxyCache.thy ===== *)
theory ProxyCache
  imports GoNet
begin

text \<open>
  \<open>proxy/proxyCache.go\<close>: the cache of active flows, one list of at most ten conversions for each
  source port. \<open>now\<close> is the Unix time an operation reads. The array of 65536 lists is a function
  of the port together with its length; an index outside the length panics.

  The abstract view of the cache is \<open>flow c p d\<close>, the conversion stored for source port \<open>p\<close> and
  destination port \<open>d\<close>. The locale \<open>flow_cache\<close> states what the proxy relies on in these terms, and
  the lemmas show that the ring buffers implement it: an update of a map in which a new port may
  push out the conversion that was written ten insertions before.
\<close>

section \<open>Data\<close>

record ConversionEntry =
  srcip :: ip
  dstip :: ip
  dstServiceIp :: ip
  srcInstanceIp :: ip
  srcport :: int
  dstport :: int

definition zero_entry :: ConversionEntry where
  "zero_entry = \<lparr>srcip = None, dstip = None, dstServiceIp = None, srcInstanceIp = None,
     srcport = 0, dstport = 0\<rparr>"

record ConversionList =
  nextEntry :: int
  lastUsed :: int
  conversionList :: "ConversionEntry list option"

definition zero_list :: ConversionList where
  "zero_list = \<lparr>nextEntry = 0, lastUsed = 0, conversionList = None\<rparr>"

record ProxyCache =
  cache_at :: "nat \<Rightarrow> ConversionList"
  cache_len :: nat
  conversionListMaxSize :: int

definition NewProxyCache :: ProxyCache where
  "NewProxyCache = \<lparr>cache_at = (\<lambda>_. zero_list), cache_len = 65536, conversionListMaxSize = 10\<rparr>"

section \<open>Operations\<close>

definition cache_elem :: "ProxyCache \<Rightarrow> int \<Rightarrow> ConversionList option" where
  "cache_elem c port = (if 0 \<le> port \<and> port < int (cache_len c) then Some (cache_at c (nat port)) else None)"

definition cache_put :: "ProxyCache \<Rightarrow> int \<Rightarrow> ConversionList \<Rightarrow> ProxyCache" where
  "cache_put c port l = c\<lparr>cache_at := (cache_at c)(nat port := l)\<rparr>"

definition evict_list :: "int \<Rightarrow> int \<Rightarrow> ConversionList \<Rightarrow> ConversionList" where
  "evict_list now timeoutSeconds l =
     (if lastUsed l \<noteq> 0 \<and> now - lastUsed l > timeoutSeconds
      then l\<lparr>lastUsed := 0, nextEntry := 0, conversionList := None\<rparr> else l)"

definition evictOldEntries :: "int \<Rightarrow> int \<Rightarrow> ProxyCache \<Rightarrow> ProxyCache" where
  "evictOldEntries now timeoutSeconds c =
     c\<lparr>cache_at := (\<lambda>i. if i < cache_len c then evict_list now timeoutSeconds (cache_at c i)
                       else cache_at c i)\<rparr>"

text \<open>The search common to both retrievals: the first conversion that satisfies the test.\<close>

definition retrieve :: "int \<Rightarrow> int \<Rightarrow> (ConversionEntry \<Rightarrow> bool) \<Rightarrow> ProxyCache \<Rightarrow>
    (ConversionEntry option \<times> ProxyCache) option" where
  "retrieve now port test c =
     do {
       elem \<leftarrow> cache_elem c port;
       (case (case conversionList elem of None \<Rightarrow> None | Some es \<Rightarrow> List.find test es) of
          Some e \<Rightarrow> Some (Some e, cache_put c port (elem\<lparr>lastUsed := now\<rparr>))
        | None \<Rightarrow> Some (None, c))
     }"

definition RetrieveByServiceIP ::
  "int \<Rightarrow> ip \<Rightarrow> ip \<Rightarrow> int \<Rightarrow> ip \<Rightarrow> int \<Rightarrow> ProxyCache \<Rightarrow> (ConversionEntry option \<times> ProxyCache) option" where
  "RetrieveByServiceIP now sip instanceIP sport dServiceIp dport c =
     retrieve now sport
       (\<lambda>e. dstport e = dport \<and> IP_Equal (dstServiceIp e) dServiceIp \<and> IP_Equal (srcip e) sip \<and>
            IP_Equal (srcInstanceIp e) instanceIP) c"

definition RetrieveByInstanceIp ::
  "int \<Rightarrow> ip \<Rightarrow> int \<Rightarrow> int \<Rightarrow> ProxyCache \<Rightarrow> (ConversionEntry option \<times> ProxyCache) option" where
  "RetrieveByInstanceIp now sip sport dport c =
     retrieve now sport (\<lambda>e. dstport e = dport \<and> IP_Equal (srcip e) sip) c"

definition addToConversionList :: "int \<Rightarrow> ConversionEntry \<Rightarrow> ProxyCache \<Rightarrow> ProxyCache option" where
  "addToConversionList now entry c =
     do {
       elem \<leftarrow> cache_elem c (srcport entry);
       let elem = elem\<lparr>lastUsed := now\<rparr>;
       let es = (case conversionList elem of None \<Rightarrow> [] | Some es \<Rightarrow> es);
       let pos = first_index (\<lambda>e. dstport e = dstport entry) es;
       (if pos \<noteq> -1 then
          Some (cache_put c (srcport entry) (elem\<lparr>conversionList := Some (es[nat pos := entry])\<rparr>))
        else if 0 \<le> nextEntry elem \<and> nextEntry elem < int (length es) then
          Some (cache_put c (srcport entry)
            (elem\<lparr>conversionList := Some (es[nat (nextEntry elem) := entry]),
                  nextEntry := (nextEntry elem + 1) mod conversionListMaxSize c\<rparr>))
        else None)
     }"

definition ProxyCache_Add :: "int \<Rightarrow> ConversionEntry \<Rightarrow> ProxyCache \<Rightarrow> ProxyCache option" where
  "ProxyCache_Add now entry c =
     do {
       elem \<leftarrow> cache_elem c (srcport entry);
       let elem = (if conversionList elem = None \<or> conversionList elem = Some []
                   then elem\<lparr>nextEntry := 0,
                             conversionList := Some (replicate (nat (conversionListMaxSize c)) zero_entry)\<rparr>
                   else elem);
       addToConversionList now entry (cache_put c (srcport entry) elem)
     }"

section \<open>Invariant and abstract view\<close>

text \<open>The slots that were filled have ports from 1 on, each port once; the others are zero.\<close>

definition ring_ok :: "int \<Rightarrow> ConversionEntry list \<Rightarrow> int \<Rightarrow> bool" where
  "ring_ok port es nxt \<longleftrightarrow> length es = 10 \<and> 0 \<le> nxt \<and> nxt < 10 \<and>
     (\<forall>e \<in> set es. e = zero_entry \<or> (1 \<le> dstport e \<and> srcport e = port)) \<and>
     (\<forall>i < 10. \<forall>j < 10. i \<noteq> j \<longrightarrow> dstport (es ! i) = dstport (es ! j) \<longrightarrow> es ! i = zero_entry)"

definition list_ok :: "int \<Rightarrow> ConversionList \<Rightarrow> bool" where
  "list_ok port l \<longleftrightarrow>
     (case conversionList l of None \<Rightarrow> nextEntry l = 0 | Some es \<Rightarrow> ring_ok port es (nextEntry l))"

definition cache_ok :: "ProxyCache \<Rightarrow> bool" where
  "cache_ok c \<longleftrightarrow> cache_len c = 65536 \<and> conversionListMaxSize c = 10 \<and>
     (\<forall>p < 65536. list_ok (int p) (cache_at c p))"

definition port_ok :: "int \<Rightarrow> bool" where
  "port_ok p \<longleftrightarrow> 0 \<le> p \<and> p < 65536"

definition slots :: "ProxyCache \<Rightarrow> int \<Rightarrow> ConversionEntry list" where
  "slots c p = (case conversionList (cache_at c (nat p)) of None \<Rightarrow> [] | Some es \<Rightarrow> es)"

definition flow :: "ProxyCache \<Rightarrow> int \<Rightarrow> int \<Rightarrow> ConversionEntry option" where
  "flow c p d = List.find (\<lambda>e. dstport e = d) (slots c p)"

lemma zero_entry_ports [simp]: "dstport zero_entry = 0" "srcport zero_entry = 0"
  by (simp_all add: zero_entry_def)

lemma cache_ok_New: "cache_ok NewProxyCache"
  by (simp add: cache_ok_def NewProxyCache_def list_ok_def zero_list_def)

lemma cache_elem_ok: "cache_ok c \<Longrightarrow> port_ok p \<Longrightarrow> cache_elem c p = Some (cache_at c (nat p))"
  by (simp add: cache_elem_def cache_ok_def port_ok_def)

lemma cache_elem_bad: "cache_ok c \<Longrightarrow> \<not> port_ok p \<Longrightarrow> cache_elem c p = None"
  by (auto simp: cache_elem_def cache_ok_def port_ok_def)

lemma cache_ok_put:
  "cache_ok c \<Longrightarrow> port_ok p \<Longrightarrow> list_ok p l \<Longrightarrow> cache_ok (cache_put c p l)"
  by (auto simp: cache_ok_def cache_put_def port_ok_def)

lemma cache_ok_list: "cache_ok c \<Longrightarrow> port_ok p \<Longrightarrow> list_ok p (cache_at c (nat p))"
  by (auto simp: cache_ok_def port_ok_def) (metis int_nat_eq nat_less_iff of_nat_numeral)

lemma cache_at_put: "port_ok p \<Longrightarrow> port_ok q \<Longrightarrow>
    cache_at (cache_put c p l) (nat q) = (if q = p then l else cache_at c (nat q))"
  by (auto simp: cache_put_def port_ok_def)

text \<open>In a well-formed ring a port from 1 on determines its slot.\<close>

lemma ring_find_iff:
  assumes "ring_ok p es nxt" "1 \<le> d"
  shows "List.find (\<lambda>e. dstport e = d) es = Some e \<longleftrightarrow> e \<in> set es \<and> dstport e = d"
proof
  assume "List.find (\<lambda>e. dstport e = d) es = Some e"
  then show "e \<in> set es \<and> dstport e = d" by (auto simp: find_Some_iff)
next
  assume e: "e \<in> set es \<and> dstport e = d"
  then obtain i where i: "i < 10" "es ! i = e" using assms(1) by (auto simp: ring_ok_def in_set_conv_nth)
  have "dstport (es ! j) \<noteq> d" if "j < i" for j
  proof
    assume "dstport (es ! j) = d"
    with that i e assms(1) have "es ! j = zero_entry" by (auto simp: ring_ok_def)
    with \<open>dstport (es ! j) = d\<close> assms(2) show False by simp
  qed
  with i e assms(1) show "List.find (\<lambda>e. dstport e = d) es = Some e"
    by (auto simp: find_Some_iff ring_ok_def intro!: exI [of _ i])
qed

text \<open>A search by port and a further test is the search by port followed by the test.\<close>

lemma ring_find_and:
  assumes "ring_ok p es nxt" "1 \<le> d"
  shows "List.find (\<lambda>e. dstport e = d \<and> P e) es =
    (case List.find (\<lambda>e. dstport e = d) es of None \<Rightarrow> None | Some e \<Rightarrow> if P e then Some e else None)"
proof (cases "List.find (\<lambda>e. dstport e = d \<and> P e) es")
  case None
  then show ?thesis
    using ring_find_iff [OF assms] by (auto simp: find_None_iff split: option.splits)
next
  case (Some e)
  then have "e \<in> set es \<and> dstport e = d" "P e" by (auto simp: find_Some_iff)
  with Some show ?thesis using ring_find_iff [OF assms, of e] by simp
qed

lemma slots_cases:
  assumes "cache_ok c" "port_ok p"
  obtains (nil) "conversionList (cache_at c (nat p)) = None" "slots c p = []"
      "nextEntry (cache_at c (nat p)) = 0"
  | (ring) es where "conversionList (cache_at c (nat p)) = Some es" "slots c p = es"
      "ring_ok p es (nextEntry (cache_at c (nat p)))"
  using cache_ok_list [OF assms]
  by (cases "conversionList (cache_at c (nat p))") (auto simp: list_ok_def slots_def)

lemma slots_find_and:
  assumes "cache_ok c" "port_ok p" "1 \<le> d"
  shows "List.find (\<lambda>e. dstport e = d \<and> P e) (slots c p) =
    (case flow c p d of None \<Rightarrow> None | Some e \<Rightarrow> if P e then Some e else None)"
  using assms(1,2)
proof (cases rule: slots_cases)
  case nil
  then show ?thesis by (simp add: flow_def)
next
  case (ring es)
  then show ?thesis using ring_find_and [OF ring(3) assms(3)] by (simp add: flow_def)
qed

lemma flow_ports:
  assumes "cache_ok c" "port_ok p" "1 \<le> d" "flow c p d = Some e"
  shows "dstport e = d" "srcport e = p"
  using assms(1,2)
proof (atomize (full), cases rule: slots_cases)
  case nil
  with assms(4) show "dstport e = d \<and> srcport e = p" by (simp add: flow_def)
next
  case (ring es)
  with assms(4) have "e \<in> set es" "dstport e = d" by (auto simp: flow_def find_Some_iff)
  with ring(3) assms(3) show "dstport e = d \<and> srcport e = p" by (auto simp: ring_ok_def)
qed

section \<open>Retrieval\<close>

lemma slots_put: "port_ok p \<Longrightarrow> port_ok q \<Longrightarrow>
    slots (cache_put c p l) q =
      (if q = p then (case conversionList l of None \<Rightarrow> [] | Some es \<Rightarrow> es) else slots c q)"
  by (auto simp: slots_def cache_at_put)

lemma retrieve_spec:
  assumes "cache_ok c" "port_ok p"
  shows "\<exists>c'. retrieve now p test c = Some (List.find test (slots c p), c') \<and> cache_ok c' \<and>
    (\<forall>q. port_ok q \<longrightarrow> slots c' q = slots c q)"
proof (cases "List.find test (slots c p)")
  case None
  with assms show ?thesis
    by (auto simp: retrieve_def cache_elem_ok slots_def split: option.splits)
next
  case (Some e)
  then obtain es where es: "conversionList (cache_at c (nat p)) = Some es" "slots c p = es"
    by (auto simp: slots_def split: option.splits)
  let ?l = "cache_at c (nat p)\<lparr>lastUsed := now\<rparr>"
  have "list_ok p ?l" using cache_ok_list [OF assms] es by (simp add: list_ok_def)
  with assms have "cache_ok (cache_put c p ?l)" by (simp add: cache_ok_put)
  moreover have "retrieve now p test c = Some (Some e, cache_put c p ?l)"
    using assms Some es by (simp add: retrieve_def cache_elem_ok)
  ultimately show ?thesis
    using Some es assms by (auto simp: slots_put)
qed

lemma retrieve_total:
  "cache_ok c \<Longrightarrow> port_ok p \<Longrightarrow> \<exists>r c'. retrieve now p test c = Some (r, c') \<and> cache_ok c'"
  using retrieve_spec [of c p now test] by blast

section \<open>Insertion\<close>

text \<open>The ring of a port with its next slot, as insertion finds it, and what insertion makes of it.\<close>

definition ring_of :: "ProxyCache \<Rightarrow> int \<Rightarrow> ConversionEntry list \<times> int" where
  "ring_of c p = (if slots c p = [] then (replicate 10 zero_entry, 0)
                  else (slots c p, nextEntry (cache_at c (nat p))))"

definition ring_add :: "ConversionEntry \<Rightarrow> ConversionEntry list \<times> int \<Rightarrow> ConversionEntry list \<times> int" where
  "ring_add e r =
     (case r of (es, nxt) \<Rightarrow>
      let pos = first_index (\<lambda>x. dstport x = dstport e) es in
      if pos \<noteq> -1 then (es[nat pos := e], nxt)
      else (es[nat nxt := e], (nxt + 1) mod 10))"

lemma ring_ok_empty: "ring_ok p (replicate 10 zero_entry) 0"
  by (simp add: ring_ok_def)

lemma ring_ok_of: "cache_ok c \<Longrightarrow> port_ok p \<Longrightarrow> ring_ok p (fst (ring_of c p)) (snd (ring_of c p))"
  by (cases rule: slots_cases [of c p]) (auto simp: ring_of_def ring_ok_empty ring_ok_def)

lemma ring_update_ok:
  assumes r: "ring_ok p es nxt" and j: "j < 10" and e: "srcport e = p" "1 \<le> dstport e"
    and fresh: "\<forall>i < 10. i \<noteq> j \<longrightarrow> dstport (es ! i) \<noteq> dstport e"
    and n: "0 \<le> nxt'" "nxt' < 10"
  shows "ring_ok p (es[j := e]) nxt'"
proof -
  have len: "length es = 10" using r by (simp add: ring_ok_def)
  have "\<forall>x \<in> set (es[j := e]). x = zero_entry \<or> (1 \<le> dstport x \<and> srcport x = p)"
    using r e set_update_subset_insert [of es j e] by (auto simp: ring_ok_def)
  moreover have "es[j := e] ! i = zero_entry"
    if "i < 10" "k < 10" "i \<noteq> k" "dstport (es[j := e] ! i) = dstport (es[j := e] ! k)" for i k
    using that len fresh r by (cases "i = j"; cases "k = j") (auto simp: ring_ok_def)
  ultimately show ?thesis using len n by (simp add: ring_ok_def)
qed

lemma ring_add_cases:
  assumes r: "ring_ok p es nxt" and e: "1 \<le> dstport e"
  obtains (present) j where "j < 10" "dstport (es ! j) = dstport e" "ring_add e (es, nxt) = (es[j := e], nxt)"
      "\<forall>i < 10. i \<noteq> j \<longrightarrow> dstport (es ! i) \<noteq> dstport e"
  | (fresh) "\<forall>x \<in> set es. dstport x \<noteq> dstport e"
      "ring_add e (es, nxt) = (es[nat nxt := e], (nxt + 1) mod 10)"
proof (cases rule: first_index_cases [of "\<lambda>x. dstport x = dstport e" es])
  case none
  with fresh show ?thesis by (simp add: ring_add_def)
next
  case (found j)
  have len: "length es = 10" using r by (simp add: ring_ok_def)
  have "dstport (es ! i) \<noteq> dstport e" if "i < 10" "i \<noteq> j" for i
  proof
    assume eq: "dstport (es ! i) = dstport e"
    with that found len have "dstport (es ! i) = dstport (es ! j)" by simp
    with r that found len have "es ! i = zero_entry" by (auto simp: ring_ok_def)
    with eq e show False by simp
  qed
  with found len present [of j] show ?thesis by (simp add: ring_add_def)
qed

lemma ring_add_ok:
  assumes r: "ring_ok p es nxt" and e: "srcport e = p" "1 \<le> dstport e"
  shows "ring_ok p (fst (ring_add e (es, nxt))) (snd (ring_add e (es, nxt)))"
  using r e(2)
proof (cases rule: ring_add_cases)
  case (present j)
  with r e show ?thesis using ring_update_ok [of p es nxt j e nxt] by (simp add: ring_ok_def)
next
  case fresh
  have "nat nxt < 10" "length es = 10" using r by (auto simp: ring_ok_def)
  with fresh r e show ?thesis
    using ring_update_ok [of p es nxt "nat nxt" e "(nxt + 1) mod 10"] by simp
qed

lemma list_fields:
  "l\<lparr>nextEntry := a, lastUsed := b, conversionList := d\<rparr> = \<lparr>nextEntry = a, lastUsed = b, conversionList = d\<rparr>"
  "l\<lparr>lastUsed := b, conversionList := d, nextEntry := a\<rparr> = \<lparr>nextEntry = a, lastUsed = b, conversionList = d\<rparr>"
  "nextEntry l = a \<Longrightarrow> l\<lparr>lastUsed := b, conversionList := d\<rparr> = \<lparr>nextEntry = a, lastUsed = b, conversionList = d\<rparr>"
  by (cases l, simp)+

lemma Add_ring:
  assumes "cache_ok c" "port_ok (srcport e)"
  shows "ProxyCache_Add now e c = Some (cache_put c (srcport e)
    \<lparr>nextEntry = snd (ring_add e (ring_of c (srcport e))), lastUsed = now,
     conversionList = Some (fst (ring_add e (ring_of c (srcport e))))\<rparr>)"
proof -
  let ?p = "srcport e"
  have nn: "nat (nxt :: int) < 10" if "0 \<le> nxt" "nxt < 10" for nxt using that by simp
  have max: "conversionListMaxSize c = 10" using assms by (simp add: cache_ok_def)
  have put: "cache_elem (cache_put c ?p l) ?p = Some l" for l
    using assms by (simp add: cache_elem_def cache_put_def cache_ok_def port_ok_def)
  have putput: "cache_put (cache_put c ?p l) ?p l' = cache_put c ?p l'" for l l'
    by (simp add: cache_put_def)
  have maxput: "conversionListMaxSize (cache_put c ?p l) = 10" for l
    using max by (simp add: cache_put_def)
  from assms show ?thesis
  proof (cases rule: slots_cases)
    case nil
    then show ?thesis
      using assms max
      by (cases rule: first_index_cases [of "\<lambda>x. dstport x = dstport e" "replicate 10 zero_entry"])
         (simp_all add: ProxyCache_Add_def addToConversionList_def cache_elem_ok put putput maxput
           ring_of_def ring_add_def Let_def list_fields)
  next
    case (ring es)
    then have "es \<noteq> []" "length es = 10" by (auto simp: ring_ok_def)
    with ring assms show ?thesis
      by (cases rule: first_index_cases [of "\<lambda>x. dstport x = dstport e" es])
         (simp_all add: ProxyCache_Add_def addToConversionList_def cache_elem_ok put putput maxput
           ring_of_def ring_add_def Let_def ring_ok_def list_fields)
  qed
qed

lemma Add_ok:
  assumes "cache_ok c" "port_ok (srcport e)" "1 \<le> dstport e"
  obtains c' where "ProxyCache_Add now e c = Some c'" "cache_ok c'"
    "slots c' (srcport e) = fst (ring_add e (ring_of c (srcport e)))"
    "ring_of c' (srcport e) = ring_add e (ring_of c (srcport e))"
    "\<And>q. port_ok q \<Longrightarrow> q \<noteq> srcport e \<Longrightarrow> slots c' q = slots c q"
proof -
  let ?r = "ring_add e (ring_of c (srcport e))"
  let ?l = "\<lparr>nextEntry = snd ?r, lastUsed = now, conversionList = Some (fst ?r)\<rparr>"
  have ok: "ring_ok (srcport e) (fst ?r) (snd ?r)"
    using ring_add_ok [of "srcport e" "fst (ring_of c (srcport e))" "snd (ring_of c (srcport e))" e]
      ring_ok_of [OF assms(1,2)] assms(3) by simp
  then have ne: "fst ?r \<noteq> []" by (auto simp: ring_ok_def)
  show thesis
  proof (rule that [of "cache_put c (srcport e) ?l"])
    show "ProxyCache_Add now e c = Some (cache_put c (srcport e) ?l)"
      using assms(1,2) by (rule Add_ring)
    show "cache_ok (cache_put c (srcport e) ?l)"
      using assms ok by (intro cache_ok_put) (simp_all add: list_ok_def)
    show "slots (cache_put c (srcport e) ?l) (srcport e) = fst ?r"
      using assms by (simp add: slots_put)
    show "ring_of (cache_put c (srcport e) ?l) (srcport e) = ?r"
      using assms ne by (simp add: ring_of_def slots_put cache_at_put)
    show "slots (cache_put c (srcport e) ?l) q = slots c q" if "port_ok q" "q \<noteq> srcport e" for q
      using assms that by (simp add: slots_put)
  qed
qed

lemma in_set_update:
  "j < length xs \<Longrightarrow> x \<in> set (xs[j := e]) \<longleftrightarrow> x = e \<or> (\<exists>i < length xs. i \<noteq> j \<and> xs ! i = x)"
  by (auto simp: in_set_conv_nth nth_list_update)

text \<open>Which conversions for port \<open>d\<close> are there after slot \<open>j\<close> was written.\<close>

lemma port_in_update:
  assumes "j < length es" "\<forall>i < length es. i \<noteq> j \<longrightarrow> dstport (es ! i) \<noteq> dstport e"
    "\<forall>i < length es. i \<noteq> j \<longrightarrow> dstport (es ! j) = d \<longrightarrow> dstport (es ! i) \<noteq> d"
  shows "x \<in> set (es[j := e]) \<and> dstport x = d \<longleftrightarrow>
    (if d = dstport e then x = e else dstport (es ! j) \<noteq> d \<and> x \<in> set es \<and> dstport x = d)"
proof -
  have key: "(\<exists>i < length es. i \<noteq> j \<and> es ! i = x) \<and> dstport x = d \<longleftrightarrow>
      d \<noteq> dstport e \<and> dstport (es ! j) \<noteq> d \<and> x \<in> set es \<and> dstport x = d" (is "?L = ?R") for x
  proof
    assume ?L
    then obtain i where "i < length es" "i \<noteq> j" "es ! i = x" "dstport x = d" by blast
    with assms show ?R by auto
  next
    assume ?R
    then obtain i where "i < length es" "es ! i = x" by (auto simp: in_set_conv_nth)
    with \<open>?R\<close> show ?L by auto
  qed
  have "x \<in> set (es[j := e]) \<and> dstport x = d \<longleftrightarrow>
      x = e \<and> dstport e = d \<or> (\<exists>i < length es. i \<noteq> j \<and> es ! i = x) \<and> dstport x = d"
    unfolding in_set_update [OF assms(1)] by blast
  also have "\<dots> \<longleftrightarrow> x = e \<and> dstport e = d \<or>
      d \<noteq> dstport e \<and> dstport (es ! j) \<noteq> d \<and> x \<in> set es \<and> dstport x = d"
    by (simp only: key)
  also have "\<dots> \<longleftrightarrow>
      (if d = dstport e then x = e else dstport (es ! j) \<noteq> d \<and> x \<in> set es \<and> dstport x = d)"
    by (cases "d = dstport e") simp_all
  finally show ?thesis .
qed

text \<open>The conversion that an insertion of a new port pushes out, if its slot was in use.\<close>

definition evicted :: "ConversionEntry \<Rightarrow> ConversionEntry list \<times> int \<Rightarrow> int option" where
  "evicted e r =
     (case r of (es, nxt) \<Rightarrow>
      if (\<exists>x \<in> set es. dstport x = dstport e) then None else Some (dstport (es ! nat nxt)))"

lemma ring_add_find:
  assumes r: "ring_ok p es nxt" and e: "srcport e = p" "1 \<le> dstport e" and d: "1 \<le> d"
  shows "List.find (\<lambda>x. dstport x = d) (fst (ring_add e (es, nxt))) =
    (if d = dstport e then Some e
     else if evicted e (es, nxt) = Some d then None
     else List.find (\<lambda>x. dstport x = d) es)" (is "?new = ?spec")
proof -
  have len: "length es = 10" using r by (simp add: ring_ok_def)
  have ok: "ring_ok p (fst (ring_add e (es, nxt))) (snd (ring_add e (es, nxt)))"
    using r e by (rule ring_add_ok)
  from r e(2) show ?thesis
  proof (cases rule: ring_add_cases)
    case (present j)
    then have ev: "evicted e (es, nxt) = None"
      using len by (auto simp: evicted_def intro!: bexI [of _ "es ! j"])
    show ?thesis
    proof (rule option_eqI)
      fix x
      have "x \<in> set (es[j := e]) \<and> dstport x = d \<longleftrightarrow>
          (if d = dstport e then x = e else dstport (es ! j) \<noteq> d \<and> x \<in> set es \<and> dstport x = d)"
        using present len by (intro port_in_update) auto
      then show "?new = Some x \<longleftrightarrow> ?spec = Some x"
        using ring_find_iff [OF ok d] ring_find_iff [OF r d] present ev by auto
    qed
  next
    case fresh
    have n: "nat nxt < 10" using r by (auto simp: ring_ok_def)
    have ev: "evicted e (es, nxt) = Some (dstport (es ! nat nxt))"
      using fresh by (auto simp: evicted_def)
    have uniq: "dstport (es ! i) \<noteq> d" if "i < 10" "k < 10" "i \<noteq> k" "dstport (es ! k) = d" for i k
    proof
      assume "dstport (es ! i) = d"
      with that r have "es ! i = zero_entry" by (auto simp: ring_ok_def)
      with \<open>dstport (es ! i) = d\<close> d show False by simp
    qed
    show ?thesis
    proof (rule option_eqI)
      fix x
      have "x \<in> set (es[nat nxt := e]) \<and> dstport x = d \<longleftrightarrow>
          (if d = dstport e then x = e
           else dstport (es ! nat nxt) \<noteq> d \<and> x \<in> set es \<and> dstport x = d)"
      proof (rule port_in_update)
        show "nat nxt < length es" using n len by simp
        show "\<forall>i < length es. i \<noteq> nat nxt \<longrightarrow> dstport (es ! i) \<noteq> dstport e"
          using fresh(1) by simp
        show "\<forall>i < length es. i \<noteq> nat nxt \<longrightarrow> dstport (es ! nat nxt) = d \<longrightarrow> dstport (es ! i) \<noteq> d"
          using uniq n len by simp
      qed
      then show "?new = Some x \<longleftrightarrow> ?spec = Some x"
        using ring_find_iff [OF ok d] ring_find_iff [OF r d] fresh ev by auto
    qed
  qed
qed

lemma find_ring_of: "cache_ok c \<Longrightarrow> port_ok p \<Longrightarrow> 1 \<le> d \<Longrightarrow>
    List.find (\<lambda>x. dstport x = d) (fst (ring_of c p)) = flow c p d"
  by (auto simp: ring_of_def flow_def find_None_iff)

text \<open>Insertion as an update of the map of flows.\<close>

lemma Add_flow:
  assumes "cache_ok c" "port_ok (srcport e)" "1 \<le> dstport e" "ProxyCache_Add now e c = Some c'"
    "port_ok p" "1 \<le> d"
  shows "flow c' p d =
    (if p = srcport e \<and> d = dstport e then Some e
     else if p = srcport e \<and> evicted e (ring_of c p) = Some d then None
     else flow c p d)"
proof -
  obtain c'' where c'': "ProxyCache_Add now e c = Some c''"
    "slots c'' (srcport e) = fst (ring_add e (ring_of c (srcport e)))"
    "\<And>q. port_ok q \<Longrightarrow> q \<noteq> srcport e \<Longrightarrow> slots c'' q = slots c q"
    using Add_ok [OF assms(1-3)] by metis
  with assms(4) have [simp]: "c'' = c'" by simp
  show ?thesis
  proof (cases "p = srcport e")
    case True
    have ring: "ring_ok p (fst (ring_of c p)) (snd (ring_of c p))"
      using assms True by (simp add: ring_ok_of)
    have "flow c' p d = List.find (\<lambda>x. dstport x = d) (fst (ring_add e (ring_of c p)))"
      using c'' True by (simp add: flow_def)
    with ring_add_find [OF ring True [symmetric] assms(3,6)] True find_ring_of [OF assms(1,5,6)]
    show ?thesis by simp
  next
    case False
    with c'' assms show ?thesis by (simp add: flow_def)
  qed
qed

section \<open>Eviction\<close>

definition stale :: "int \<Rightarrow> int \<Rightarrow> ProxyCache \<Rightarrow> int \<Rightarrow> bool" where
  "stale now timeout c p \<longleftrightarrow>
     lastUsed (cache_at c (nat p)) \<noteq> 0 \<and> now - lastUsed (cache_at c (nat p)) > timeout"

lemma evict_ok: "cache_ok c \<Longrightarrow> cache_ok (evictOldEntries now timeout c)"
  by (auto simp: cache_ok_def evictOldEntries_def evict_list_def list_ok_def)

lemma evict_slots:
  "cache_ok c \<Longrightarrow> port_ok p \<Longrightarrow>
    slots (evictOldEntries now timeout c) p = (if stale now timeout c p then [] else slots c p)"
  by (auto simp: slots_def evictOldEntries_def evict_list_def stale_def cache_ok_def port_ok_def)

lemma evict_flow:
  "cache_ok c \<Longrightarrow> port_ok p \<Longrightarrow>
    flow (evictOldEntries now timeout c) p d = (if stale now timeout c p then None else flow c p d)"
  by (simp add: flow_def evict_slots)

section \<open>The contract of a flow cache\<close>

locale flow_cache =
  fixes ok :: "'c \<Rightarrow> bool"
    and entry :: "'c \<Rightarrow> int \<Rightarrow> int \<Rightarrow> 'f option"
    and good :: "int \<Rightarrow> bool"
    and sport :: "'f \<Rightarrow> int"
    and dport :: "'f \<Rightarrow> int"
    and add :: "int \<Rightarrow> 'f \<Rightarrow> 'c \<Rightarrow> 'c option"
    and find :: "int \<Rightarrow> int \<Rightarrow> int \<Rightarrow> ('f \<Rightarrow> bool) \<Rightarrow> 'c \<Rightarrow> ('f option \<times> 'c) option"
  assumes add_law: "ok c \<Longrightarrow> good (sport f) \<Longrightarrow> 1 \<le> dport f \<Longrightarrow>
      \<exists>c'. add now f c = Some c' \<and> ok c' \<and> entry c' (sport f) (dport f) = Some f \<and>
        (\<forall>p d. good p \<longrightarrow> 1 \<le> d \<longrightarrow> p \<noteq> sport f \<longrightarrow> entry c' p d = entry c p d)"
    and find_law: "ok c \<Longrightarrow> good p \<Longrightarrow> 1 \<le> d \<Longrightarrow>
      \<exists>c'. find now p d test c =
          Some (case entry c p d of None \<Rightarrow> None | Some f \<Rightarrow> if test f then Some f else None, c') \<and>
        ok c' \<and> (\<forall>p d. good p \<longrightarrow> 1 \<le> d \<longrightarrow> entry c' p d = entry c p d)"
begin

text \<open>What was added is found, by any test it satisfies, also after further searches.\<close>

lemma find_entry:
  assumes "ok c" "good p" "1 \<le> d" "entry c p d = Some f" "test f"
  obtains c' where "find now p d test c = Some (Some f, c')" "ok c'"
    "\<And>p d. good p \<Longrightarrow> 1 \<le> d \<Longrightarrow> entry c' p d = entry c p d"
  using find_law [OF assms(1-3), of now test] assms(4,5) by auto

lemma find_total:
  assumes "ok c" "good p" "1 \<le> d"
  obtains r c' where "find now p d test c = Some (r, c')" "ok c'"
    "\<And>p d. good p \<Longrightarrow> 1 \<le> d \<Longrightarrow> entry c' p d = entry c p d"
    "\<And>f. r = Some f \<Longrightarrow> entry c p d = Some f \<and> test f"
  using find_law [OF assms, of now test] by (auto split: option.splits if_splits)

lemma add_total:
  assumes "ok c" "good (sport f)" "1 \<le> dport f"
  obtains c' where "add now f c = Some c'" "ok c'" "entry c' (sport f) (dport f) = Some f"
    "\<And>p d. good p \<Longrightarrow> 1 \<le> d \<Longrightarrow> p \<noteq> sport f \<Longrightarrow> entry c' p d = entry c p d"
  using add_law [OF assms, of now] by auto

end

definition find_port :: "int \<Rightarrow> int \<Rightarrow> int \<Rightarrow> (ConversionEntry \<Rightarrow> bool) \<Rightarrow> ProxyCache \<Rightarrow>
    (ConversionEntry option \<times> ProxyCache) option" where
  "find_port now p d test c = retrieve now p (\<lambda>e. dstport e = d \<and> test e) c"

lemma RetrieveByServiceIP_find:
  "RetrieveByServiceIP now sip inst sport dsip dport c =
    find_port now sport dport (\<lambda>e. IP_Equal (dstServiceIp e) dsip \<and> IP_Equal (srcip e) sip \<and>
      IP_Equal (srcInstanceIp e) inst) c"
  by (simp add: RetrieveByServiceIP_def find_port_def)

lemma RetrieveByInstanceIp_find:
  "RetrieveByInstanceIp now sip sport dport c = find_port now sport dport (\<lambda>e. IP_Equal (srcip e) sip) c"
  by (simp add: RetrieveByInstanceIp_def find_port_def)

lemma retrieve_flow:
  assumes "cache_ok c" "port_ok p" "1 \<le> d"
  obtains c' where "find_port now p d test c =
      Some (case flow c p d of None \<Rightarrow> None | Some f \<Rightarrow> if test f then Some f else None, c')"
    "cache_ok c'" "\<And>q d. port_ok q \<Longrightarrow> flow c' q d = flow c q d"
proof -
  from retrieve_spec [OF assms(1,2), of now "\<lambda>e. dstport e = d \<and> test e"] obtain c' where
    "find_port now p d test c = Some (List.find (\<lambda>e. dstport e = d \<and> test e) (slots c p), c')"
    "cache_ok c'" "\<forall>q. port_ok q \<longrightarrow> slots c' q = slots c q"
    by (auto simp: find_port_def)
  with that [of c'] slots_find_and [OF assms, of test] show thesis by (simp add: flow_def)
qed

interpretation fc: flow_cache cache_ok flow port_ok srcport dstport ProxyCache_Add find_port
proof unfold_locales
  fix c and f :: ConversionEntry and now assume a: "cache_ok c" "port_ok (srcport f)" "1 \<le> dstport f"
  obtain c' where c': "ProxyCache_Add now f c = Some c'" "cache_ok c'"
    using Add_ok [OF a] by metis
  with Add_flow [OF a c'(1)] a show
    "\<exists>c'. ProxyCache_Add now f c = Some c' \<and> cache_ok c' \<and> flow c' (srcport f) (dstport f) = Some f \<and>
        (\<forall>p d. port_ok p \<longrightarrow> 1 \<le> d \<longrightarrow> p \<noteq> srcport f \<longrightarrow> flow c' p d = flow c p d)"
    by auto
next
  fix c p d now test assume "cache_ok c" "port_ok p" "1 \<le> (d::int)"
  then show "\<exists>c'. find_port now p d test c =
          Some (case flow c p d of None \<Rightarrow> None | Some f \<Rightarrow> if test f then Some f else None, c') \<and>
        cache_ok c' \<and> (\<forall>p d. port_ok p \<longrightarrow> 1 \<le> d \<longrightarrow> flow c' p d = flow c p d)"
    by (rule retrieve_flow [where now = now and test = test]) auto
qed

section \<open>How long a flow survives\<close>

fun Add_all :: "int \<Rightarrow> ConversionEntry list \<Rightarrow> ProxyCache \<Rightarrow> ProxyCache option" where
  "Add_all now [] c = Some c"
| "Add_all now (e # es) c = do { c' \<leftarrow> ProxyCache_Add now e c; Add_all now es c' }"

text \<open>Slot \<open>j\<close> holds \<open>f\<close> and at least \<open>k\<close> other slots come before it in the order of writing.\<close>

definition holds_slot :: "ConversionEntry \<Rightarrow> nat \<Rightarrow> ConversionEntry list \<times> int \<Rightarrow> bool" where
  "holds_slot f k r \<longleftrightarrow>
     (\<exists>j < 10. fst r ! j = f \<and> int k \<le> (int j - snd r) mod 10)"

lemma mod10_pred: "1 \<le> (m :: int) mod 10 \<Longrightarrow> (m - 1) mod 10 = m mod 10 - 1"
proof -
  assume "1 \<le> m mod 10"
  then have "(m mod 10 - 1) mod 10 = m mod 10 - 1" by (intro mod_pos_pos_trivial) simp_all
  then show ?thesis by (simp add: mod_diff_left_eq)
qed

lemma ring_add_holds:
  assumes r: "ring_ok p es nxt" and h: "holds_slot f (Suc k) (es, nxt)"
    and e: "1 \<le> dstport e" "dstport e \<noteq> dstport f"
  shows "holds_slot f k (ring_add e (es, nxt))"
proof -
  have len: "length es = 10" and n: "0 \<le> nxt" "nxt < 10" using r by (auto simp: ring_ok_def)
  obtain j where j: "j < 10" "es ! j = f" "int (Suc k) \<le> (int j - nxt) mod 10"
    using h by (auto simp: holds_slot_def)
  have pos: "1 \<le> (int j - nxt) mod 10" using j(3) by simp
  then have away: "nat nxt \<noteq> j" using n by auto
  have step: "(int j - (nxt + 1) mod 10) mod 10 = (int j - nxt) mod 10 - 1"
  proof -
    have "(int j - (nxt + 1) mod 10) mod 10 = (int j - (nxt + 1)) mod 10"
      by (rule mod_diff_right_eq)
    also have "\<dots> = (int j - nxt) mod 10 - 1"
      using mod10_pred [OF pos] by (simp add: algebra_simps)
    finally show ?thesis .
  qed
  from r e(1) show ?thesis
  proof (cases rule: ring_add_cases)
    case (present i)
    then have "i \<noteq> j" using j e len by auto
    with present j len show ?thesis by (auto simp: holds_slot_def intro!: exI [of _ j])
  next
    case fresh
    with away j len step n show ?thesis by (auto simp: holds_slot_def intro!: exI [of _ j])
  qed
qed

lemma ring_add_fresh_holds:
  assumes r: "ring_ok p es nxt" and e: "1 \<le> dstport e" "\<forall>x \<in> set es. dstport x \<noteq> dstport e"
  shows "holds_slot e 9 (ring_add e (es, nxt))"
  using r e(1)
proof (cases rule: ring_add_cases)
  case (present j)
  then have "es ! j \<in> set es" using r by (auto simp: ring_ok_def)
  with present e show ?thesis by auto
next
  case fresh
  have n: "0 \<le> nxt" "nxt < 10" "length es = 10" using r by (auto simp: ring_ok_def)
  then have "(nxt - (nxt + 1) mod 10) mod 10 = 9" by presburger
  with fresh n show ?thesis by (auto simp: holds_slot_def intro!: exI [of _ "nat nxt"])
qed

lemma Add_all_holds:
  assumes "cache_ok c" "port_ok p" "holds_slot f (length es) (ring_of c p)" "slots c p \<noteq> []"
    "\<forall>e \<in> set es. srcport e = p \<and> 1 \<le> dstport e \<and> dstport e \<noteq> dstport f"
  shows "\<exists>c'. Add_all now es c = Some c' \<and> cache_ok c' \<and> f \<in> set (slots c' p)"
  using assms
proof (induction es arbitrary: c)
  case Nil
  then have "ring_ok p (fst (ring_of c p)) (snd (ring_of c p))" by (simp add: ring_ok_of)
  with Nil show ?case by (auto simp: holds_slot_def ring_of_def ring_ok_def split: if_splits)
next
  case (Cons e es)
  have e: "srcport e = p" "1 \<le> dstport e" "dstport e \<noteq> dstport f" using Cons.prems by auto
  have ring: "ring_ok p (fst (ring_of c p)) (snd (ring_of c p))" using Cons.prems by (simp add: ring_ok_of)
  obtain c1 where c1: "ProxyCache_Add now e c = Some c1" "cache_ok c1"
    "ring_of c1 p = ring_add e (ring_of c p)" "slots c1 p = fst (ring_add e (ring_of c p))"
    using Add_ok [of c e now] Cons.prems e by metis
  have "holds_slot f (length es) (ring_of c1 p)"
    using ring_add_holds [OF ring, of f "length es" e] Cons.prems e c1(3) by simp
  moreover have "slots c1 p \<noteq> []"
    using ring_add_ok [OF ring e(1,2)] c1(4) by (auto simp: ring_ok_def)
  ultimately obtain c' where "Add_all now es c1 = Some c'" "cache_ok c'" "f \<in> set (slots c' p)"
    using Cons.IH [of c1] Cons.prems c1(2) by auto
  with c1 show ?case by simp
qed

section \<open>Properties\<close>

text \<open>
  No operation of the cache panics or breaks its invariant: from a cache whose lists are nil or
  rings of ten slots with a next slot inside the ring and each destination port from 1 on stored at
  most once, an insertion and both retrievals at a 16-bit source port return, and the insertion, the
  retrievals and the eviction job leave such a cache.
\<close>

theorem proxy_cache_invariant:
  assumes "cache_ok c" and "port_ok (srcport e)" and "1 \<le> dstport e" and "port_ok p"
  shows "(\<exists>c'. ProxyCache_Add now e c = Some c' \<and> cache_ok c') \<and>
    (\<exists>r c'. RetrieveByServiceIP now sip inst p dsip d c = Some (r, c') \<and> cache_ok c') \<and>
    (\<exists>r c'. RetrieveByInstanceIp now sip p d c = Some (r, c') \<and> cache_ok c') \<and>
    cache_ok (evictOldEntries now timeout c)"
proof (intro conjI)
  show "\<exists>c'. ProxyCache_Add now e c = Some c' \<and> cache_ok c'"
    using Add_ok [OF assms(1-3)] by metis
  show "\<exists>r c'. RetrieveByServiceIP now sip inst p dsip d c = Some (r, c') \<and> cache_ok c'"
    unfolding RetrieveByServiceIP_def by (rule retrieve_total [OF assms(1,4)])
  show "\<exists>r c'. RetrieveByInstanceIp now sip p d c = Some (r, c') \<and> cache_ok c'"
    unfolding RetrieveByInstanceIp_def by (rule retrieve_total [OF assms(1,4)])
  show "cache_ok (evictOldEntries now timeout c)" using assms(1) by (rule evict_ok)
qed

definition sample_flow :: "int \<Rightarrow> ConversionEntry" where
  "sample_flow d = \<lparr>srcip = IPv4 10 19 1 15, dstip = IPv4 10 19 2 1, dstServiceIp = IPv4 10 30 255 255,
     srcInstanceIp = IPv4 10 30 0 50, srcport = 777, dstport = d\<rparr>"

lemma sample_flow_simps [simp]:
  "srcport (sample_flow d) = 777" "dstport (sample_flow d) = d" "srcip (sample_flow d) = IPv4 10 19 1 15"
  "dstServiceIp (sample_flow d) = IPv4 10 30 255 255" "srcInstanceIp (sample_flow d) = IPv4 10 30 0 50"
  by (simp_all add: sample_flow_def)

lemma port_ok_777 [simp]: "port_ok 777"
  by (simp add: port_ok_def)

lemma flow_New [simp]: "flow NewProxyCache p d = None"
  by (simp add: flow_def slots_def NewProxyCache_def zero_list_def)

lemma ring_of_New [simp]: "ring_of NewProxyCache p = (replicate 10 zero_entry, 0)"
  by (simp add: ring_of_def slots_def NewProxyCache_def zero_list_def)

theorem proxy_cache_invariant_witness:
  "\<exists>c'. ProxyCache_Add 5 (sample_flow 666) NewProxyCache = Some c' \<and> cache_ok c'"
proof -
  have h: "port_ok (srcport (sample_flow 666))" "1 \<le> dstport (sample_flow 666)" by simp_all
  show ?thesis using proxy_cache_invariant [OF cache_ok_New h port_ok_777] by blast
qed

text \<open>
  C8: Insertion implements a map from (source port, destination port) to conversions. It stores
  the new conversion under its ports, changes no other source port, and takes away at most one
  other conversion of the same source port: the one in the slot that is written next, and only when
  the destination port was not stored yet.
\<close>

theorem proxy_cache_add_refines_map:
  assumes "cache_ok c" and "port_ok (srcport e)" and "1 \<le> dstport e"
  shows "\<exists>c'. ProxyCache_Add now e c = Some c' \<and>
    (\<forall>p d. port_ok p \<longrightarrow> 1 \<le> d \<longrightarrow>
      flow c' p d =
        (if p = srcport e \<and> d = dstport e then Some e
         else if p = srcport e \<and> evicted e (ring_of c p) = Some d then None
         else flow c p d))"
  using Add_ok [OF assms] Add_flow [OF assms] by metis

theorem proxy_cache_add_refines_map_witness:
  "\<exists>c'. ProxyCache_Add 5 (sample_flow 666) NewProxyCache = Some c' \<and>
     flow c' 777 666 = Some (sample_flow 666) \<and> flow c' 777 80 = None"
proof -
  have h: "port_ok (srcport (sample_flow 666))" "1 \<le> dstport (sample_flow 666)" by simp_all
  obtain c' where c': "ProxyCache_Add 5 (sample_flow 666) NewProxyCache = Some c'"
    "\<And>p d. port_ok p \<Longrightarrow> 1 \<le> d \<Longrightarrow> flow c' p d =
      (if p = 777 \<and> d = 666 then Some (sample_flow 666) else None)"
    using proxy_cache_add_refines_map [OF cache_ok_New h, of 5] by auto
  from c'(2) [of 777 666] c'(2) [of 777 80] c'(1) show ?thesis by simp
qed

text \<open>
  The two retrievals read the map and nothing else: a reverse lookup returns the conversion of
  its ports if the source address is the stored one, a forward lookup if service address, source
  address and instance address are, and neither changes what is stored; a source port outside
  16 bits panics.
\<close>

theorem proxy_cache_retrieve:
  assumes "cache_ok c" and "1 \<le> d"
  shows "(port_ok p \<longrightarrow>
      map_option fst (RetrieveByInstanceIp now sip p d c) =
        Some (case flow c p d of None \<Rightarrow> None | Some f \<Rightarrow> if IP_Equal (srcip f) sip then Some f else None) \<and>
      map_option fst (RetrieveByServiceIP now sip inst p dsip d c) =
        Some (case flow c p d of None \<Rightarrow> None
              | Some f \<Rightarrow> if IP_Equal (dstServiceIp f) dsip \<and> IP_Equal (srcip f) sip \<and>
                             IP_Equal (srcInstanceIp f) inst then Some f else None)) \<and>
    (\<not> port_ok p \<longrightarrow> RetrieveByInstanceIp now sip p d c = None \<and>
      RetrieveByServiceIP now sip inst p dsip d c = None) \<and>
    (\<forall>r c' q d'. RetrieveByInstanceIp now sip p d c = Some (r, c') \<or>
        RetrieveByServiceIP now sip inst p dsip d c = Some (r, c') \<longrightarrow>
        port_ok q \<longrightarrow> flow c' q d' = flow c q d')"
proof (cases "port_ok p")
  case True
  note found = retrieve_flow [OF assms(1) True assms(2), where now = now]
  obtain c1 where c1:
    "RetrieveByInstanceIp now sip p d c = Some (case flow c p d of None \<Rightarrow> None
        | Some f \<Rightarrow> if IP_Equal (srcip f) sip then Some f else None, c1)"
    "\<And>q d. port_ok q \<Longrightarrow> flow c1 q d = flow c q d"
    unfolding RetrieveByInstanceIp_find
    by (rule found [where test = "\<lambda>e. IP_Equal (srcip e) sip"]) blast
  obtain c2 where c2:
    "RetrieveByServiceIP now sip inst p dsip d c = Some (case flow c p d of None \<Rightarrow> None
        | Some f \<Rightarrow> if IP_Equal (dstServiceIp f) dsip \<and> IP_Equal (srcip f) sip \<and>
            IP_Equal (srcInstanceIp f) inst then Some f else None, c2)"
    "\<And>q d. port_ok q \<Longrightarrow> flow c2 q d = flow c q d"
    unfolding RetrieveByServiceIP_find
    by (rule found [where test = "\<lambda>e. IP_Equal (dstServiceIp e) dsip \<and>
        IP_Equal (srcip e) sip \<and> IP_Equal (srcInstanceIp e) inst"]) blast
  from c1 c2 True show ?thesis by auto
next
  case False
  with assms show ?thesis
    by (simp add: RetrieveByInstanceIp_def RetrieveByServiceIP_def retrieve_def cache_elem_bad)
qed

theorem proxy_cache_retrieve_witness:
  "map_option fst (RetrieveByInstanceIp 5 (IPv4 10 19 1 15) 777 666 NewProxyCache) = Some None"
  using proxy_cache_retrieve [of NewProxyCache 666 777 5 "IPv4 10 19 1 15"] cache_ok_New by simp

text \<open>
  A new flow is not pushed out early: after it was inserted, up to nine insertions of other
  destination ports at the same source port, new or already known, leave it retrievable.
\<close>

theorem proxy_cache_survives_nine:
  assumes "cache_ok c" and "port_ok (srcport f)" and "1 \<le> dstport f"
    and "flow c (srcport f) (dstport f) = None" and "length es \<le> 9"
    and "\<forall>e \<in> set es. srcport e = srcport f \<and> 1 \<le> dstport e \<and> dstport e \<noteq> dstport f"
  shows "\<exists>c'. Add_all now (f # es) c = Some c' \<and> flow c' (srcport f) (dstport f) = Some f"
proof -
  let ?p = "srcport f"
  have ring: "ring_ok ?p (fst (ring_of c ?p)) (snd (ring_of c ?p))" using assms by (simp add: ring_ok_of)
  have "\<forall>x \<in> set (fst (ring_of c ?p)). dstport x \<noteq> dstport f"
    using assms(4) find_ring_of [OF assms(1-3)] by (auto simp: find_None_iff)
  then have nine: "holds_slot f 9 (ring_add f (ring_of c ?p))"
    using ring_add_fresh_holds [OF ring assms(3)] by simp
  obtain c1 where c1: "ProxyCache_Add now f c = Some c1" "cache_ok c1"
    "slots c1 ?p = fst (ring_add f (ring_of c ?p))" "ring_of c1 ?p = ring_add f (ring_of c ?p)"
    using Add_ok [OF assms(1-3)] by metis
  have "holds_slot f (length es) (ring_of c1 ?p)"
    using nine assms(5) c1(4) by (auto simp: holds_slot_def intro: order_trans)
  moreover have "slots c1 ?p \<noteq> []"
    using ring_add_ok [OF ring refl assms(3)] c1(3) by (auto simp: ring_ok_def)
  ultimately obtain c' where c': "Add_all now es c1 = Some c'" "cache_ok c'" "f \<in> set (slots c' ?p)"
    using Add_all_holds [OF c1(2) assms(2) _ _ assms(6)] by blast
  have "flow c' ?p (dstport f) = Some f"
    using c'(2) assms(2)
  proof (cases rule: slots_cases)
    case (ring es)
    with c'(3) assms(3) ring_find_iff [OF ring(3) assms(3), of f] show ?thesis
      by (simp add: flow_def)
  qed (use c'(3) in simp)
  with c1(1) c'(1) show ?thesis by simp
qed

theorem proxy_cache_survives_nine_witness:
  "\<exists>c'. Add_all 5 (sample_flow 80 # map sample_flow [1, 2, 3, 4, 5, 6, 7, 8, 9]) NewProxyCache = Some c' \<and>
     flow c' 777 80 = Some (sample_flow 80)"
  using proxy_cache_survives_nine [of NewProxyCache "sample_flow 80" "map sample_flow [1, 2, 3, 4, 5, 6, 7, 8, 9]" 5]
    cache_ok_New by simp

text \<open>
  The eviction job forgets exactly the source ports that were used and have been idle for longer
  than the timeout, and keeps every flow of the others.
\<close>

theorem proxy_cache_eviction:
  assumes "cache_ok c" and "port_ok p"
  shows "flow (evictOldEntries now timeout c) p d =
    (if lastUsed (cache_at c (nat p)) \<noteq> 0 \<and> now - lastUsed (cache_at c (nat p)) > timeout
     then None else flow c p d)"
  using evict_flow [OF assms] by (simp add: stale_def)

theorem proxy_cache_eviction_witness:
  "flow (evictOldEntries 100 60 NewProxyCache) 777 80 = None"
  using proxy_cache_eviction [of NewProxyCache 777 100 60 80] cache_ok_New by simp

end
