(* ===== verification/NetUtils.thy ===== *)
theory NetUtils
  imports GoNet
begin

text \<open>
  \<open>network/NetUtils.go\<close>: the successor of an IPv4 and of an IPv6 address, the default route and
  the local address of the node. \<open>NextIPv4\<close> works on a 64-bit \<open>uint\<close> and keeps the low four bytes;
  \<open>NextIPv6\<close> works on a \<open>big.Int\<close>, whose \<open>FillBytes\<close> panics when the number needs more than 16
  bytes. The lemmas give both as arithmetic on the big-endian value of the address.
\<close>

unbundle bit_operations_syntax

section \<open>Address arithmetic\<close>

definition NextIPv4 :: "ip \<Rightarrow> 64 word \<Rightarrow> ip option" where
  "NextIPv4 a inc =
     (case To4 a of
        Some [i0, i1, i2, i3] \<Rightarrow>
          let v = push_bit 24 (ucast i0) + push_bit 16 (ucast i1) + push_bit 8 (ucast i2) + ucast i3
                  + inc;
              v3 = ucast (v AND 0xFF);
              v2 = ucast (drop_bit 8 v AND 0xFF);
              v1 = ucast (drop_bit 16 v AND 0xFF);
              v0 = ucast (drop_bit 24 v AND 0xFF)
          in Some (IPv4 v0 v1 v2 v3)
      | _ \<Rightarrow> None)"

definition NextIPv6 :: "ip \<Rightarrow> 64 word \<Rightarrow> ip option" where
  "NextIPv6 a inc =
     (let i = ip_bytes (To16 a);
          ipInt = int (be_val i) + sint inc;
          n = nat \<bar>ipInt\<bar>
      in if n < 256 ^ 16 then Some (Some (be_bytes 16 n)) else None)"

lemma be_bytes_mod: "be_bytes n (v mod 256 ^ n) = be_bytes n v"
  by (rule be_val_inj) (simp_all add: be_val_be_bytes)

lemma be_bytes_cong: "v mod 256 ^ n = w mod 256 ^ n \<Longrightarrow> be_bytes n v = be_bytes n w"
  by (metis be_bytes_mod)

lemma low_byte: "(ucast (drop_bit k (w :: 64 word) AND 0xFF) :: byte) = of_nat (unat w div 2 ^ k mod 256)"
proof -
  have "(0xFF :: 64 word) = mask 8" by (simp add: mask_eq_exp_minus_1)
  then have "drop_bit k w AND 0xFF = take_bit 8 (drop_bit k w)"
    by (simp add: take_bit_eq_mask)
  moreover have "unat w < 2 ^ LENGTH(64)" by (rule unsigned_less)
  ultimately have "unat (drop_bit k w AND 0xFF) = unat w div 2 ^ k mod 256"
    by (simp add: unsigned_take_bit_eq unsigned_drop_bit_eq)
       (simp add: take_bit_eq_mod drop_bit_eq_div)
  moreover have "(ucast (drop_bit k w AND 0xFF) :: byte) = of_nat (unat (drop_bit k w AND 0xFF))"
    by (rule of_nat_unat [symmetric])
  ultimately show ?thesis by simp
qed

lemma be_val4: "be_val [a, b, c, d] =
    unat a * 2 ^ 24 + unat b * 2 ^ 16 + unat c * 2 ^ 8 + unat d"
  by (simp add: be_val_def)

lemma be_bytes2: "be_bytes 2 v = [of_nat (v div 256 mod 256), of_nat (v mod 256)]"
  by (simp add: numeral_2_eq_2)

lemma be_bytes4: "be_bytes 4 v =
    [of_nat (v div 2 ^ 24 mod 256), of_nat (v div 2 ^ 16 mod 256),
     of_nat (v div 2 ^ 8 mod 256), of_nat (v mod 256)]"
proof -
  have "(4::nat) = Suc (Suc (Suc (Suc 0)))" by simp
  then show ?thesis
    by (simp only: be_bytes.simps) (simp add: div_mult2_eq [symmetric])
qed

lemma word_of_be_val4:
  "(push_bit 24 (ucast a) + push_bit 16 (ucast b) + push_bit 8 (ucast c) + ucast d :: 64 word) =
   of_nat (be_val [a, b, c, d])"
  by (simp add: be_val4 push_bit_eq_mult)

lemma NextIPv4_Some:
  assumes "To4 a = Some q"
  shows "NextIPv4 a inc = Some (Some (v4InV6Prefix @ be_bytes 4 (be_val q + unat inc)))"
proof -
  obtain i0 i1 i2 i3 where q: "q = [i0, i1, i2, i3]"
    using To4_Some_length [OF assms] list_length4 by blast
  define v :: "64 word" where "v = of_nat (be_val q) + inc"
  have "unat v = (be_val q + unat inc) mod 2 ^ 64"
    by (simp add: v_def unat_word_ariths unat_of_nat take_bit_eq_mod mod_add_left_eq)
  then have "unat v mod 256 ^ 4 = (be_val q + unat inc) mod 256 ^ 4"
    by (simp add: mod_mod_cancel)
  then have bytes: "be_bytes 4 (unat v) = be_bytes 4 (be_val q + unat inc)"
    by (rule be_bytes_cong)
  have "NextIPv4 a inc = Some (IPv4 (ucast (drop_bit 24 v AND 0xFF)) (ucast (drop_bit 16 v AND 0xFF))
      (ucast (drop_bit 8 v AND 0xFF)) (ucast (drop_bit 0 v AND 0xFF)))"
    using assms q by (simp add: NextIPv4_def Let_def word_of_be_val4 v_def)
  then show ?thesis
    unfolding low_byte IPv4_def bytes [symmetric] by (simp add: be_bytes4)
qed

lemma NextIPv4_None: "To4 a = None \<Longrightarrow> NextIPv4 a inc = None"
  by (simp add: NextIPv4_def)

lemma sint_small: "sint (1 :: 64 word) = 1"
  by simp

lemma NextIPv6_1:
  assumes "To16 a = Some q"
  shows "NextIPv6 a 1 = (if be_val q + 1 < 256 ^ 16 then Some (Some (be_bytes 16 (be_val q + 1))) else None)"
proof -
  have "nat \<bar>int (be_val q) + 1\<bar> = be_val q + 1" by simp
  with assms show ?thesis by (simp add: NextIPv6_def ip_bytes_def Let_def)
qed

section \<open>The default route and the local address\<close>

text \<open>
  Netlink answers the two queries: \<open>routes\<close> is the list of default routes, each the index of
  its link, and \<open>linkByIndex\<close> gives the name of a link.
\<close>

definition defaultRoute ::
  "(error + int list) \<Rightarrow> (int \<Rightarrow> error + string) \<Rightarrow> string \<Rightarrow> error + string" where
  "defaultRoute routes linkByIndex DefaultInterface =
     (case routes of
        Inl e \<Rightarrow> Inl (''error retrieving default route '' @ e)
      | Inr rs \<Rightarrow>
          if length rs = 0 then Inl ''no default route found''
          else if length rs > 1 then
            (if DefaultInterface = '''' then
               Inl (''found more than one default net routes ('' @ itoa (length rs) @
                    ''). Specify the required default interface in the config file'')
             else case List.find (\<lambda>r. linkByIndex r = Inr DefaultInterface) rs of
                    Some r \<Rightarrow> linkByIndex r
                  | None \<Rightarrow> Inl (''getting default interface with name '' @ DefaultInterface))
          else case linkByIndex (hd rs) of
                 Inl e \<Rightarrow> Inl (''getting default netlink with index '' @ Itoa (hd rs) @ '': '' @ e)
               | Inr name \<Rightarrow>
                   if DefaultInterface \<noteq> '''' \<and> name \<noteq> DefaultInterface then
                     Inl (''default interface manually configured to '' @ DefaultInterface @
                          '', but only '' @ name @ '' found'')
                   else Inr name)"

definition IsLoopback :: "ip \<Rightarrow> bool" where
  "IsLoopback p =
     (case To4 p of
        Some q \<Rightarrow> hd q = 127
      | None \<Rightarrow> IP_Equal p (Some (replicate 15 0 @ [1])))"

text \<open>
  \<open>GetLocalIPandIface\<close>: the interfaces of the host with the IP networks on them (\<open>Inl\<close> is an
  error of \<open>Addrs\<close>, which the code turns into a panic), and the default route.
\<close>

fun local_address :: "string \<Rightarrow> ip list \<Rightarrow> ip option" where
  "local_address name [] = None"
| "local_address name (a # as) =
     (if \<not> IsLoopback a \<and> To4 a \<noteq> None then Some a else local_address name as)"

fun local_scan :: "string \<Rightarrow> (string \<times> (error + ip list)) list \<Rightarrow> (string \<times> string) option" where
  "local_scan ifce [] = Some ('''', '''')"
| "local_scan ifce ((name, addrs) # rest) =
     (case addrs of
        Inl e \<Rightarrow> None
      | Inr as \<Rightarrow>
          (case (if name = ifce then local_address name as else None) of
             Some a \<Rightarrow> Some (IP_String a, name)
           | None \<Rightarrow> local_scan ifce rest))"

definition GetLocalIPandIface ::
  "(error + (string \<times> (error + ip list)) list) \<Rightarrow> (error + string) \<Rightarrow> (string \<times> string) option" where
  "GetLocalIPandIface interfaces route =
     (case interfaces of
        Inl e \<Rightarrow> None
      | Inr is \<Rightarrow> (case route of Inl e \<Rightarrow> None | Inr ifce \<Rightarrow> local_scan ifce is))"

lemma defaultRoute_sound:
  assumes "defaultRoute routes linkByIndex cfg = Inr name"
  shows "\<exists>rs r. routes = Inr rs \<and> r \<in> set rs \<and> linkByIndex r = Inr name \<and> (cfg \<noteq> '''' \<longrightarrow> name = cfg)"
proof (cases routes)
  case (Inl e)
  with assms show ?thesis by (simp add: defaultRoute_def)
next
  case (Inr rs)
  show ?thesis
  proof (cases "length rs > 1")
    case True
    with assms Inr obtain r where "List.find (\<lambda>r. linkByIndex r = Inr cfg) rs = Some r"
      "linkByIndex r = Inr name"
      by (auto simp: defaultRoute_def split: if_splits option.splits)
    then show ?thesis using Inr by (auto simp: find_Some_iff intro!: exI [of _ r])
  next
    case False
    with assms Inr show ?thesis
      by (cases rs) (auto simp: defaultRoute_def split: if_splits sum.splits)
  qed
qed

section \<open>The outbound address\<close>

text \<open>
  \<open>dial\<close> is the local address of a UDP socket to a public server, \<open>fetched\<close> the body that an address
  service answers, with the error of the request or of reading it. \<open>None\<close> is \<open>log.Fatal\<close>, or the panic
  after a request that failed (its response is nil) or on an empty body.
\<close>

definition GetOutboundIP :: "error + ip \<Rightarrow> bool \<Rightarrow> error + (error + string) \<Rightarrow> ip option" where
  "GetOutboundIP dial publicIPNetworking fetched =
     (case dial of
        Inl err \<Rightarrow> None
      | Inr addr \<Rightarrow>
          (if publicIPNetworking then
             (case fetched of
                Inl err \<Rightarrow> None
              | Inr (Inr body) \<Rightarrow> (if body = '''' then None else Some (ParseIP (butlast body)))
              | Inr (Inl err) \<Rightarrow> Some addr)
           else Some addr))"

end
