(* ===== verification/Packets.thy ===== *)
theory Packets
  imports GoNet
begin

text \<open>
  \<open>proxy/iputils\<close> and \<open>decodePacket\<close> of \<open>proxy/ProxyTunnel.go\<close>: the wrappers around the gopacket
  layers. The gopacket library, its layer decoders, the IPv4 defragmenter and the serialisation of
  layers are not part of the repository; they are the fields of the record \<open>gopacket\<close>, an argument
  of every definition that calls them. A \<open>gopacket.Packet\<close> is the pair of the layer type and the
  bytes it was made from.
\<close>

unbundle bit_operations_syntax

section \<open>Layers\<close>

text \<open>\<open>layers.IPv4\<close> and \<open>layers.IPv6\<close>: \<open>hdr_Protocol\<close> is \<open>Protocol\<close> or \<open>NextHeader\<close>.\<close>

record ip_layer =
  hdr_Version :: byte
  hdr_SrcIP :: ip
  hdr_DstIP :: ip
  hdr_Protocol :: byte
  hdr_Payload :: "byte list"
  hdr_Other :: "byte list"

text \<open>\<open>layers.UDP\<close> and \<open>layers.TCP\<close>.\<close>

record l4_layer =
  l4_SrcPort :: "16 word"
  l4_DstPort :: "16 word"
  l4_Payload :: "byte list"
  l4_Other :: "byte list"

datatype TransportLayerProtocol = UDPLayer l4_layer | TCPLayer l4_layer

datatype NetworkLayerPacket = IPv4Packet ip_layer | IPv6Packet ip_layer "byte list option"

datatype LayerType = LayerTypeIPv4 | LayerTypeIPv6

type_synonym Packet = "LayerType \<times> byte list"

definition IPProtocolIPv4 :: byte where "IPProtocolIPv4 = 4"

definition IPProtocolTCP :: byte where "IPProtocolTCP = 6"

definition IPProtocolUDP :: byte where "IPProtocolUDP = 17"

definition IPProtocolIPv6 :: byte where "IPProtocolIPv6 = 41"

definition IPProtocolIPv6Fragment :: byte where "IPProtocolIPv6Fragment = 44"

lemmas ip_protocols = IPProtocolIPv4_def IPProtocolTCP_def IPProtocolUDP_def IPProtocolIPv6_def
  IPProtocolIPv6Fragment_def

text \<open>The library. \<open>'d\<close> is the state of the IPv4 defragmenter.\<close>

record 'd gopacket =
  gp_NetworkLayer :: "Packet \<Rightarrow> ip_layer option"
  gp_IPv6Fragment :: "Packet \<Rightarrow> byte list option"
  gp_DecodeUDP :: "byte list \<Rightarrow> l4_layer"
  gp_DecodeTCP :: "byte list \<Rightarrow> l4_layer"
  gp_DefragIPv4 :: "ip_layer \<Rightarrow> 'd \<Rightarrow> (error + ip_layer option) \<times> 'd"
  gp_SerializeLayers :: "LayerType \<Rightarrow> ip_layer \<Rightarrow> TransportLayerProtocol \<Rightarrow> byte list \<Rightarrow> error + byte list"
  gp_SerializePacket :: "Packet \<Rightarrow> byte list"

section \<open>The transport layer\<close>

fun GetSourcePort :: "TransportLayerProtocol \<Rightarrow> 16 word" where
  "GetSourcePort (UDPLayer l) = l4_SrcPort l"
| "GetSourcePort (TCPLayer l) = l4_SrcPort l"

fun GetDestPort :: "TransportLayerProtocol \<Rightarrow> 16 word" where
  "GetDestPort (UDPLayer l) = l4_DstPort l"
| "GetDestPort (TCPLayer l) = l4_DstPort l"

fun GetProtocol :: "TransportLayerProtocol \<Rightarrow> string" where
  "GetProtocol (TCPLayer l) = ''TCP''"
| "GetProtocol (UDPLayer l) = ''UDP''"

fun GetUDPLayer :: "TransportLayerProtocol \<Rightarrow> l4_layer option" where
  "GetUDPLayer (UDPLayer l) = Some l"
| "GetUDPLayer (TCPLayer l) = None"

fun GetTCPLayer :: "TransportLayerProtocol \<Rightarrow> l4_layer option" where
  "GetTCPLayer (UDPLayer l) = None"
| "GetTCPLayer (TCPLayer l) = Some l"

section \<open>The network layer\<close>

fun GetLayer :: "NetworkLayerPacket \<Rightarrow> ip_layer" where
  "GetLayer (IPv4Packet h) = h"
| "GetLayer (IPv6Packet h f) = h"

definition GetProtocolVersion :: "NetworkLayerPacket \<Rightarrow> byte" where
  "GetProtocolVersion p = hdr_Version (GetLayer p)"

definition GetNextHeader :: "NetworkLayerPacket \<Rightarrow> byte" where
  "GetNextHeader p = hdr_Protocol (GetLayer p)"

definition GetSrcIP :: "NetworkLayerPacket \<Rightarrow> ip" where
  "GetSrcIP p = hdr_SrcIP (GetLayer p)"

definition GetDestIP :: "NetworkLayerPacket \<Rightarrow> ip" where
  "GetDestIP p = hdr_DstIP (GetLayer p)"

definition newIPv4Packet :: "ip_layer \<Rightarrow> NetworkLayerPacket" where
  "newIPv4Packet nl = IPv4Packet nl"

definition newIPv6Packet :: "ip_layer \<Rightarrow> NetworkLayerPacket" where
  "newIPv6Packet nl = IPv6Packet nl (Some [])"

definition NewNetworkLayerPacket :: "byte \<Rightarrow> ip_layer \<Rightarrow> NetworkLayerPacket option" where
  "NewNetworkLayerPacket ipt nl =
     (if ipt = IPProtocolIPv4 then Some (newIPv4Packet nl)
      else if ipt = IPProtocolIPv6 then Some (newIPv6Packet nl)
      else None)"

definition NewGoPacket :: "byte list \<Rightarrow> byte \<Rightarrow> Packet option" where
  "NewGoPacket bytes ipt =
     (if ipt = IPProtocolIPv4 then Some (LayerTypeIPv4, bytes)
      else if ipt = IPProtocolIPv6 then Some (LayerTypeIPv6, bytes)
      else None)"

text \<open>
  The methods of the two packet types are \<open>v4_\<close> and \<open>v6_\<close>; the interface methods select one of them.
  The type assertion of the IPv6 method panics when the packet has no IPv6 layer.
\<close>

definition v4_DecodeNetworkLayer :: "('d, 'z) gopacket_scheme \<Rightarrow> Packet \<Rightarrow> ip_layer \<Rightarrow> ip_layer" where
  "v4_DecodeNetworkLayer lib gop h = (case gp_NetworkLayer lib gop of None \<Rightarrow> h | Some ipv4Fields \<Rightarrow> ipv4Fields)"

definition v6_DecodeNetworkLayer :: "('d, 'z) gopacket_scheme \<Rightarrow> Packet \<Rightarrow> ip_layer \<times> byte list option \<Rightarrow>
    (ip_layer \<times> byte list option) option" where
  "v6_DecodeNetworkLayer lib gop packet =
     (case gp_NetworkLayer lib gop of
        None \<Rightarrow> None
      | Some ipv6Fields \<Rightarrow>
          if hdr_Protocol ipv6Fields \<noteq> IPProtocolIPv6Fragment then Some packet
          else Some (fst packet, gp_IPv6Fragment lib gop))"

fun DecodeNetworkLayer :: "('d, 'z) gopacket_scheme \<Rightarrow> Packet \<Rightarrow> NetworkLayerPacket \<Rightarrow>
    NetworkLayerPacket option" where
  "DecodeNetworkLayer lib gop (IPv4Packet h) = Some (IPv4Packet (v4_DecodeNetworkLayer lib gop h))"
| "DecodeNetworkLayer lib gop (IPv6Packet h f) =
     map_option (\<lambda>(h, f). IPv6Packet h f) (v6_DecodeNetworkLayer lib gop (h, f))"

text \<open>
  \<open>Defragment\<close> of the IPv4 packet binds the reassembled packet to its receiver variable only, so
  the caller's packet is the one it was; the IPv6 method does nothing.
\<close>

definition v4_Defragment :: "('d, 'z) gopacket_scheme \<Rightarrow> ip_layer \<Rightarrow> 'd \<Rightarrow> error option \<times> ip_layer \<times> 'd" where
  "v4_Defragment lib h d =
     (case gp_DefragIPv4 lib h d of
        (Inl e, d') \<Rightarrow> (Some e, h, d')
      | (Inr None, d') \<Rightarrow> (None, h, d')
      | (Inr (Some h'), d') \<Rightarrow> (None, h, d'))"

definition v6_Defragment :: "ip_layer \<times> byte list option \<Rightarrow> error option" where
  "v6_Defragment packet = None"

fun Defragment :: "('d, 'z) gopacket_scheme \<Rightarrow> NetworkLayerPacket \<Rightarrow> 'd \<Rightarrow>
    error option \<times> NetworkLayerPacket \<times> 'd" where
  "Defragment lib (IPv4Packet h) d = (case v4_Defragment lib h d of (e, h, d') \<Rightarrow> (e, IPv4Packet h, d'))"
| "Defragment lib (IPv6Packet h f) d = (v6_Defragment (h, f), IPv6Packet h f, d)"

definition v4_GetTransportLayer :: "('d, 'z) gopacket_scheme \<Rightarrow> ip_layer \<Rightarrow> TransportLayerProtocol option" where
  "v4_GetTransportLayer lib h =
     (if hdr_Protocol h = IPProtocolUDP then Some (UDPLayer (gp_DecodeUDP lib (hdr_Payload h)))
      else if hdr_Protocol h = IPProtocolTCP then Some (TCPLayer (gp_DecodeTCP lib (hdr_Payload h)))
      else None)"

definition v6_GetTransportLayer :: "('d, 'z) gopacket_scheme \<Rightarrow> ip_layer \<Rightarrow> TransportLayerProtocol option" where
  "v6_GetTransportLayer lib h =
     (if hdr_Protocol h = IPProtocolUDP then Some (UDPLayer (gp_DecodeUDP lib (hdr_Payload h)))
      else if hdr_Protocol h = IPProtocolTCP then Some (TCPLayer (gp_DecodeTCP lib (hdr_Payload h)))
      else None)"

fun GetTransportLayer :: "('d, 'z) gopacket_scheme \<Rightarrow> NetworkLayerPacket \<Rightarrow> TransportLayerProtocol option" where
  "GetTransportLayer lib (IPv4Packet h) = v4_GetTransportLayer lib h"
| "GetTransportLayer lib (IPv6Packet h f) = v6_GetTransportLayer lib h"

lemma GetTransportLayer_eq:
  "GetTransportLayer lib p =
     (let h = GetLayer p in
      if hdr_Protocol h = IPProtocolUDP then Some (UDPLayer (gp_DecodeUDP lib (hdr_Payload h)))
      else if hdr_Protocol h = IPProtocolTCP then Some (TCPLayer (gp_DecodeTCP lib (hdr_Payload h)))
      else None)"
  by (cases p) (simp_all add: v4_GetTransportLayer_def v6_GetTransportLayer_def)

subsection \<open>Serialisation\<close>

fun set_addresses :: "ip \<Rightarrow> ip \<Rightarrow> NetworkLayerPacket \<Rightarrow> NetworkLayerPacket" where
  "set_addresses dst src (IPv4Packet h) = IPv4Packet (h\<lparr>hdr_DstIP := dst, hdr_SrcIP := src\<rparr>)"
| "set_addresses dst src (IPv6Packet h f) = IPv6Packet (h\<lparr>hdr_DstIP := dst, hdr_SrcIP := src\<rparr>) f"

fun layer_type :: "NetworkLayerPacket \<Rightarrow> LayerType" where
  "layer_type (IPv4Packet h) = LayerTypeIPv4"
| "layer_type (IPv6Packet h f) = LayerTypeIPv6"

definition v4_serializeIPHeader :: "('d, 'z) gopacket_scheme \<Rightarrow> ip_layer \<Rightarrow>
    TransportLayerProtocol \<Rightarrow> byte list \<Rightarrow> Packet option" where
  "v4_serializeIPHeader lib ip transportLayer payload =
     (case gp_SerializeLayers lib LayerTypeIPv4 ip transportLayer payload of
        Inl err \<Rightarrow> None
      | Inr bytes \<Rightarrow> Some (LayerTypeIPv4, bytes))"

definition v6_serializeIPHeader :: "('d, 'z) gopacket_scheme \<Rightarrow> ip_layer \<Rightarrow>
    TransportLayerProtocol \<Rightarrow> byte list \<Rightarrow> Packet option" where
  "v6_serializeIPHeader lib ip transportLayer payload =
     (case gp_SerializeLayers lib LayerTypeIPv6 ip transportLayer payload of
        Inl err \<Rightarrow> None
      | Inr bytes \<Rightarrow> Some (LayerTypeIPv6, bytes))"

definition v4_serializeTCPHeader :: "('d, 'z) gopacket_scheme \<Rightarrow> ip_layer \<Rightarrow> l4_layer \<Rightarrow> Packet option" where
  "v4_serializeTCPHeader lib ip tcp = v4_serializeIPHeader lib ip (TCPLayer tcp) (l4_Payload tcp)"

definition v4_serializeUDPHeader :: "('d, 'z) gopacket_scheme \<Rightarrow> ip_layer \<Rightarrow> l4_layer \<Rightarrow> Packet option" where
  "v4_serializeUDPHeader lib ip udp = v4_serializeIPHeader lib ip (UDPLayer udp) (l4_Payload udp)"

definition v6_serializeTCPHeader :: "('d, 'z) gopacket_scheme \<Rightarrow> ip_layer \<Rightarrow> l4_layer \<Rightarrow> Packet option" where
  "v6_serializeTCPHeader lib ip tcp = v6_serializeIPHeader lib ip (TCPLayer tcp) (l4_Payload tcp)"

definition v6_serializeUDPHeader :: "('d, 'z) gopacket_scheme \<Rightarrow> ip_layer \<Rightarrow> l4_layer \<Rightarrow> Packet option" where
  "v6_serializeUDPHeader lib ip udp = v6_serializeIPHeader lib ip (UDPLayer udp) (l4_Payload udp)"

text \<open>
  \<open>SerializePacket\<close> rewrites the addresses of its receiver, which the caller sees. A nil transport
  layer is a nil dereference.
\<close>

definition v4_SerializePacket :: "('d, 'z) gopacket_scheme \<Rightarrow> ip_layer \<Rightarrow> ip \<Rightarrow> ip \<Rightarrow>
    TransportLayerProtocol option \<Rightarrow> (Packet option \<times> ip_layer) option" where
  "v4_SerializePacket lib ip dstIp srcIp prot =
     do {
       let ip = ip\<lparr>hdr_DstIP := dstIp, hdr_SrcIP := srcIp\<rparr>;
       t \<leftarrow> prot;
       (if GetProtocol t = ''TCP'' then do { l \<leftarrow> GetTCPLayer t; Some (v4_serializeTCPHeader lib ip l, ip) }
        else do { l \<leftarrow> GetUDPLayer t; Some (v4_serializeUDPHeader lib ip l, ip) })
     }"

definition v6_SerializePacket :: "('d, 'z) gopacket_scheme \<Rightarrow> ip_layer \<Rightarrow> ip \<Rightarrow> ip \<Rightarrow>
    TransportLayerProtocol option \<Rightarrow> (Packet option \<times> ip_layer) option" where
  "v6_SerializePacket lib ip dstIp srcIp prot =
     do {
       let ip = ip\<lparr>hdr_DstIP := dstIp, hdr_SrcIP := srcIp\<rparr>;
       t \<leftarrow> prot;
       (if GetProtocol t = ''TCP'' then do { l \<leftarrow> GetTCPLayer t; Some (v6_serializeTCPHeader lib ip l, ip) }
        else do { l \<leftarrow> GetUDPLayer t; Some (v6_serializeUDPHeader lib ip l, ip) })
     }"

fun SerializePacket :: "('d, 'z) gopacket_scheme \<Rightarrow> NetworkLayerPacket \<Rightarrow> ip \<Rightarrow> ip \<Rightarrow>
    TransportLayerProtocol option \<Rightarrow> (Packet option \<times> NetworkLayerPacket) option" where
  "SerializePacket lib (IPv4Packet h) dstIp srcIp prot =
     map_option (map_prod id IPv4Packet) (v4_SerializePacket lib h dstIp srcIp prot)"
| "SerializePacket lib (IPv6Packet h f) dstIp srcIp prot =
     map_option (map_prod id (\<lambda>h. IPv6Packet h f)) (v6_SerializePacket lib h dstIp srcIp prot)"

text \<open>What both methods send: the header, the transport layer and its payload, nothing else.\<close>

definition serializeIPHeader :: "('d, 'z) gopacket_scheme \<Rightarrow> NetworkLayerPacket \<Rightarrow>
    TransportLayerProtocol \<Rightarrow> byte list \<Rightarrow> Packet option" where
  "serializeIPHeader lib p transport payload =
     (case gp_SerializeLayers lib (layer_type p) (GetLayer p) transport payload of
        Inl e \<Rightarrow> None
      | Inr bytes \<Rightarrow> Some (layer_type p, bytes))"

definition packetToByte :: "('d, 'z) gopacket_scheme \<Rightarrow> Packet \<Rightarrow> byte list" where
  "packetToByte lib packet = gp_SerializePacket lib packet"

section \<open>Decoding a message\<close>

text \<open>The inner \<open>None\<close> is the pair \<open>nil, nil\<close>.\<close>

definition decodePacket :: "('d, 'z) gopacket_scheme \<Rightarrow> byte list \<Rightarrow> 'd \<Rightarrow>
    ((NetworkLayerPacket \<times> TransportLayerProtocol option) option \<times> 'd) option" where
  "decodePacket lib msg d =
     (case msg of
        [] \<Rightarrow> None
      | b # _ \<Rightarrow>
          (let kind = b AND 0xf0;
               ipType = (if kind = 0x40 then Some IPProtocolIPv4
                         else if kind = 0x60 then Some IPProtocolIPv6 else None)
           in case ipType of
                None \<Rightarrow> Some (None, d)
              | Some t \<Rightarrow>
                  do {
                    packet \<leftarrow> NewGoPacket msg t;
                    (case gp_NetworkLayer lib packet of
                       None \<Rightarrow> Some (None, d)
                     | Some ipLayer \<Rightarrow>
                         do {
                           res \<leftarrow> NewNetworkLayerPacket t ipLayer;
                           res \<leftarrow> (if t = IPProtocolIPv6 then DecodeNetworkLayer lib packet res else Some res);
                           (case Defragment lib res d of
                              (Some e, res', d') \<Rightarrow> Some (None, d')
                            | (None, res', d') \<Rightarrow> Some (Some (res', GetTransportLayer lib res'), d'))
                         })
                  }))"

lemma GetLayer_set_addresses [simp]:
  "GetLayer (set_addresses dst src p) = (GetLayer p)\<lparr>hdr_DstIP := dst, hdr_SrcIP := src\<rparr>"
  by (cases p) simp_all

lemma layer_type_set_addresses [simp]: "layer_type (set_addresses dst src p) = layer_type p"
  by (cases p) simp_all

lemma GetDestIP_set_addresses [simp]: "GetDestIP (set_addresses dst src p) = dst"
  by (simp add: GetDestIP_def)

lemma GetSrcIP_set_addresses [simp]: "GetSrcIP (set_addresses dst src p) = src"
  by (simp add: GetSrcIP_def)

lemma v4_Defragment_keeps: "v4_Defragment lib h d = (e, h', d') \<Longrightarrow> h' = h"
  by (auto simp: v4_Defragment_def split: prod.splits sum.splits option.splits)

lemma Defragment_packet: "fst (snd (Defragment lib p d)) = p"
  by (cases p) (auto dest: v4_Defragment_keeps split: prod.splits)

text \<open>Serialisation keeps the transport layer and its payload.\<close>

definition transport_payload :: "TransportLayerProtocol \<Rightarrow> byte list" where
  "transport_payload t = (case t of UDPLayer l \<Rightarrow> l4_Payload l | TCPLayer l \<Rightarrow> l4_Payload l)"

lemma SerializePacket_Some:
  "SerializePacket lib p dst src (Some t) =
    Some (serializeIPHeader lib (set_addresses dst src p) t (transport_payload t), set_addresses dst src p)"
  by (cases p; cases t)
    (simp_all add: v4_SerializePacket_def v6_SerializePacket_def v4_serializeTCPHeader_def v4_serializeUDPHeader_def
      v6_serializeTCPHeader_def v6_serializeUDPHeader_def v4_serializeIPHeader_def v6_serializeIPHeader_def
      serializeIPHeader_def transport_payload_def Let_def split: sum.splits)

lemma SerializePacket_None: "SerializePacket lib p dst src None = None"
  by (cases p) (simp_all add: v4_SerializePacket_def v6_SerializePacket_def Let_def)

declare SerializePacket.simps [simp del] GetTransportLayer.simps [simp del]

text \<open>
  Decoding panics exactly on the empty message, for any behaviour of the packet library; in particular a
  UDP datagram without payload, which the socket reader hands over as an empty message, takes the daemon
  down.
\<close>

lemma decode_panics_iff_empty: "decodePacket lib msg d = None \<longleftrightarrow> msg = []"
  by (cases msg)
     (auto simp: decodePacket_def Let_def NewGoPacket_def NewNetworkLayerPacket_def ip_protocols
       newIPv4Packet_def newIPv6Packet_def v6_DecodeNetworkLayer_def v6_Defragment_def
       split: option.splits prod.splits)

lemma decode_total: "msg \<noteq> [] \<Longrightarrow> \<exists>r d'. decodePacket lib msg d = Some (r, d')"
  using decode_panics_iff_empty [of lib msg d] by (cases "decodePacket lib msg d") auto

section \<open>Properties\<close>

text \<open>
  C31: What decoding hands to the proxy: the upper nibble of the first byte selects the layer, the
  header is the one the library decoded from this very message (a fragment is neither held back nor
  replaced by the reassembled packet), and there is a transport layer exactly for UDP and TCP.
\<close>

theorem decode_packet_result:
  assumes "decodePacket lib msg d = Some (Some (p, prot), d')"
  shows "\<exists>b rest. msg = b # rest \<and>
    (b AND 0xf0 = 0x40 \<and> layer_type p = LayerTypeIPv4 \<or> b AND 0xf0 = 0x60 \<and> layer_type p = LayerTypeIPv6) \<and>
    gp_NetworkLayer lib (layer_type p, msg) = Some (GetLayer p) \<and>
    prot = (if GetNextHeader p = 17 then Some (UDPLayer (gp_DecodeUDP lib (hdr_Payload (GetLayer p))))
            else if GetNextHeader p = 6 then Some (TCPLayer (gp_DecodeTCP lib (hdr_Payload (GetLayer p))))
            else None)"
proof (cases msg)
  case Nil
  with assms show ?thesis by (simp add: decodePacket_def)
next
  case (Cons b rest)
  consider (v4) "b AND 0xf0 = 0x40" | (v6) "b AND 0xf0 = 0x60"
    using assms Cons by (auto simp: decodePacket_def Let_def split: if_splits)
  then show ?thesis
  proof cases
    case v4
    then obtain h where "gp_NetworkLayer lib (LayerTypeIPv4, msg) = Some h" "p = IPv4Packet h"
      "prot = GetTransportLayer lib p"
      using assms Cons
      by (auto simp: decodePacket_def Let_def NewGoPacket_def NewNetworkLayerPacket_def ip_protocols
        newIPv4Packet_def dest: v4_Defragment_keeps split: option.splits prod.splits)
    with v4 Cons show ?thesis
      by (simp add: GetTransportLayer_eq GetNextHeader_def ip_protocols Let_def)
  next
    case v6
    then obtain h f where h: "gp_NetworkLayer lib (LayerTypeIPv6, msg) = Some h" "p = IPv6Packet h f"
      "prot = GetTransportLayer lib p"
      using assms Cons
      by (auto simp: decodePacket_def Let_def NewGoPacket_def NewNetworkLayerPacket_def ip_protocols
        newIPv6Packet_def v6_DecodeNetworkLayer_def v6_Defragment_def split: option.splits if_splits)
    with h v6 Cons show ?thesis
      by (simp add: GetTransportLayer_eq GetNextHeader_def ip_protocols Let_def)
  qed
qed

text \<open>A library for a packet of two bytes, the second the protocol number.\<close>

definition sample_lib :: "unit gopacket" where
  "sample_lib =
     \<lparr>gp_NetworkLayer = (\<lambda>p. case snd p of
          [v, proto] \<Rightarrow> Some \<lparr>hdr_Version = drop_bit 4 v, hdr_SrcIP = IPv4 10 19 1 15, hdr_DstIP = IPv4 10 30 255 255,
                            hdr_Protocol = proto, hdr_Payload = [], hdr_Other = []\<rparr>
        | _ \<Rightarrow> None),
      gp_IPv6Fragment = (\<lambda>_. None),
      gp_DecodeUDP = (\<lambda>_. \<lparr>l4_SrcPort = 777, l4_DstPort = 666, l4_Payload = [], l4_Other = []\<rparr>),
      gp_DecodeTCP = (\<lambda>_. \<lparr>l4_SrcPort = 777, l4_DstPort = 666, l4_Payload = [], l4_Other = []\<rparr>),
      gp_DefragIPv4 = (\<lambda>h d. (Inr (Some h), d)),
      gp_SerializeLayers = (\<lambda>ty h t payload. Inr ([0x45, hdr_Protocol h])),
      gp_SerializePacket = (\<lambda>p. snd p)\<rparr>"

definition sample_header :: ip_layer where
  "sample_header = \<lparr>hdr_Version = 4, hdr_SrcIP = IPv4 10 19 1 15, hdr_DstIP = IPv4 10 30 255 255,
     hdr_Protocol = 6, hdr_Payload = [], hdr_Other = []\<rparr>"

definition sample_tcp :: TransportLayerProtocol where
  "sample_tcp = TCPLayer \<lparr>l4_SrcPort = 777, l4_DstPort = 666, l4_Payload = [], l4_Other = []\<rparr>"

lemma sample_decode: "decodePacket sample_lib [0x45, 6] () = Some (Some (IPv4Packet sample_header, Some sample_tcp), ())"
  by (simp add: decodePacket_def NewGoPacket_def NewNetworkLayerPacket_def newIPv4Packet_def ip_protocols
    sample_lib_def sample_header_def sample_tcp_def GetTransportLayer_eq v4_Defragment_def)

theorem decode_packet_result_witness:
  "gp_NetworkLayer sample_lib (LayerTypeIPv4, [0x45, 6]) = Some sample_header"
  using decode_packet_result [OF sample_decode] by simp

end
