(* ===== verification/Kernel.thy ===== *)
theory Kernel
  imports GoNet
begin

text \<open>
  The operating system as the daemon sees it. Every request to iptables, netlink, the network
  namespaces, the file system and to executed commands is a value of \<open>os_call\<close>; how the system
  answers is an argument of the definitions that make requests, a function from the request and a
  state of the system to the error it returns, if any, and the next state. Nothing is assumed about
  it here; theorems that need the documented effect of a request state it as a hypothesis.

  The requests carry the names of links and namespaces where the Go code holds handles that it
  looked up by those names.
\<close>

datatype protocol = ProtocolIPv4 | ProtocolIPv6

datatype os_call =
    IptAppend protocol string string "string list"
  | IptAppendUnique protocol string string "string list"
  | IptDelete protocol string string "string list"
  | IptDeleteChain protocol string string
  | IptAddChain protocol string string
  | WriteFile string string
  | Exec "string list"
  | LinkByName string
  | LinkAdd string string int
  | LinkAddBridge string
  | LinkAddTap string
  | LinkSetMaster string string
  | LinkSetUp string
  | LinkDel string
  | LinkDelNil
  | LinkSetNsPid string int
  | LinkSetNs string string
  | ParseAddr string
  | AddrAdd string string
  | RouteAdd string string string
  | NsGet
  | NsGetFromPid int
  | NsGetFromName string
  | NsSetPid int
  | NsSetName string
  | NsRestore
  | NsClose
  | NsCloseName string
  | NsDeleteNamed string
  | TunNew string
  | UdpResolve string
  | UdpListen string
  | UdpSetReadBuffer nat
  | NetListen string string
  | FileRemove string

type_synonym 'w os = "os_call \<Rightarrow> 'w \<Rightarrow> error option \<times> 'w"

text \<open>A request whose error ends the process (\<open>log.Fatal\<close>), and one whose error is dropped.\<close>

definition must :: "'w os \<Rightarrow> os_call \<Rightarrow> 'w \<Rightarrow> 'w option" where
  "must os c w = (case os c w of (None, w') \<Rightarrow> Some w' | (Some e, w') \<Rightarrow> None)"

definition ignoring :: "'w os \<Rightarrow> os_call \<Rightarrow> 'w \<Rightarrow> 'w" where
  "ignoring os c w = snd (os c w)"

text \<open>Requests in sequence until the first error: the body of the closures run inside a namespace.\<close>

fun os_seq :: "'w os \<Rightarrow> os_call list \<Rightarrow> 'w \<Rightarrow> error option \<times> 'w" where
  "os_seq os [] w = (None, w)"
| "os_seq os (c # cs) w =
     (case os c w of (None, w') \<Rightarrow> os_seq os cs w' | (Some e, w') \<Rightarrow> (Some e, w'))"

lemma must_Some: "must os c w = Some w' \<longleftrightarrow> os c w = (None, w')"
  by (auto simp: must_def split: prod.splits option.splits)

text \<open>A system that grants every request and keeps the log of them.\<close>

definition log_os :: "os_call list os" where
  "log_os c w = (None, w @ [c])"

text \<open>A system that grants every request but those that satisfy the test.\<close>

definition failing_os :: "(os_call \<Rightarrow> bool) \<Rightarrow> os_call list os" where
  "failing_os bad c w = (if bad c then Some ''refused'' else None, w @ [c])"

end
