(* ===== verification/NatRules.thy ===== *)
theory NatRules
  imports Kernel
begin

text \<open>
  \<open>network/Nat.go\<close> and the wrapper \<open>network/iptables.go\<close>: the firewall rules of the node and the
  port mappings of the containers. Answers of iptables come from the \<open>os\<close> argument. The theorems
  about port mappings assume the documented effect of appending and deleting a rule, stated as
  \<open>iptables_documented\<close> over a view of the rules of the \<open>OAKESTRA\<close> chain.
\<close>

section \<open>The wrapper\<close>

definition iptable_Append :: "protocol \<Rightarrow> string \<Rightarrow> string \<Rightarrow> string list \<Rightarrow> os_call" where
  "iptable_Append p table chain params = IptAppend p table chain params"

definition iptable_AppendUnique :: "protocol \<Rightarrow> string \<Rightarrow> string \<Rightarrow> string list \<Rightarrow> os_call" where
  "iptable_AppendUnique p table chain params = IptAppendUnique p table chain params"

definition iptable_Delete :: "protocol \<Rightarrow> string \<Rightarrow> string \<Rightarrow> string list \<Rightarrow> os_call" where
  "iptable_Delete p table chain params = IptDelete p table chain params"

definition iptable_DeleteChain :: "protocol \<Rightarrow> string \<Rightarrow> string \<Rightarrow> os_call" where
  "iptable_DeleteChain p table chain = IptDeleteChain p table chain"

definition iptable_AddChain :: "protocol \<Rightarrow> string \<Rightarrow> string \<Rightarrow> os_call" where
  "iptable_AddChain p table chain = IptAddChain p table chain"

lemmas iptable_calls = iptable_Append_def iptable_AppendUnique_def iptable_Delete_def
  iptable_DeleteChain_def iptable_AddChain_def

section \<open>Node rules\<close>

definition chain :: string where "chain = ''OAKESTRA''"

definition IptableFlushAll :: "'w os \<Rightarrow> 'w \<Rightarrow> 'w" where
  "IptableFlushAll os w =
     (let w = ignoring os (iptable_DeleteChain ProtocolIPv4 ''nat'' chain) w;
          w = ignoring os (iptable_Delete ProtocolIPv4 ''nat'' ''PREROUTING'' [''-j'', chain]) w;
          w = ignoring os (iptable_Delete ProtocolIPv4 ''nat'' ''POSTROUTING'' [''-j'', chain]) w;
          w = ignoring os (iptable_DeleteChain ProtocolIPv6 ''nat'' chain) w;
          w = ignoring os (iptable_Delete ProtocolIPv6 ''nat'' ''PREROUTING'' [''-j'', chain]) w;
          w = ignoring os (iptable_Delete ProtocolIPv6 ''nat'' ''POSTROUTING'' [''-j'', chain]) w
      in w)"

definition DisableReversePathFiltering :: "'w os \<Rightarrow> string \<Rightarrow> 'w \<Rightarrow> 'w option" where
  "DisableReversePathFiltering os bridgeName w =
     do {
       w \<leftarrow> must os (WriteFile ''/proc/sys/net/ipv4/conf/all/rp_filter'' ''0'') w;
       w \<leftarrow> must os (Exec [''sysctl'', ''-w'', ''net.ipv4.ip_forward=1'']) w;
       w \<leftarrow> must os (Exec [''sysctl'', ''-w'', ''net.ipv6.conf.all.forwarding=1'']) w;
       must os (WriteFile (''/proc/sys/net/ipv4/conf/'' @ bridgeName @ ''/rp_filter'') ''0'') w
     }"

definition EnableForwarding :: "'w os \<Rightarrow> string \<Rightarrow> string \<Rightarrow> 'w \<Rightarrow> 'w option" where
  "EnableForwarding os bridgeName proxyName w =
     do {
       w \<leftarrow> must os (iptable_AppendUnique ProtocolIPv4 ''filter'' ''FORWARD''
              [''-i'', bridgeName, ''-o'', proxyName, ''-j'', ''ACCEPT'']) w;
       w \<leftarrow> must os (iptable_AppendUnique ProtocolIPv4 ''filter'' ''FORWARD''
              [''-o'', bridgeName, ''-i'', proxyName, ''-j'', ''ACCEPT'']) w;
       w \<leftarrow> must os (iptable_AppendUnique ProtocolIPv4 ''filter'' ''FORWARD''
              [''-o'', bridgeName, ''-j'', ''ACCEPT'']) w;
       w \<leftarrow> must os (iptable_AppendUnique ProtocolIPv4 ''filter'' ''FORWARD''
              [''-i'', bridgeName, ''-j'', ''ACCEPT'']) w;
       w \<leftarrow> must os (iptable_AppendUnique ProtocolIPv6 ''filter'' ''FORWARD''
              [''-i'', bridgeName, ''-o'', proxyName, ''-j'', ''ACCEPT'']) w;
       w \<leftarrow> must os (iptable_AppendUnique ProtocolIPv6 ''filter'' ''FORWARD''
              [''-o'', bridgeName, ''-i'', proxyName, ''-j'', ''ACCEPT'']) w;
       w \<leftarrow> must os (iptable_AppendUnique ProtocolIPv6 ''filter'' ''FORWARD''
              [''-o'', bridgeName, ''-j'', ''ACCEPT'']) w;
       w \<leftarrow> must os (iptable_AppendUnique ProtocolIPv6 ''filter'' ''FORWARD''
              [''-i'', bridgeName, ''-j'', ''ACCEPT'']) w;
       let w = ignoring os (iptable_DeleteChain ProtocolIPv4 ''nat'' chain) w;
       let w = ignoring os (iptable_AddChain ProtocolIPv4 ''nat'' chain) w;
       let w = ignoring os (iptable_DeleteChain ProtocolIPv6 ''nat'' chain) w;
       let w = ignoring os (iptable_AddChain ProtocolIPv6 ''nat'' chain) w;
       w \<leftarrow> must os (iptable_AppendUnique ProtocolIPv4 ''nat'' ''PREROUTING'' [''-j'', chain]) w;
       w \<leftarrow> must os (iptable_AppendUnique ProtocolIPv4 ''nat'' ''OUTPUT'' [''-j'', chain]) w;
       w \<leftarrow> must os (iptable_AppendUnique ProtocolIPv6 ''nat'' ''PREROUTING'' [''-j'', chain]) w;
       must os (iptable_AppendUnique ProtocolIPv6 ''nat'' ''OUTPUT'' [''-j'', chain]) w
     }"

text \<open>The two masquerading rules towards one interface.\<close>

definition masquerade :: "'w os \<Rightarrow> string \<Rightarrow> string \<Rightarrow> string \<Rightarrow> 'w \<Rightarrow> 'w option" where
  "masquerade os source source6 ifce w =
     do {
       w \<leftarrow> must os (iptable_AppendUnique ProtocolIPv4 ''nat'' ''POSTROUTING''
              [''-s'', source, ''-o'', ifce, ''-j'', ''MASQUERADE'']) w;
       must os (iptable_AppendUnique ProtocolIPv6 ''nat'' ''POSTROUTING''
              [''-s'', source6, ''-o'', ifce, ''-j'', ''MASQUERADE'']) w
     }"

fun masquerade_all :: "'w os \<Rightarrow> string \<Rightarrow> string \<Rightarrow> string \<Rightarrow> (string \<times> string) list \<Rightarrow> 'w \<Rightarrow> 'w option" where
  "masquerade_all os source source6 internetIfce [] w = Some w"
| "masquerade_all os source source6 internetIfce ((ifc, pattern) # rest) w =
     (if ifc \<noteq> internetIfce \<and> Contains ifc pattern then
        do { w \<leftarrow> masquerade os source source6 ifc w;
             masquerade_all os source source6 internetIfce rest w }
      else masquerade_all os source source6 internetIfce rest w)"

text \<open>\<open>localifces\<close> are the names of the interfaces of the host, empty when they cannot be listed.\<close>

definition EnableMasquerading ::
  "'w os \<Rightarrow> string list \<Rightarrow> string \<Rightarrow> string \<Rightarrow> string \<Rightarrow> string \<Rightarrow> string \<Rightarrow> string \<Rightarrow> 'w \<Rightarrow> 'w option" where
  "EnableMasquerading os localifces address netmask addressipv6 ipv6prefix bridgeName internetIfce w =
     do {
       w \<leftarrow> masquerade os (address @ netmask) (addressipv6 @ ipv6prefix) internetIfce w;
       masquerade_all os (address @ netmask) (addressipv6 @ ipv6prefix) internetIfce
         (List.product localifces [''en'', ''eth'', ''wl'']) w
     }"

section \<open>Port mappings\<close>

type_synonym PortOperation = string

definition OpenPorts :: PortOperation where "OpenPorts = ''-A''"

definition ClosePorts :: PortOperation where "ClosePorts = ''-D''"

definition isValidPort :: "string \<Rightarrow> bool" where
  "isValidPort port =
     (case Atoi port of
        None \<Rightarrow> False
      | Some portInt \<Rightarrow> if portInt < 0 \<or> portInt > 65535 then False else True)"

text \<open>Protocol, host port and container port of one element of a mapping.\<close>

definition parse_portmap :: "string \<Rightarrow> string \<times> string \<times> string" where
  "parse_portmap portmap =
     (let udp = Contains portmap ''/udp'';
          portType = (if udp then ''udp'' else ''tcp'');
          portmap = (if udp then replace_all ''/udp'' '''' portmap else replace_all ''/tcp'' '''' portmap);
          ports = split_on CHR '':'' portmap;
          hostPort = ports ! 0;
          containerPort = (if length ports > 1 then ports ! 1 else ports ! 0)
      in (portType, hostPort, containerPort))"

definition nat_destination :: "ip \<Rightarrow> string \<Rightarrow> string" where
  "nat_destination a containerPort =
     (if To4 a \<noteq> None then IP_String a @ '':'' @ containerPort
      else if To16 a \<noteq> None then ''['' @ IP_String a @ '']:'' @ containerPort
      else '''')"

definition nat_args :: "string \<Rightarrow> string \<Rightarrow> string \<Rightarrow> string list" where
  "nat_args portType hostPort destination =
     [''-p'', portType, ''--dport'', hostPort, ''-j'', ''DNAT'', ''--to-destination'', destination]"

text \<open>The call on the table of the address family; without a family or with another operation the
  error stays \<open>invalid Operation\<close>.\<close>

definition nat_operation :: "'w os \<Rightarrow> ip \<Rightarrow> PortOperation \<Rightarrow> string list \<Rightarrow> 'w \<Rightarrow> error option \<times> 'w" where
  "nat_operation os a operation args w =
     (if To4 a \<noteq> None then
        (if operation = OpenPorts then os (iptable_Append ProtocolIPv4 ''nat'' chain args) w
         else if operation = ClosePorts then os (iptable_Delete ProtocolIPv4 ''nat'' chain args) w
         else (Some ''invalid Operation'', w))
      else if To16 a \<noteq> None then
        (if operation = OpenPorts then os (iptable_Append ProtocolIPv6 ''nat'' chain args) w
         else if operation = ClosePorts then os (iptable_Delete ProtocolIPv6 ''nat'' chain args) w
         else (Some ''invalid Operation'', w))
      else (Some ''invalid Operation'', w))"

fun manage_mappings :: "'w os \<Rightarrow> ip \<Rightarrow> PortOperation \<Rightarrow> string list \<Rightarrow> 'w \<Rightarrow> error option \<times> 'w" where
  "manage_mappings os a operation [] w = (None, w)"
| "manage_mappings os a operation (portmap # mappings) w =
     (case parse_portmap portmap of (portType, hostPort, containerPort) \<Rightarrow>
      if \<not> isValidPort hostPort \<or> \<not> isValidPort containerPort
      then (Some ''invalid Port Mapping'', w)
      else
        (case nat_operation os a operation
                (nat_args portType hostPort (nat_destination a containerPort)) w of
           (Some e, w') \<Rightarrow> (Some e, w')
         | (None, w') \<Rightarrow> manage_mappings os a operation mappings w'))"

definition ManageContainerPorts :: "'w os \<Rightarrow> ip \<Rightarrow> string \<Rightarrow> PortOperation \<Rightarrow> 'w \<Rightarrow> error option \<times> 'w" where
  "ManageContainerPorts os localContainerAddress portmapping operation w =
     (if portmapping = '''' then (None, w)
      else manage_mappings os localContainerAddress operation (split_on CHR '';'' portmapping) w)"

section \<open>What the mappings do to the chain\<close>

text \<open>
  The documented effect of iptables on the rules of a chain: appending puts the rule last and
  succeeds, deleting takes away the first rule that equals the given one and fails when there is
  none; the other protocol's table is not touched.
\<close>

definition iptables_documented :: "'w os \<Rightarrow> ('w \<Rightarrow> protocol \<Rightarrow> string list list) \<Rightarrow> bool" where
  "iptables_documented os rules \<longleftrightarrow>
     (\<forall>p args w. \<exists>w'. os (IptAppend p ''nat'' chain args) w = (None, w') \<and>
        rules w' = (rules w)(p := rules w p @ [args])) \<and>
     (\<forall>p args w. args \<in> set (rules w p) \<longrightarrow>
        (\<exists>w'. os (IptDelete p ''nat'' chain args) w = (None, w') \<and>
          rules w' = (rules w)(p := remove1 args (rules w p))))"

definition family :: "ip \<Rightarrow> protocol" where
  "family a = (if To4 a \<noteq> None then ProtocolIPv4 else ProtocolIPv6)"

definition has_family :: "ip \<Rightarrow> bool" where
  "has_family a \<longleftrightarrow> To4 a \<noteq> None \<or> To16 a \<noteq> None"

definition mapping_valid :: "string \<Rightarrow> bool" where
  "mapping_valid pm = (case parse_portmap pm of (t, h, c) \<Rightarrow> isValidPort h \<and> isValidPort c)"

definition mapping_rule :: "ip \<Rightarrow> string \<Rightarrow> string list" where
  "mapping_rule a pm = (case parse_portmap pm of (t, h, c) \<Rightarrow> nat_args t h (nat_destination a c))"

definition port_mappings :: "string \<Rightarrow> string list" where
  "port_mappings portmapping = (if portmapping = '''' then [] else split_on CHR '';'' portmapping)"

lemma ManageContainerPorts_mappings:
  "ManageContainerPorts os a pm op w = manage_mappings os a op (port_mappings pm) w"
  by (simp add: ManageContainerPorts_def port_mappings_def)

lemma OpenPorts_not_Close [simp]: "OpenPorts \<noteq> ClosePorts"
  by (simp add: OpenPorts_def ClosePorts_def)

lemma nat_operation_open: "has_family a \<Longrightarrow>
    nat_operation os a OpenPorts args w = os (IptAppend (family a) ''nat'' chain args) w"
  by (auto simp: nat_operation_def has_family_def family_def iptable_calls)

lemma nat_operation_close: "has_family a \<Longrightarrow>
    nat_operation os a ClosePorts args w = os (IptDelete (family a) ''nat'' chain args) w"
  using OpenPorts_not_Close [symmetric]
  by (auto simp: nat_operation_def has_family_def family_def iptable_calls)

text \<open>Opening appends one rule for each mapping before the first invalid one.\<close>

lemma open_mappings:
  assumes doc: "iptables_documented os rules" and fam: "has_family a"
  shows "\<exists>w'. manage_mappings os a OpenPorts pms w =
      (if list_all mapping_valid pms then None else Some ''invalid Port Mapping'', w') \<and>
    rules w' = (rules w)(family a := rules w (family a) @ map (mapping_rule a) (takeWhile mapping_valid pms))"
proof (induction pms arbitrary: w)
  case Nil
  then show ?case by simp
next
  case (Cons pm pms)
  show ?case
  proof (cases "mapping_valid pm")
    case True
    from doc obtain w1 where w1: "os (IptAppend (family a) ''nat'' chain (mapping_rule a pm)) w = (None, w1)"
      "rules w1 = (rules w)(family a := rules w (family a) @ [mapping_rule a pm])"
      unfolding iptables_documented_def by blast
    with True fam have
      "manage_mappings os a OpenPorts (pm # pms) w = manage_mappings os a OpenPorts pms w1"
      by (auto simp: mapping_valid_def mapping_rule_def nat_operation_open split: prod.splits)
    moreover have "list_all mapping_valid (pm # pms) = list_all mapping_valid pms"
      "takeWhile mapping_valid (pm # pms) = pm # takeWhile mapping_valid pms"
      using True by simp_all
    moreover have "rules w1 (family a) = rules w (family a) @ [mapping_rule a pm]"
      "(rules w1)(family a := x) = (rules w)(family a := x)" for x
      using w1(2) by simp_all
    ultimately show ?thesis using Cons.IH [of w1] by (simp only: append_assoc append_Cons append_Nil list.map)
  next
    case False
    then show ?thesis by (auto simp: mapping_valid_def split: prod.splits)
  qed
qed

lemma close_mappings:
  assumes doc: "iptables_documented os rules" and fam: "has_family a"
    and valid: "list_all mapping_valid pms"
    and there: "mset (map (mapping_rule a) pms) \<subseteq># mset (rules w (family a))"
  shows "\<exists>w'. manage_mappings os a ClosePorts pms w = (None, w') \<and>
    mset (rules w' (family a)) = mset (rules w (family a)) - mset (map (mapping_rule a) pms) \<and>
    (\<forall>p. p \<noteq> family a \<longrightarrow> rules w' p = rules w p)"
  using valid there
proof (induction pms arbitrary: w)
  case Nil
  then show ?case by simp
next
  case (Cons pm pms)
  let ?r = "mapping_rule a pm"
  from Cons.prems have mem: "?r \<in> set (rules w (family a))"
    by (simp add: insert_subset_eq_iff)
  with doc obtain w1 where w1: "os (IptDelete (family a) ''nat'' chain ?r) w = (None, w1)"
    "rules w1 = (rules w)(family a := remove1 ?r (rules w (family a)))"
    unfolding iptables_documented_def by blast
  from Cons.prems(1) fam w1(1) have
    step: "manage_mappings os a ClosePorts (pm # pms) w = manage_mappings os a ClosePorts pms w1"
    by (auto simp: mapping_valid_def mapping_rule_def nat_operation_close split: prod.splits)
  from Cons.prems(2) have "mset (map (mapping_rule a) pms) \<subseteq># mset (rules w1 (family a))"
    by (simp add: w1(2) insert_subset_eq_iff)
  from Cons.IH [OF _ this] Cons.prems(1) step w1(2) show ?case by auto
qed

section \<open>Properties\<close>

text \<open>
  C27: Opening the ports of a container appends, in order, one DNAT rule to the chain of the
  address's family for each mapping up to the first invalid one. If all mappings are valid it
  succeeds; otherwise it fails and the rules of the valid prefix stay in the chain.
\<close>

theorem open_ports_rules:
  assumes "iptables_documented os rules" and "has_family a"
  shows "\<exists>w'. ManageContainerPorts os a portmapping OpenPorts w =
      (if list_all mapping_valid (port_mappings portmapping) then None else Some ''invalid Port Mapping'', w') \<and>
    rules w' = (rules w)(family a := rules w (family a) @
      map (mapping_rule a) (takeWhile mapping_valid (port_mappings portmapping)))"
  unfolding ManageContainerPorts_mappings by (rule open_mappings [OF assms])

text \<open>A system whose state is the rules of the chain.\<close>

definition chain_os :: "(protocol \<Rightarrow> string list list) os" where
  "chain_os c w =
     (case c of
        IptAppend p t ch args \<Rightarrow> (None, w(p := w p @ [args]))
      | IptDelete p t ch args \<Rightarrow>
          if args \<in> set (w p) then (None, w(p := remove1 args (w p))) else (Some ''no such rule'', w)
      | _ \<Rightarrow> (None, w))"

lemma chain_os_documented: "iptables_documented chain_os (\<lambda>w. w)"
  by (simp add: iptables_documented_def chain_os_def)

lemma has_family_IPv4 [simp]: "has_family (IPv4 a b c d)"
  by (simp add: has_family_def)

theorem open_ports_rules_witness:
  "\<exists>w'. ManageContainerPorts chain_os (IPv4 10 19 1 2) ''80:8080;x'' OpenPorts (\<lambda>_. []) =
     (if list_all mapping_valid (port_mappings ''80:8080;x'') then None else Some ''invalid Port Mapping'', w') \<and>
     w' (family (IPv4 10 19 1 2)) =
       map (mapping_rule (IPv4 10 19 1 2)) (takeWhile mapping_valid (port_mappings ''80:8080;x''))"
  using open_ports_rules [OF chain_os_documented has_family_IPv4, of 10 19 1 2 "''80:8080;x''" "\<lambda>_. []"]
  by auto

text \<open>
  C28: Closing undoes opening: when all mappings of a container are valid, opening and then closing
  them succeeds and leaves every chain with the rules it had, with their multiplicities.
\<close>

theorem close_undoes_open:
  assumes "iptables_documented os rules" and "has_family a"
    and "list_all mapping_valid (port_mappings portmapping)"
    and "ManageContainerPorts os a portmapping OpenPorts w = (r, w1)"
  shows "r = None \<and>
    (\<exists>w2. ManageContainerPorts os a portmapping ClosePorts w1 = (None, w2) \<and>
      (\<forall>p. mset (rules w2 p) = mset (rules w p)))"
proof -
  have tw: "takeWhile mapping_valid (port_mappings portmapping) = port_mappings portmapping"
    using assms(3) by (simp add: list_all_iff)
  with open_mappings [OF assms(1,2), of "port_mappings portmapping" w] assms(3,4)
  have r: "r = None" and w1: "rules w1 = (rules w)(family a := rules w (family a) @
      map (mapping_rule a) (port_mappings portmapping))"
    by (auto simp: ManageContainerPorts_mappings)
  then have "mset (map (mapping_rule a) (port_mappings portmapping)) \<subseteq># mset (rules w1 (family a))"
    by simp
  from close_mappings [OF assms(1-3) this] obtain w2 where w2:
    "manage_mappings os a ClosePorts (port_mappings portmapping) w1 = (None, w2)"
    "mset (rules w2 (family a)) =
      mset (rules w1 (family a)) - mset (map (mapping_rule a) (port_mappings portmapping))"
    "\<forall>p. p \<noteq> family a \<longrightarrow> rules w2 p = rules w1 p" by blast
  have "mset (rules w2 p) = mset (rules w p)" for p
    using w2 w1 by (cases "p = family a") simp_all
  with r w2(1) show ?thesis by (auto simp: ManageContainerPorts_mappings)
qed

theorem close_undoes_open_witness:
  "\<exists>r w1. ManageContainerPorts chain_os (IPv4 10 19 1 2) ''80:8080'' OpenPorts (\<lambda>_. []) = (r, w1) \<and>
    r = None \<and>
    (\<exists>w2. ManageContainerPorts chain_os (IPv4 10 19 1 2) ''80:8080'' ClosePorts w1 = (None, w2) \<and>
      (\<forall>p. mset (w2 p) = {#}))"
proof -
  have valid: "list_all mapping_valid (port_mappings ''80:8080'')" by code_simp
  obtain r w1 where o: "ManageContainerPorts chain_os (IPv4 10 19 1 2) ''80:8080'' OpenPorts (\<lambda>_. []) = (r, w1)"
    by (cases "ManageContainerPorts chain_os (IPv4 10 19 1 2) ''80:8080'' OpenPorts (\<lambda>_. [])")
  from close_undoes_open [OF chain_os_documented has_family_IPv4 valid o] o show ?thesis by auto
qed

text \<open>
  A port text is accepted exactly when \<open>strconv.Atoi\<close> reads it as a number from 0 to 65535;
  in particular the decimal text of a number is a valid port exactly up to 65535.
\<close>

theorem valid_port_range: "n < 2 ^ 63 \<Longrightarrow> isValidPort (itoa n) \<longleftrightarrow> n \<le> 65535"
  by (simp add: isValidPort_def Atoi_itoa)

theorem valid_port_range_witness: "isValidPort (itoa 50103)"
  using valid_port_range [of 50103] by simp

end
