(* ===== verification/EventBus.thy ===== *)
theory EventBus
  imports Prelude
begin

text \<open>
  \<open>events/EventManager.go\<close>: the bus that tells the timer of a job that packets still use it. A Go
  channel is a buffer with a capacity and a closed flag, kept in a heap so that a channel handed
  out by \<open>Register\<close> and the one in the map are the same. The map value \<open>None\<close> stands for the nil
  channel, which a missing key reads as too.

  The first part is the three methods as they run alone. The second part is how they interleave:
  emitters share a read lock, so the test of the buffer and the send of one emitter are separate
  steps for another, while registering and deregistering exclude every emitter.
\<close>

section \<open>Channels\<close>

record 'a chan =
  ch_buf :: "'a list"
  ch_cap :: nat
  ch_closed :: bool

definition make_chan :: "nat \<Rightarrow> 'a chan" where
  "make_chan n = \<lparr>ch_buf = [], ch_cap = n, ch_closed = False\<rparr>"

definition chan_full :: "'a chan \<Rightarrow> bool" where
  "chan_full c \<longleftrightarrow> \<not> length (ch_buf c) < ch_cap c"

text \<open>A send that does not block: it panics on a closed channel.\<close>

definition chan_send :: "'a \<Rightarrow> 'a chan \<Rightarrow> 'a chan option" where
  "chan_send x c = (if ch_closed c then None else Some (c\<lparr>ch_buf := ch_buf c @ [x]\<rparr>))"

text \<open>Closing a closed channel panics.\<close>

definition chan_close :: "'a chan \<Rightarrow> 'a chan option" where
  "chan_close c = (if ch_closed c then None else Some (c\<lparr>ch_closed := True\<rparr>))"

section \<open>The bus\<close>

type_synonym EventType = int

definition TableQuery :: EventType where "TableQuery = 0"

record Event =
  Event_EventType :: EventType
  EventTarget :: string
  EventMessage :: string

record Events =
  eventTableQueryChannelQueue :: "string \<Rightarrow> nat option"
  event_channels :: "Event chan list"

definition NewEvents :: Events where
  "NewEvents = \<lparr>eventTableQueryChannelQueue = (\<lambda>_. None), event_channels = []\<rparr>"

definition update_chan :: "nat \<Rightarrow> Event chan \<Rightarrow> Events \<Rightarrow> Events" where
  "update_chan i c s = s\<lparr>event_channels := (event_channels s)[i := c]\<rparr>"

text \<open>\<open>None\<close> is the panic of a send on a closed channel or of closing one.\<close>

definition Emit :: "Event \<Rightarrow> Events \<Rightarrow> Events option" where
  "Emit event s =
     (if Event_EventType event = TableQuery then
        (case eventTableQueryChannelQueue s (EventTarget event) of
           None \<Rightarrow> Some s
         | Some i \<Rightarrow>
             let channel = event_channels s ! i in
             if length (ch_buf channel) < ch_cap channel
             then do { channel' \<leftarrow> chan_send event channel; Some (update_chan i channel' s) }
             else Some s)
      else Some s)"

definition Register :: "EventType \<Rightarrow> string \<Rightarrow> Events \<Rightarrow> (error + nat) \<times> Events" where
  "Register eventType eventTarget s =
     (if eventType = TableQuery then
        (case eventTableQueryChannelQueue s eventTarget of
           None \<Rightarrow>
             let i = length (event_channels s) in
             (Inr i, s\<lparr>event_channels := event_channels s @ [make_chan 10],
                eventTableQueryChannelQueue := (eventTableQueryChannelQueue s)(eventTarget \<mapsto> i)\<rparr>)
         | Some i \<Rightarrow> (Inr i, s))
      else (Inl ''Invalid EventType'', s))"

definition DeRegister :: "EventType \<Rightarrow> string \<Rightarrow> Events \<Rightarrow> Events option" where
  "DeRegister eventType eventTarget s =
     (if eventType = TableQuery then
        (case eventTableQueryChannelQueue s eventTarget of
           None \<Rightarrow> Some s
         | Some i \<Rightarrow>
             do { channel' \<leftarrow> chan_close (event_channels s ! i);
                  Some (update_chan i channel' (s\<lparr>eventTableQueryChannelQueue :=
                    (eventTableQueryChannelQueue s)(eventTarget := None)\<rparr>)) })
      else Some s)"

section \<open>Invariant\<close>

text \<open>
  Registered channels exist, are open, hold at most their ten events, and two targets never share
  a channel.
\<close>

definition events_ok :: "Events \<Rightarrow> bool" where
  "events_ok s \<longleftrightarrow>
     (\<forall>t i. eventTableQueryChannelQueue s t = Some i \<longrightarrow>
        i < length (event_channels s) \<and> \<not> ch_closed (event_channels s ! i)) \<and>
     (\<forall>t u i. eventTableQueryChannelQueue s t = Some i \<longrightarrow>
        eventTableQueryChannelQueue s u = Some i \<longrightarrow> t = u) \<and>
     list_all (\<lambda>c. ch_cap c = 10 \<and> length (ch_buf c) \<le> 10) (event_channels s)"

lemma events_okD:
  assumes "events_ok s" "eventTableQueryChannelQueue s t = Some i"
  shows "i < length (event_channels s)" "\<not> ch_closed (event_channels s ! i)"
    "ch_cap (event_channels s ! i) = 10" "length (ch_buf (event_channels s ! i)) \<le> 10"
  using assms unfolding events_ok_def list_all_length by blast+

lemma events_ok_key: "events_ok s \<Longrightarrow> eventTableQueryChannelQueue s t = Some i \<Longrightarrow>
    eventTableQueryChannelQueue s u = Some i \<Longrightarrow> t = u"
  unfolding events_ok_def by blast

lemma events_ok_New: "events_ok NewEvents"
  by (simp add: events_ok_def NewEvents_def)

text \<open>Changing the buffer of a channel within its capacity keeps the invariant.\<close>

lemma events_ok_buf:
  assumes "events_ok s" "ch_cap c = 10" "length (ch_buf c) \<le> 10"
    "i < length (event_channels s) \<Longrightarrow> ch_closed c = ch_closed (event_channels s ! i)"
  shows "events_ok (update_chan i c s)"
proof (cases "i < length (event_channels s)")
  case True
  then show ?thesis
    using assms unfolding events_ok_def update_chan_def list_all_length
    by (auto simp: nth_list_update)
next
  case False
  then show ?thesis using assms(1) by (simp add: update_chan_def list_update_beyond)
qed

lemma Register_ok: "events_ok s \<Longrightarrow> events_ok (snd (Register ty t s))"
  unfolding events_ok_def Register_def list_all_length make_chan_def
  by (auto simp: nth_append less_Suc_eq Let_def split: option.splits if_splits)

lemma DeRegister_ok:
  assumes "events_ok s" shows "\<exists>s'. DeRegister ty t s = Some s' \<and> events_ok s'"
proof (cases "ty = TableQuery \<and> eventTableQueryChannelQueue s t \<noteq> None")
  case True
  then obtain i where i: "eventTableQueryChannelQueue s t = Some i" and ty: "ty = TableQuery" by blast
  let ?c = "event_channels s ! i"
  let ?s' = "update_chan i (?c\<lparr>ch_closed := True\<rparr>)
     (s\<lparr>eventTableQueryChannelQueue := (eventTableQueryChannelQueue s)(t := None)\<rparr>)"
  have "DeRegister ty t s = Some ?s'"
    using events_okD [OF assms i] i ty by (simp add: DeRegister_def chan_close_def)
  moreover have "events_ok ?s'"
    using assms i events_ok_key [OF assms i]
    unfolding events_ok_def update_chan_def list_all_length by (auto simp: nth_list_update)
  ultimately show ?thesis by blast
next
  case False
  with assms show ?thesis by (auto simp: DeRegister_def)
qed

lemma Emit_ok:
  assumes "events_ok s" shows "\<exists>s'. Emit e s = Some s' \<and> events_ok s'"
proof (cases "eventTableQueryChannelQueue s (EventTarget e)")
  case None
  with assms show ?thesis by (simp add: Emit_def)
next
  case (Some i)
  note ok = events_okD [OF assms Some]
  show ?thesis
    using assms Some ok
    by (auto simp: Emit_def Let_def chan_send_def intro!: events_ok_buf)
qed

section \<open>Interleaving\<close>

text \<open>
  One emitter: before its read lock, inside it, inside it and past the test of the buffer, or
  finished; \<open>EPanicked\<close> when it sent on a closed channel.
\<close>

datatype emitter = EIdle Event | ELocked Event | ESending Event nat | EDone | EPanicked

fun in_read_section :: "emitter \<Rightarrow> bool" where
  "in_read_section (ELocked e) = True"
| "in_read_section (ESending e i) = True"
| "in_read_section _ = False"

record bus =
  bus_events :: Events
  emitters :: "nat \<Rightarrow> emitter"

text \<open>
  A step of the running system: an emitter takes the lock, tests, or sends; a timer receives, or
  registers or deregisters while no emitter holds the lock.
\<close>

inductive bus_step :: "bus \<Rightarrow> bus \<Rightarrow> bool" where
  lock: "emitters b n = EIdle e \<Longrightarrow> bus_step b (b\<lparr>emitters := (emitters b)(n := ELocked e)\<rparr>)"
| skip: "emitters b n = ELocked e \<Longrightarrow>
    Event_EventType e \<noteq> TableQuery \<or>
    eventTableQueryChannelQueue (bus_events b) (EventTarget e) = None \<or>
    (\<exists>i. eventTableQueryChannelQueue (bus_events b) (EventTarget e) = Some i \<and>
       chan_full (event_channels (bus_events b) ! i)) \<Longrightarrow>
    bus_step b (b\<lparr>emitters := (emitters b)(n := EDone)\<rparr>)"
| pass: "emitters b n = ELocked e \<Longrightarrow> Event_EventType e = TableQuery \<Longrightarrow>
    eventTableQueryChannelQueue (bus_events b) (EventTarget e) = Some i \<Longrightarrow>
    \<not> chan_full (event_channels (bus_events b) ! i) \<Longrightarrow>
    bus_step b (b\<lparr>emitters := (emitters b)(n := ESending e i)\<rparr>)"
| send: "emitters b n = ESending e i \<Longrightarrow> \<not> chan_full (event_channels (bus_events b) ! i) \<Longrightarrow>
    chan_send e (event_channels (bus_events b) ! i) = Some c \<Longrightarrow>
    bus_step b (b\<lparr>emitters := (emitters b)(n := EDone), bus_events := update_chan i c (bus_events b)\<rparr>)"
| panic: "emitters b n = ESending e i \<Longrightarrow> chan_send e (event_channels (bus_events b) ! i) = None \<Longrightarrow>
    bus_step b (b\<lparr>emitters := (emitters b)(n := EPanicked)\<rparr>)"
| receive: "i < length (event_channels (bus_events b)) \<Longrightarrow>
    ch_buf (event_channels (bus_events b) ! i) = e # es \<Longrightarrow>
    bus_step b (b\<lparr>bus_events := update_chan i
      ((event_channels (bus_events b) ! i)\<lparr>ch_buf := es\<rparr>) (bus_events b)\<rparr>)"
| register: "\<forall>n. \<not> in_read_section (emitters b n) \<Longrightarrow>
    bus_step b (b\<lparr>bus_events := snd (Register TableQuery t (bus_events b))\<rparr>)"
| deregister: "\<forall>n. \<not> in_read_section (emitters b n) \<Longrightarrow>
    DeRegister TableQuery t (bus_events b) = Some s' \<Longrightarrow>
    bus_step b (b\<lparr>bus_events := s'\<rparr>)"

inductive bus_reachable :: "bus \<Rightarrow> bool" where
  init: "\<forall>n. \<exists>e. es n = EIdle e \<Longrightarrow> bus_reachable \<lparr>bus_events = NewEvents, emitters = es\<rparr>"
| step: "bus_reachable b \<Longrightarrow> bus_step b b' \<Longrightarrow> bus_reachable b'"

text \<open>Whoever is past the test is sending to the channel that is registered for its target.\<close>

definition bus_ok :: "bus \<Rightarrow> bool" where
  "bus_ok b \<longleftrightarrow> events_ok (bus_events b) \<and>
     (\<forall>n. emitters b n \<noteq> EPanicked \<and>
        (\<forall>e i. emitters b n = ESending e i \<longrightarrow>
           eventTableQueryChannelQueue (bus_events b) (EventTarget e) = Some i))"

lemma update_chan_queue [simp]:
  "eventTableQueryChannelQueue (update_chan i c s) = eventTableQueryChannelQueue s"
  by (simp add: update_chan_def)

lemma bus_step_ok: "bus_step b b' \<Longrightarrow> bus_ok b \<Longrightarrow> bus_ok b'"
proof (induction rule: bus_step.induct)
  case (send b n e i c)
  then have q: "eventTableQueryChannelQueue (bus_events b) (EventTarget e) = Some i"
    and ok: "events_ok (bus_events b)" by (auto simp: bus_ok_def)
  note c = events_okD [OF ok q]
  from send(2,3) c have "events_ok (update_chan i c (bus_events b))"
    by (intro events_ok_buf ok) (auto simp: chan_send_def chan_full_def split: if_splits)
  with send(4) show ?case by (simp add: bus_ok_def)
next
  case (panic b n e i)
  then have q: "eventTableQueryChannelQueue (bus_events b) (EventTarget e) = Some i"
    and ok: "events_ok (bus_events b)" by (auto simp: bus_ok_def)
  from events_okD(2) [OF ok q] panic(2) show ?case by (simp add: chan_send_def)
next
  case (receive i b e es)
  then have ok: "events_ok (bus_events b)" by (simp add: bus_ok_def)
  with receive(1) have "ch_cap (event_channels (bus_events b) ! i) = 10"
    "length (ch_buf (event_channels (bus_events b) ! i)) \<le> 10"
    by (simp_all add: events_ok_def list_all_length)
  with receive(2) ok have "events_ok (update_chan i
      ((event_channels (bus_events b) ! i)\<lparr>ch_buf := es\<rparr>) (bus_events b))"
    by (intro events_ok_buf) simp_all
  with receive(3) show ?case by (simp add: bus_ok_def)
next
  case (register b t)
  then have "\<forall>n e i. emitters b n \<noteq> ESending e i" by (metis in_read_section.simps(2))
  with register Register_ok [of "bus_events b"] show ?case by (simp add: bus_ok_def)
next
  case (deregister b t s')
  then have "\<forall>n e i. emitters b n \<noteq> ESending e i" by (metis in_read_section.simps(2))
  moreover have "events_ok s'"
    using deregister DeRegister_ok [of "bus_events b" TableQuery t] by (auto simp: bus_ok_def)
  ultimately show ?case using deregister(3) by (simp add: bus_ok_def)
qed (auto simp: bus_ok_def)

lemma bus_reachable_ok: "bus_reachable b \<Longrightarrow> bus_ok b"
proof (induction rule: bus_reachable.induct)
  case (init es)
  have "es n \<noteq> EPanicked \<and> (\<forall>e i. es n \<noteq> ESending e i)" for n
    using init [rule_format, of n] by auto
  then show ?case by (simp add: bus_ok_def events_ok_New)
qed (rule bus_step_ok)

section \<open>Properties\<close>

text \<open>A bus in use by one thread.\<close>

datatype bus_op = BEmit Event | BRegister EventType string | BDeRegister EventType string

fun bus_op_step :: "bus_op \<Rightarrow> Events \<Rightarrow> Events option" where
  "bus_op_step (BEmit e) s = Emit e s"
| "bus_op_step (BRegister ty t) s = Some (snd (Register ty t s))"
| "bus_op_step (BDeRegister ty t) s = DeRegister ty t s"

fun bus_run :: "bus_op list \<Rightarrow> Events \<Rightarrow> Events option" where
  "bus_run [] s = Some s"
| "bus_run (x # xs) s = do { s' \<leftarrow> bus_op_step x s; bus_run xs s' }"

lemma bus_run_ok: "events_ok s \<Longrightarrow> \<exists>s'. bus_run xs s = Some s' \<and> events_ok s'"
proof (induction xs arbitrary: s)
  case Nil
  then show ?case by simp
next
  case (Cons x xs)
  have "\<exists>s'. bus_op_step x s = Some s' \<and> events_ok s'"
    using Cons.prems by (cases x) (auto simp: Emit_ok Register_ok DeRegister_ok)
  with Cons.IH show ?case by auto
qed

text \<open>
  However emitters, receivers, registrations and deregistrations interleave under the lock of
  the bus, no emitter ever sends on a closed channel, and an emitter that passed the test of the
  buffer sends to the channel registered for the target of its event.
\<close>

theorem emitters_never_panic:
  assumes "bus_reachable b"
  shows "emitters b n \<noteq> EPanicked \<and>
    (emitters b n = ESending e i \<longrightarrow>
      eventTableQueryChannelQueue (bus_events b) (EventTarget e) = Some i \<and>
      \<not> ch_closed (event_channels (bus_events b) ! i))"
  using bus_reachable_ok [OF assms] events_okD(2) unfolding bus_ok_def by blast

definition sample_event :: Event where
  "sample_event = \<lparr>Event_EventType = TableQuery, EventTarget = ''j'', EventMessage = ''''\<rparr>"

definition sample_bus :: bus where
  "sample_bus = \<lparr>bus_events = snd (Register TableQuery ''j'' NewEvents),
     emitters = (\<lambda>_. EIdle sample_event)(0 := ESending sample_event 0)\<rparr>"

lemma sample_bus_reachable: "bus_reachable sample_bus"
proof -
  let ?b0 = "\<lparr>bus_events = NewEvents, emitters = (\<lambda>_. EIdle sample_event)\<rparr>"
  let ?b1 = "?b0\<lparr>bus_events := snd (Register TableQuery ''j'' (bus_events ?b0))\<rparr>"
  let ?b2 = "?b1\<lparr>emitters := (emitters ?b1)(0 := ELocked sample_event)\<rparr>"
  let ?b3 = "?b2\<lparr>emitters := (emitters ?b2)(0 := ESending sample_event 0)\<rparr>"
  have "bus_reachable ?b0" by (rule bus_reachable.init) simp
  then have "bus_reachable ?b1" by (rule bus_reachable.step) (rule bus_step.register, simp)
  then have "bus_reachable ?b2" by (rule bus_reachable.step) (rule bus_step.lock, simp)
  then have "bus_reachable ?b3"
    by (rule bus_reachable.step)
       (rule bus_step.pass, simp_all add: sample_event_def Register_def NewEvents_def make_chan_def chan_full_def)
  then show ?thesis by (simp add: sample_bus_def)
qed

theorem emitters_never_panic_witness:
  "eventTableQueryChannelQueue (bus_events sample_bus) ''j'' = Some 0"
  using emitters_never_panic [OF sample_bus_reachable, of 0 sample_event 0]
  by (simp add: sample_bus_def sample_event_def)

end
