(* ===== verification/MqttClient.thy ===== *)
theory MqttClient
  imports SliceApi EventBus GoStrings "HOL-Library.AList"
begin

text \<open>
  The MQTT client of \<open>mqtt/MqttMainClient.go\<close>, the blocking table query of \<open>mqtt/Tablequery.go\<close>
  and the notifications of \<open>mqtt/NetworkManagementHandlers.go\<close>. The broker is the list of requests
  the client made to it; a payload is the struct that the code marshals to JSON, and a message from
  the broker is the struct that unmarshalling left behind.

  A blocking query is three steps for the rest of the program: it registers a response channel and
  publishes the request, the message handler may fill the channel, and the query ends with the
  response or the timeout. The composed call runs them in this order over the messages handled
  while it waits.
\<close>

section \<open>Data\<close>

record Sip =
  Sip_Type :: string
  Sip_Address :: string
  Sip_Address_v6 :: string

record ServiceInstance =
  InstanceNumber_of :: int
  NamespaceIp :: string
  NamespaceIpv6 :: string
  HostIp :: string
  HostPort :: int
  ServiceIp_of :: "Sip list"

record TableQueryResponse =
  resp_JobName :: string
  InstanceList :: "ServiceInstance list"
  QueryKey :: string

record mqttSubnetworkResponse =
  subnet_Address :: string
  subnet_Address_v6 :: string

record mqttDeployNotification =
  notify_Appname :: string
  notify_Status :: string
  notify_Instancenumber :: int
  notify_Nsip :: string
  notify_Nsipv6 :: string
  notify_Hostport :: string
  notify_Hostip :: string

datatype payload =
    TableQueryRequest string string
  | InterestDeregisterRequest string
  | SubnetworkRequest string
  | DeployNotification mqttDeployNotification

datatype broker_call = Publish string payload | Subscribe string | Unsubscribe string

text \<open>The handlers that the code installs; the handler of a job update keeps the job.\<close>

datatype handler = TablequeryResultHandler | SubnetworkAssignmentHandler | JobUpdateHandler string

text \<open>
  \<open>timers\<close> and \<open>job_updates\<close> are the goroutines that the client started and that still run: where the one
  of \<open>startSelfDestructTimeout\<close> is (see \<open>JobInterest\<close>), and the refreshes of a job that have not run yet.
\<close>

datatype timer_pc =
    TStart | TLoop nat | TExpired | TNotified | TUnsubscribed | TRemoved | TDeregistered | TDone

record NetMqttClient =
  clientID :: string
  topics :: "(string \<times> handler) list"
  broker :: "broker_call list"
  siprequests :: "string \<Rightarrow> nat list option"
  response_channels :: "TableQueryResponse chan list"
  subnetworkResponseChannel :: "mqttSubnetworkResponse chan option"
  runningHandlers :: "string genericSlice"
  timers :: "(string \<times> timer_pc) list"
  job_updates :: "string list"
  event_bus :: Events

section \<open>Client\<close>

definition net_topic :: "string \<Rightarrow> string \<Rightarrow> string" where
  "net_topic clientid topic = ''nodes/'' @ clientid @ ''/net/'' @ topic"

text \<open>\<open>connected\<close> is the error of connecting to the broker, which panics.\<close>

definition InitNetMqttClient :: "string \<Rightarrow> error option \<Rightarrow> NetMqttClient option" where
  "InitNetMqttClient clientid connected =
     (case connected of
        Some e \<Rightarrow> None
      | None \<Rightarrow> Some
          \<lparr>clientID = clientid,
           topics = [(net_topic clientid ''tablequery/result'', TablequeryResultHandler),
                     (net_topic clientid ''subnetwork/result'', SubnetworkAssignmentHandler)],
           broker = [], siprequests = (\<lambda>_. None), response_channels = [],
           subnetworkResponseChannel = None, runningHandlers = NewSlice, timers = [],
           job_updates = [], event_bus = NewEvents\<rparr>)"

text \<open>Whenever the client connects it subscribes to every topic of the map.\<close>

definition connectHandler :: "NetMqttClient \<Rightarrow> NetMqttClient" where
  "connectHandler s = s\<lparr>broker := broker s @ map (Subscribe \<circ> fst) (topics s)\<rparr>"

text \<open>The handlers that a message on a topic is given to.\<close>

definition subscribeHandlerDispatcher :: "string \<Rightarrow> NetMqttClient \<Rightarrow> handler list" where
  "subscribeHandlerDispatcher topic s =
     map snd (filter (\<lambda>(key, handler). Contains topic key) (topics s))"

definition PublishToBroker :: "string \<Rightarrow> payload \<Rightarrow> NetMqttClient \<Rightarrow> error option \<times> NetMqttClient" where
  "PublishToBroker topic p s =
     (None, s\<lparr>broker := broker s @ [Publish (net_topic (clientID s) topic) p]\<rparr>)"

definition RegisterTopic :: "string \<Rightarrow> handler \<Rightarrow> NetMqttClient \<Rightarrow> NetMqttClient" where
  "RegisterTopic topic handler s =
     s\<lparr>topics := AList.update topic handler (topics s), broker := broker s @ [Subscribe topic]\<rparr>"

definition DeRegisterTopic :: "string \<Rightarrow> NetMqttClient \<Rightarrow> NetMqttClient" where
  "DeRegisterTopic topic s =
     s\<lparr>broker := broker s @ [Unsubscribe topic], topics := AList.delete topic (topics s)\<rparr>"

section \<open>Interests\<close>

definition MqttIsInterestRegistered :: "string \<Rightarrow> NetMqttClient \<Rightarrow> bool" where
  "MqttIsInterestRegistered jobName s = Slice_Exists jobName (runningHandlers s)"

definition job_topic :: "string \<Rightarrow> string" where
  "job_topic jobName = ''jobs/'' @ jobName @ ''/updates_available''"

definition MqttRegisterInterest :: "string \<Rightarrow> NetMqttClient \<Rightarrow> NetMqttClient" where
  "MqttRegisterInterest jobName s =
     (if Slice_Exists jobName (runningHandlers s) then s
      else
        let s1 = RegisterTopic (job_topic jobName) (JobUpdateHandler jobName) s
        in s1\<lparr>runningHandlers := Slice_Add jobName (runningHandlers s1),
              timers := timers s1 @ [(jobName, TStart)]\<rparr>)"

definition cleanInterestTowardsJob :: "string \<Rightarrow> NetMqttClient \<Rightarrow> NetMqttClient" where
  "cleanInterestTowardsJob jobName s =
     snd (PublishToBroker ''interest/remove'' (InterestDeregisterRequest jobName) s)"

section \<open>Table query\<close>

text \<open>Up to the \<open>select\<close>: the error of the early returns, or the response channel to wait for.\<close>

definition query_begin :: "string \<Rightarrow> string \<Rightarrow> bool \<Rightarrow> NetMqttClient \<Rightarrow> (error + nat) \<times> NetMqttClient" where
  "query_begin sip sname force s =
     (let reqname = sip @ sname in
      if MqttIsInterestRegistered reqname s \<and> \<not> force
      then (Inl ''interest already registered'', s)
      else
        let responseChannel = length (response_channels s);
            s1 = s\<lparr>response_channels := response_channels s @ [make_chan 10]\<rparr>
        in (case siprequests s1 reqname of
              Some l \<Rightarrow> (Inl ''Table query already happening for this address'', s1)
            | None \<Rightarrow>
                let s2 = s1\<lparr>siprequests := (siprequests s1)(reqname \<mapsto> [responseChannel])\<rparr>;
                    s3 = snd (PublishToBroker ''tablequery/request'' (TableQueryRequest sname sip) s2)
                in (Inr responseChannel, s3)))"

text \<open>The \<open>select\<close>: the oldest response in the channel, or the timeout when there is none.\<close>

definition query_end :: "nat \<Rightarrow> NetMqttClient \<Rightarrow> (error + TableQueryResponse) \<times> NetMqttClient" where
  "query_end c s =
     (case ch_buf (response_channels s ! c) of
        [] \<Rightarrow> (Inl ''unknown network Mqtt Timeout'', s)
      | r # rs \<Rightarrow> (Inr r, s\<lparr>response_channels :=
          (response_channels s)[c := (response_channels s ! c)\<lparr>ch_buf := rs\<rparr>]\<rparr>))"

definition querykeys :: "TableQueryResponse \<Rightarrow> string list" where
  "querykeys r =
     resp_JobName r # QueryKey r #
     concat (map (\<lambda>inst. concat (map (\<lambda>sip. [Sip_Address sip, Sip_Address_v6 sip]) (ServiceIp_of inst)))
       (InstanceList r))"

text \<open>
  Sending to the channels of one key. \<open>None\<close> is a handler that waits forever with the lock held: a
  full channel has no receiver that would empty it.
\<close>

fun notify_channels :: "TableQueryResponse \<Rightarrow> nat list \<Rightarrow> NetMqttClient \<Rightarrow> NetMqttClient option" where
  "notify_channels r [] s = Some s"
| "notify_channels r (c # cs) s =
     (let ch = response_channels s ! c in
      if chan_full ch then None
      else do { ch' \<leftarrow> chan_send r ch;
                notify_channels r cs (s\<lparr>response_channels := (response_channels s)[c := ch']\<rparr>) })"

definition notify_key :: "TableQueryResponse \<Rightarrow> string \<Rightarrow> NetMqttClient \<Rightarrow> NetMqttClient option" where
  "notify_key r key s =
     do {
       s1 \<leftarrow> (case siprequests s key of Some l \<Rightarrow> notify_channels r l s | None \<Rightarrow> Some s);
       Some (s1\<lparr>siprequests := (siprequests s1)(key := None)\<rparr>)
     }"

fun notify_keys :: "TableQueryResponse \<Rightarrow> string list \<Rightarrow> NetMqttClient \<Rightarrow> NetMqttClient option" where
  "notify_keys r [] s = Some s"
| "notify_keys r (key # keys) s = do { s1 \<leftarrow> notify_key r key s; notify_keys r keys s1 }"

definition TablequeryResultMqttHandler :: "TableQueryResponse \<Rightarrow> NetMqttClient \<Rightarrow> NetMqttClient option" where
  "TablequeryResultMqttHandler r s = notify_keys r (querykeys r) s"

fun handle_messages :: "TableQueryResponse list \<Rightarrow> NetMqttClient \<Rightarrow> NetMqttClient option" where
  "handle_messages [] s = Some s"
| "handle_messages (r # rs) s = do { s1 \<leftarrow> TablequeryResultMqttHandler r s; handle_messages rs s1 }"

definition tableQueryRequestBlocking :: "string \<Rightarrow> string \<Rightarrow> bool \<Rightarrow> TableQueryResponse list \<Rightarrow>
  NetMqttClient \<Rightarrow> ((error + TableQueryResponse) \<times> NetMqttClient) option" where
  "tableQueryRequestBlocking sip sname force msgs s =
     (case query_begin sip sname force s of
        (Inl e, s1) \<Rightarrow> Some (Inl e, s1)
      | (Inr c, s1) \<Rightarrow> do { s2 \<leftarrow> handle_messages msgs s1; Some (query_end c s2) })"

definition TableQueryByIpRequestBlocking :: "string \<Rightarrow> bool \<Rightarrow> TableQueryResponse list \<Rightarrow>
  NetMqttClient \<Rightarrow> ((error + TableQueryResponse) \<times> NetMqttClient) option" where
  "TableQueryByIpRequestBlocking sip force msgs s = tableQueryRequestBlocking sip '''' force msgs s"

definition TableQueryByJobNameRequestBlocking :: "string \<Rightarrow> bool \<Rightarrow> TableQueryResponse list \<Rightarrow>
  NetMqttClient \<Rightarrow> ((error + TableQueryResponse) \<times> NetMqttClient) option" where
  "TableQueryByJobNameRequestBlocking jobname force msgs s =
     tableQueryRequestBlocking '''' jobname force msgs s"

section \<open>Subnetwork and notifications\<close>

text \<open>
  The handler of a subnetwork response, given the error of unmarshalling or the response. \<open>None\<close> is
  a handler that waits forever, on the nil channel or on the full one.
\<close>

definition subnetworkAssignmentMqttHandler ::
  "error + mqttSubnetworkResponse \<Rightarrow> NetMqttClient \<Rightarrow> NetMqttClient option" where
  "subnetworkAssignmentMqttHandler msg s =
     (let r = (case msg of Inl e \<Rightarrow> \<lparr>subnet_Address = '''', subnet_Address_v6 = ''''\<rparr> | Inr r \<Rightarrow> r) in
      case subnetworkResponseChannel s of
        None \<Rightarrow> None
      | Some ch \<Rightarrow>
          if chan_full ch then None
          else do { ch' \<leftarrow> chan_send r ch; Some (s\<lparr>subnetworkResponseChannel := Some ch'\<rparr>) })"

text \<open>The blocking request; \<open>answer\<close> is the message that comes before the timeout, if one does.\<close>

definition RequestSubnetworkMqttBlocking ::
  "(error + mqttSubnetworkResponse) option \<Rightarrow> NetMqttClient \<Rightarrow>
    ((error + mqttSubnetworkResponse) \<times> NetMqttClient) option" where
  "RequestSubnetworkMqttBlocking answer s =
     do {
       let s1 = s\<lparr>subnetworkResponseChannel := Some (make_chan 1)\<rparr>;
       let s2 = snd (PublishToBroker ''subnet'' (SubnetworkRequest ''GET'') s1);
       s3 \<leftarrow> (case answer of None \<Rightarrow> Some s2 | Some msg \<Rightarrow> subnetworkAssignmentMqttHandler msg s2);
       ch \<leftarrow> subnetworkResponseChannel s3;
       Some (case ch_buf ch of
           [] \<Rightarrow> (Inl ''unknown network Invalid Subnetwork received'', s3)
         | result # rest \<Rightarrow>
             let s4 = s3\<lparr>subnetworkResponseChannel := Some (ch\<lparr>ch_buf := rest\<rparr>)\<rparr> in
             if subnet_Address result \<noteq> '''' \<or> subnet_Address_v6 result \<noteq> ''''
             then (Inr result, s4)
             else (Inl ''unknown network Invalid Subnetwork received'', s4))
     }"

definition NotifyDeploymentStatus :: "string \<Rightarrow> string \<Rightarrow> int \<Rightarrow> string \<Rightarrow> string \<Rightarrow> string \<Rightarrow> string \<Rightarrow>
  NetMqttClient \<Rightarrow> error option \<times> NetMqttClient" where
  "NotifyDeploymentStatus appname status inst nsip nsipv6 hostip hostport s =
     PublishToBroker ''service/deployed'' (DeployNotification
       \<lparr>notify_Appname = appname, notify_Status = status, notify_Instancenumber = inst,
        notify_Nsip = nsip, notify_Nsipv6 = nsipv6, notify_Hostport = hostport, notify_Hostip = hostip\<rparr>) s"

definition NotifyAddressChange :: "string \<Rightarrow> int \<Rightarrow> string \<Rightarrow> string \<Rightarrow>
  NetMqttClient \<Rightarrow> error option \<times> NetMqttClient" where
  "NotifyAddressChange appname inst hostip hostport s =
     PublishToBroker ''service/address-changed'' (DeployNotification
       \<lparr>notify_Appname = appname, notify_Status = '''', notify_Instancenumber = inst,
        notify_Nsip = '''', notify_Nsipv6 = '''', notify_Hostport = hostport, notify_Hostip = hostip\<rparr>) s"

end
