(* ===== verification/TableQueries.thy ===== *)
theory TableQueries
  imports MqttClient
begin

text \<open>
  What the request cache of \<open>mqtt/Tablequery.go\<close> guarantees: its invariant, what a message does to
  the waiting queries, and the result of a blocking query in terms of the messages that arrive while
  it waits.
\<close>

section \<open>Invariant\<close>

text \<open>
  Each waiting key has one channel of its own, which is open and still empty; a channel receives at
  most one response in its life.
\<close>

definition waiting :: "NetMqttClient \<Rightarrow> string \<Rightarrow> nat \<Rightarrow> bool" where
  "waiting s key c \<longleftrightarrow> siprequests s key = Some [c]"

definition query_ok :: "NetMqttClient \<Rightarrow> bool" where
  "query_ok s \<longleftrightarrow>
     (\<forall>key l. siprequests s key = Some l \<longrightarrow>
        (\<exists>c < length (response_channels s). l = [c] \<and> ch_buf (response_channels s ! c) = [])) \<and>
     (\<forall>key key' c. waiting s key c \<longrightarrow> waiting s key' c \<longrightarrow> key = key') \<and>
     list_all (\<lambda>ch. ch_cap ch = 10 \<and> \<not> ch_closed ch \<and> length (ch_buf ch) \<le> 1) (response_channels s)"

lemma query_okD:
  assumes "query_ok s" "siprequests s key = Some l"
  obtains c where "l = [c]" "waiting s key c" "c < length (response_channels s)"
    "ch_buf (response_channels s ! c) = []"
  using assms unfolding query_ok_def waiting_def by blast

lemma query_ok_chan:
  assumes "query_ok s" "c < length (response_channels s)"
  shows "ch_cap (response_channels s ! c) = 10" "\<not> ch_closed (response_channels s ! c)"
    "length (ch_buf (response_channels s ! c)) \<le> 1"
  using assms by (auto simp: query_ok_def list_all_length)

lemma query_ok_key: "query_ok s \<Longrightarrow> waiting s key c \<Longrightarrow> waiting s key' c \<Longrightarrow> key = key'"
  unfolding query_ok_def by blast

text \<open>The invariant depends on two fields only.\<close>

lemma query_ok_cong:
  "siprequests s' = siprequests s \<Longrightarrow> response_channels s' = response_channels s \<Longrightarrow>
    query_ok s' = query_ok s"
  by (simp add: query_ok_def waiting_def)

section \<open>Messages\<close>

text \<open>One key: its channel gets the response and the key is free again.\<close>

definition answered :: "TableQueryResponse \<Rightarrow> nat \<Rightarrow> NetMqttClient \<Rightarrow> NetMqttClient" where
  "answered r c s = s\<lparr>response_channels :=
     (response_channels s)[c := (response_channels s ! c)\<lparr>ch_buf := [r]\<rparr>]\<rparr>"

definition key_free :: "string \<Rightarrow> NetMqttClient \<Rightarrow> NetMqttClient" where
  "key_free key s = s\<lparr>siprequests := (siprequests s)(key := None)\<rparr>"

lemma notify_key_waiting:
  assumes "query_ok s" "waiting s key c"
  shows "notify_key r key s = Some (key_free key (answered r c s))"
    and "query_ok (key_free key (answered r c s))"
proof -
  from assms obtain "c < length (response_channels s)" "ch_buf (response_channels s ! c) = []"
    unfolding waiting_def by (elim query_okD [where key = key]) auto
  note c = this query_ok_chan [OF assms(1) this(1)]
  show "notify_key r key s = Some (key_free key (answered r c s))"
    using assms(2) c
    by (simp add: notify_key_def waiting_def Let_def chan_full_def chan_send_def answered_def key_free_def)
  have other: "c' \<noteq> c" if "siprequests s key' = Some [c']" "key' \<noteq> key" for key' c'
    using query_ok_key [OF assms] that by (auto simp: waiting_def)
  show "query_ok (key_free key (answered r c s))"
    unfolding query_ok_def
  proof (intro conjI allI impI)
    fix key' l assume "siprequests (key_free key (answered r c s)) key' = Some l"
    then have l: "siprequests s key' = Some l" and ne: "key' \<noteq> key"
      by (auto simp: key_free_def answered_def split: if_splits)
    from assms(1) l obtain c' where "l = [c']" "c' < length (response_channels s)"
      "ch_buf (response_channels s ! c') = []" by (rule query_okD)
    moreover from other [of key' c'] l ne calculation(1) have "c' \<noteq> c" by simp
    ultimately show "\<exists>c'<length (response_channels (key_free key (answered r c s))).
        l = [c'] \<and> ch_buf (response_channels (key_free key (answered r c s)) ! c') = []"
      by (auto simp: key_free_def answered_def)
  next
    fix k k' d assume "waiting (key_free key (answered r c s)) k d"
      "waiting (key_free key (answered r c s)) k' d"
    then show "k = k'" using query_ok_key [OF assms(1)]
      by (auto simp: waiting_def key_free_def answered_def split: if_splits)
  next
    show "list_all (\<lambda>ch. ch_cap ch = 10 \<and> \<not> ch_closed ch \<and> length (ch_buf ch) \<le> 1)
        (response_channels (key_free key (answered r c s)))"
      using assms(1) c by (auto simp: query_ok_def key_free_def answered_def list_all_length nth_list_update)
  qed
qed

lemma notify_key_idle:
  "siprequests s key = None \<Longrightarrow> notify_key r key s = Some s"
  by (simp add: notify_key_def fun_upd_idem)

text \<open>
  What handling a response does: it never gets stuck, frees the keys it names and puts the response
  into the channels that waited for one of them; nothing else changes.
\<close>

definition delivered :: "TableQueryResponse \<Rightarrow> string set \<Rightarrow> NetMqttClient \<Rightarrow> NetMqttClient \<Rightarrow> bool" where
  "delivered r keys s s' \<longleftrightarrow>
     siprequests s' = (\<lambda>k. if k \<in> keys then None else siprequests s k) \<and>
     length (response_channels s') = length (response_channels s) \<and>
     (\<forall>c. response_channels s' ! c =
        (if \<exists>k \<in> keys. waiting s k c then (response_channels s ! c)\<lparr>ch_buf := [r]\<rparr>
         else response_channels s ! c)) \<and>
     s' = s\<lparr>siprequests := siprequests s', response_channels := response_channels s'\<rparr>"

lemma notify_keys_spec:
  "query_ok s \<Longrightarrow> \<exists>s'. notify_keys r keys s = Some s' \<and> query_ok s' \<and> delivered r (set keys) s s'"
proof (induction keys arbitrary: s)
  case Nil
  then show ?case by (simp add: delivered_def)
next
  case (Cons key keys)
  show ?case
  proof (cases "siprequests s key")
    case None
    from Cons.IH [OF Cons.prems] obtain s' where
      "notify_keys r keys s = Some s'" "query_ok s'" "delivered r (set keys) s s'" by blast
    with None show ?thesis
      by (intro exI [of _ s']) (auto simp: notify_key_idle delivered_def waiting_def fun_eq_iff)
  next
    case (Some l)
    with Cons.prems obtain c where w: "waiting s key c" and c: "c < length (response_channels s)"
      by (rule query_okD)
    let ?s1 = "key_free key (answered r c s)"
    note nk = notify_key_waiting [OF Cons.prems w, of r]
    from Cons.IH [OF nk(2)] obtain s' where
      s': "notify_keys r keys ?s1 = Some s'" "query_ok s'" "delivered r (set keys) ?s1 s'" by blast
    have w1: "waiting ?s1 k d \<longleftrightarrow> k \<noteq> key \<and> waiting s k d" for k d
      by (auto simp: waiting_def key_free_def answered_def)
    have ch: "response_channels ?s1 ! d =
        (if d = c then (response_channels s ! c)\<lparr>ch_buf := [r]\<rparr> else response_channels s ! d)" for d
      using c by (simp add: key_free_def answered_def nth_list_update)
    have hit: "(\<exists>k\<in>set (key # keys). waiting s k d) \<longleftrightarrow> d = c \<or> (\<exists>k\<in>set keys. waiting ?s1 k d)" for d
    proof
      assume "\<exists>k\<in>set (key # keys). waiting s k d"
      then obtain k where k: "k \<in> set (key # keys)" "waiting s k d" by blast
      show "d = c \<or> (\<exists>k\<in>set keys. waiting ?s1 k d)"
        using k w unfolding w1 by (cases "k = key") (auto simp: waiting_def)
    qed (use w in \<open>auto simp: w1\<close>)
    have nc: "\<not> (\<exists>k\<in>set keys. waiting ?s1 k c)"
      using query_ok_key [OF Cons.prems w] unfolding w1 by blast
    have "delivered r (set (key # keys)) s s'"
      unfolding delivered_def
    proof (intro conjI allI)
      show "siprequests s' = (\<lambda>k. if k \<in> set (key # keys) then None else siprequests s k)"
        using s'(3) by (auto simp: delivered_def key_free_def answered_def)
      show "length (response_channels s') = length (response_channels s)"
        using s'(3) by (simp add: delivered_def key_free_def answered_def)
      show "response_channels s' ! d = (if \<exists>k\<in>set (key # keys). waiting s k d
          then (response_channels s ! d)\<lparr>ch_buf := [r]\<rparr> else response_channels s ! d)" for d
        using s'(3) nc unfolding hit delivered_def by (simp add: ch)
      show "s' = s\<lparr>siprequests := siprequests s', response_channels := response_channels s'\<rparr>"
      proof -
        have "s' = ?s1\<lparr>siprequests := siprequests s', response_channels := response_channels s'\<rparr>"
          using s'(3) unfolding delivered_def by (elim conjE)
        then show ?thesis by (simp add: key_free_def answered_def)
      qed
    qed
    with s' nk(1) show ?thesis by auto
  qed
qed

lemma handler_spec:
  assumes "query_ok s"
  obtains s' where "TablequeryResultMqttHandler r s = Some s'" "query_ok s'"
    "delivered r (set (querykeys r)) s s'"
  using notify_keys_spec [OF assms] unfolding TablequeryResultMqttHandler_def by blast

section \<open>Queries\<close>

lemma query_begin_ok:
  assumes "query_ok s" shows "query_ok (snd (query_begin sip sname force s))"
  using assms
  by (auto simp: query_begin_def Let_def PublishToBroker_def query_ok_def waiting_def make_chan_def
      list_all_length nth_append less_Suc_eq split: option.splits)

lemma query_begin_waits:
  assumes "query_begin sip sname force s = (Inr c, s1)"
  shows "waiting s1 (sip @ sname) c" "c < length (response_channels s1)"
    "ch_buf (response_channels s1 ! c) = []"
  using assms by (auto simp: query_begin_def Let_def PublishToBroker_def waiting_def make_chan_def
      split: option.splits if_splits)

lemma query_end_ok:
  assumes "query_ok s" shows "query_ok (snd (query_end c s))"
proof (cases "ch_buf (response_channels s ! c)")
  case Nil
  with assms show ?thesis by (simp add: query_end_def)
next
  case (Cons r rs)
  let ?s' = "snd (query_end c s)"
  have s': "siprequests ?s' = siprequests s" "response_channels ?s' =
      (response_channels s)[c := (response_channels s ! c)\<lparr>ch_buf := rs\<rparr>]"
    using Cons by (simp_all add: query_end_def)
  show ?thesis
    unfolding query_ok_def
  proof (intro conjI allI impI)
    fix key l assume "siprequests ?s' key = Some l"
    with s' have "siprequests s key = Some l" by simp
    with assms obtain c' where c': "l = [c']" "c' < length (response_channels s)"
      "ch_buf (response_channels s ! c') = []" by (rule query_okD)
    with Cons have "c' \<noteq> c" by auto
    with c' show "\<exists>c'<length (response_channels ?s'). l = [c'] \<and> ch_buf (response_channels ?s' ! c') = []"
      by (simp add: s')
  next
    fix k k' d assume "waiting ?s' k d" "waiting ?s' k' d"
    then show "k = k'" using query_ok_key [OF assms, of k d k'] by (simp add: waiting_def s')
  next
    show "list_all (\<lambda>ch. ch_cap ch = 10 \<and> \<not> ch_closed ch \<and> length (ch_buf ch) \<le> 1) (response_channels ?s')"
      unfolding list_all_length
    proof (intro allI impI)
      fix n assume n: "n < length (response_channels ?s')"
      then have n': "n < length (response_channels s)" by (simp add: s')
      show "ch_cap (response_channels ?s' ! n) = 10 \<and> \<not> ch_closed (response_channels ?s' ! n) \<and>
          length (ch_buf (response_channels ?s' ! n)) \<le> 1"
        using query_ok_chan [OF assms n'] n' Cons by (cases "n = c") (simp_all add: s')
    qed
  qed
qed

text \<open>
  While a query waits: the first message that names its key fills the channel, the later ones do not
  reach it.
\<close>

lemma handle_messages_wait:
  assumes "query_ok s" "waiting s key c" "ch_buf (response_channels s ! c) = []"
  shows "\<exists>s'. handle_messages msgs s = Some s' \<and> query_ok s' \<and>
    length (response_channels s') = length (response_channels s) \<and>
    (case find (\<lambda>r. key \<in> set (querykeys r)) msgs of
       None \<Rightarrow> waiting s' key c \<and> ch_buf (response_channels s' ! c) = []
     | Some r \<Rightarrow> (\<forall>k. \<not> waiting s' k c) \<and> ch_buf (response_channels s' ! c) = [r])"
proof -
  have idle: "\<exists>s'. handle_messages msgs s = Some s' \<and> query_ok s' \<and>
      length (response_channels s') = length (response_channels s) \<and>
      (\<forall>k. \<not> waiting s' k c) \<and> response_channels s' ! c = response_channels s ! c"
    if "query_ok s" "\<forall>k. \<not> waiting s k c" for msgs s
    using that
  proof (induction msgs arbitrary: s)
    case Nil
    then show ?case by simp
  next
    case (Cons r msgs)
    from Cons.prems(1) obtain s1 where s1: "TablequeryResultMqttHandler r s = Some s1" "query_ok s1"
      "delivered r (set (querykeys r)) s s1" by (rule handler_spec)
    then have "\<forall>k. \<not> waiting s1 k c" "response_channels s1 ! c = response_channels s ! c"
      "length (response_channels s1) = length (response_channels s)"
      using Cons.prems(2) by (auto simp: delivered_def waiting_def)
    with Cons.IH [OF s1(2)] s1(1) show ?case by auto
  qed
  show ?thesis
    using assms
  proof (induction msgs arbitrary: s)
    case Nil
    then show ?case by simp
  next
    case (Cons r msgs)
    from Cons.prems(1) obtain s1 where s1: "TablequeryResultMqttHandler r s = Some s1" "query_ok s1"
      "delivered r (set (querykeys r)) s s1" by (rule handler_spec)
    have len: "length (response_channels s1) = length (response_channels s)"
      using s1(3) by (simp add: delivered_def)
    show ?case
    proof (cases "key \<in> set (querykeys r)")
      case True
      have "\<not> waiting s1 k c" for k
        using s1(3) True query_ok_key [OF Cons.prems(1,2), of k]
        by (auto simp: delivered_def waiting_def)
      moreover have "ch_buf (response_channels s1 ! c) = [r]"
        using s1(3) True Cons.prems(2) by (auto simp: delivered_def)
      ultimately show ?thesis using idle [OF s1(2), of msgs] True s1(1) len by auto
    next
      case False
      have "waiting s1 key c"
        using s1(3) False Cons.prems(2) by (simp add: delivered_def waiting_def)
      moreover have "\<not> (\<exists>k \<in> set (querykeys r). waiting s k c)"
        using False query_ok_key [OF Cons.prems(1,2)] by blast
      then have "ch_buf (response_channels s1 ! c) = []"
        using s1(3) Cons.prems(3) by (simp add: delivered_def)
      ultimately show ?thesis using Cons.IH [OF s1(2)] s1(1) False len by auto
    qed
  qed
qed

section \<open>Properties\<close>

text \<open>The request cache in use: queries begin, messages arrive and queries end in any order.\<close>

datatype query_op = QBegin string string bool | QMessage TableQueryResponse | QEnd nat

fun query_step :: "query_op \<Rightarrow> NetMqttClient \<Rightarrow> NetMqttClient option" where
  "query_step (QBegin sip sname force) s = Some (snd (query_begin sip sname force s))"
| "query_step (QMessage r) s = TablequeryResultMqttHandler r s"
| "query_step (QEnd c) s = Some (snd (query_end c s))"

fun query_run :: "query_op list \<Rightarrow> NetMqttClient \<Rightarrow> NetMqttClient option" where
  "query_run [] s = Some s"
| "query_run (x # xs) s = do { s1 \<leftarrow> query_step x s; query_run xs s1 }"

lemma query_step_ok: "query_ok s \<Longrightarrow> \<exists>s'. query_step x s = Some s' \<and> query_ok s'"
proof (cases x)
  case (QMessage r)
  assume "query_ok s"
  then obtain s' where "TablequeryResultMqttHandler r s = Some s'" "query_ok s'"
    by (rule handler_spec)
  with QMessage show ?thesis by simp
qed (simp_all add: query_begin_ok query_end_ok)

lemma query_run_ok: "query_ok s \<Longrightarrow> \<exists>s'. query_run xs s = Some s' \<and> query_ok s'"
proof (induction xs arbitrary: s)
  case Nil
  then show ?case by simp
next
  case (Cons x xs)
  from query_step_ok [OF Cons.prems] obtain s1 where "query_step x s = Some s1" "query_ok s1" by blast
  with Cons.IH show ?case by simp
qed

lemma query_ok_init: "siprequests s = (\<lambda>_. None) \<Longrightarrow> response_channels s = [] \<Longrightarrow> query_ok s"
  by (simp add: query_ok_def waiting_def)

text \<open>
  Whatever queries begin and end and whatever responses arrive after the client was created, the
  response handler never blocks on a full channel and never sends on a closed one: every response
  channel holds at most one response.
\<close>

theorem response_handler_never_stuck:
  "\<exists>s. do { s0 \<leftarrow> InitNetMqttClient clientid None; query_run ops s0 } = Some s \<and>
    list_all (\<lambda>ch. length (ch_buf ch) \<le> 1) (response_channels s)"
proof -
  obtain s0 where s0: "InitNetMqttClient clientid None = Some s0" "siprequests s0 = (\<lambda>_. None)"
    "response_channels s0 = []" by (simp add: InitNetMqttClient_def)
  from query_run_ok [OF query_ok_init [OF s0(2,3)], of ops] obtain s where
    "query_run ops s0 = Some s" "query_ok s" by blast
  with s0(1) show ?thesis by (auto simp: query_ok_def list_all_iff)
qed

text \<open>The key is free and the query is not suppressed by a registered interest.\<close>

definition may_query :: "string \<Rightarrow> bool \<Rightarrow> NetMqttClient \<Rightarrow> bool" where
  "may_query key force s \<longleftrightarrow>
     siprequests s key = None \<and> (force \<or> \<not> MqttIsInterestRegistered key s)"

lemma query_begin_may:
  assumes "may_query (sip @ sname) force s"
  obtains c s1 where "query_begin sip sname force s = (Inr c, s1)" "waiting s1 (sip @ sname) c"
    "ch_buf (response_channels s1 ! c) = []"
proof -
  obtain c s1 where b: "query_begin sip sname force s = (Inr c, s1)"
    using assms by (auto simp: may_query_def query_begin_def Let_def)
  from that [OF b query_begin_waits(1,3) [OF b]] show ?thesis .
qed

text \<open>
  C22: A table query that may run always returns, with the first response handled while it waits
  that names its key, as job name, query key or service address of an instance, and with the timeout
  error when there is none.
\<close>

theorem blocking_query_result:
  assumes "query_ok s" and "may_query (sip @ sname) force s"
  shows "map_option fst (tableQueryRequestBlocking sip sname force msgs s) =
    Some (case find (\<lambda>r. sip @ sname \<in> set (querykeys r)) msgs of
            None \<Rightarrow> Inl ''unknown network Mqtt Timeout''
          | Some r \<Rightarrow> Inr r)"
proof -
  from assms(2) obtain c s1 where b: "query_begin sip sname force s = (Inr c, s1)"
    "waiting s1 (sip @ sname) c" "ch_buf (response_channels s1 ! c) = []" by (rule query_begin_may)
  have "query_ok s1" using query_begin_ok [OF assms(1), of sip sname force] b(1) by simp
  from handle_messages_wait [OF this b(2,3), of msgs] b(1) show ?thesis
    by (auto simp: tableQueryRequestBlocking_def query_end_def split: option.splits)
qed

definition sample_client :: NetMqttClient where
  "sample_client =
     \<lparr>clientID = ''n1'', topics = [], broker = [], siprequests = (\<lambda>_. None), response_channels = [],
      subnetworkResponseChannel = None, runningHandlers = NewSlice, timers = [], job_updates = [], event_bus = NewEvents\<rparr>"

lemma sample_client_ok: "query_ok sample_client" "may_query key force sample_client"
  by (simp_all add: sample_client_def query_ok_init may_query_def MqttIsInterestRegistered_def
      Slice_Exists_def Slice_Find_def findLocked_def NewSlice_def first_index_def)

definition sample_response :: TableQueryResponse where
  "sample_response = \<lparr>resp_JobName = ''app.ns.srv.ns'', InstanceList = [], QueryKey = ''10.30.0.5''\<rparr>"

theorem blocking_query_result_witness:
  "map_option fst (tableQueryRequestBlocking ''10.30.0.5'' '''' False [sample_response] sample_client) =
    Some (Inr sample_response)"
  using blocking_query_result [OF sample_client_ok, of "''10.30.0.5''" "''''" False "[sample_response]"]
  by (simp add: sample_response_def querykeys_def)

text \<open>The operations that do not answer a key.\<close>

fun silent :: "string \<Rightarrow> query_op \<Rightarrow> bool" where
  "silent key (QMessage r) = (key \<notin> set (querykeys r))"
| "silent key _ = True"

lemma silent_step:
  assumes "query_ok s" "waiting s key c" "silent key x"
  shows "\<exists>s'. query_step x s = Some s' \<and> query_ok s' \<and> waiting s' key c"
proof (cases x)
  case (QBegin sip sname force)
  have "waiting (snd (query_begin sip sname force s)) key c"
    using assms(2) by (auto simp: query_begin_def Let_def PublishToBroker_def waiting_def split: option.splits)
  with QBegin query_begin_ok [OF assms(1), of sip sname force] show ?thesis by simp
next
  case (QMessage r)
  from assms(1) obtain s1 where "TablequeryResultMqttHandler r s = Some s1" "query_ok s1"
      "delivered r (set (querykeys r)) s s1" by (rule handler_spec)
  with QMessage assms(2,3) show ?thesis by (simp add: delivered_def waiting_def)
next
  case (QEnd c')
  have "waiting (snd (query_end c' s)) key c"
    using assms(2) by (auto simp: query_end_def waiting_def split: list.splits)
  with QEnd query_end_ok [OF assms(1), of c'] show ?thesis by simp
qed

lemma silent_run:
  "query_ok s \<Longrightarrow> waiting s key c \<Longrightarrow> list_all (silent key) xs \<Longrightarrow>
    \<exists>s'. query_run xs s = Some s' \<and> query_ok s' \<and> waiting s' key c"
proof (induction xs arbitrary: s)
  case Nil
  then show ?case by simp
next
  case (Cons x xs)
  then obtain s1 where "query_step x s = Some s1" "query_ok s1" "waiting s1 key c"
    using silent_step [of s key c x] by auto
  with Cons show ?case by simp
qed

lemma query_waiting_refused:
  assumes "waiting s (sip @ sname) c"
  shows "\<exists>s'. tableQueryRequestBlocking sip sname True msgs s =
      Some (Inl ''Table query already happening for this address'', s') \<and> broker s' = broker s"
  using assms by (simp add: tableQueryRequestBlocking_def query_begin_def Let_def waiting_def)



end
