(* ===== verification/JobInterest.thy ===== *)
theory JobInterest
  imports MqttClient
begin

text \<open>
  \<open>mqtt/MqttJobUpdates.go\<close>: the interest in a job and the goroutine that drops it. Every goroutine of
  \<open>startSelfDestructTimeout\<close> is an entry of \<open>timers\<close> with its program counter; each step between two
  locks is one step, so the goroutine, new registrations and emitted events interleave as they can in
  the program. The environment is a parameter of the relation: its test whether a service is deployed
  and its removal of the entries of a job (\<open>jobEnvironmentManagerActions\<close>).
\<close>

section \<open>The timer of a job\<close>

definition set_timer :: "nat \<Rightarrow> string \<Rightarrow> timer_pc \<Rightarrow> NetMqttClient \<Rightarrow> NetMqttClient" where
  "set_timer i job pc s = s\<lparr>timers := (timers s)[i := (job, pc)]\<rparr>"

text \<open>The two cases of the \<open>select\<close>: an event, or ten seconds without one.\<close>

datatype timer_choice = PacketEvent | Timeout

text \<open>
  A receive is possible on a channel that holds an event or is closed. The timeout can win the
  \<open>select\<close> while the channel is open; on a closed channel the receive is ready at once.
\<close>

definition timer_receive :: "nat \<Rightarrow> NetMqttClient \<Rightarrow> NetMqttClient option" where
  "timer_receive c s =
     (let ch = event_channels (event_bus s) ! c in
      case ch_buf ch of
        e # es \<Rightarrow> Some (s\<lparr>event_bus := update_chan c (ch\<lparr>ch_buf := es\<rparr>) (event_bus s)\<rparr>)
      | [] \<Rightarrow> if ch_closed ch then Some s else None)"

fun startSelfDestructTimeout :: "(string \<Rightarrow> 'e \<Rightarrow> bool) \<Rightarrow> (string \<Rightarrow> 'e \<Rightarrow> 'e) \<Rightarrow> timer_choice \<Rightarrow> nat \<Rightarrow>
  string \<Rightarrow> timer_pc \<Rightarrow> NetMqttClient \<times> 'e \<Rightarrow> (NetMqttClient \<times> 'e) option" where
  "startSelfDestructTimeout deployed remove ch i job TStart (s, e) =
     (case Register TableQuery job (event_bus s) of
        (Inr c, b) \<Rightarrow> Some (set_timer i job (TLoop c) (s\<lparr>event_bus := b\<rparr>), e)
      | (Inl err, b) \<Rightarrow> None)"
| "startSelfDestructTimeout deployed remove ch i job (TLoop c) (s, e) =
     (case ch of
        PacketEvent \<Rightarrow> do { s' \<leftarrow> timer_receive c s; Some (s', e) }
      | Timeout \<Rightarrow>
          if ch_closed (event_channels (event_bus s) ! c) then None
          else if \<not> deployed job e then Some (set_timer i job TExpired s, e)
          else Some (s, e))"
| "startSelfDestructTimeout deployed remove ch i job TExpired (s, e) =
     Some (set_timer i job TNotified (cleanInterestTowardsJob job s), e)"
| "startSelfDestructTimeout deployed remove ch i job TNotified (s, e) =
     Some (set_timer i job TUnsubscribed (DeRegisterTopic (job_topic job) s), e)"
| "startSelfDestructTimeout deployed remove ch i job TUnsubscribed (s, e) =
     Some (set_timer i job TRemoved (s\<lparr>runningHandlers := Slice_RemoveElem job (runningHandlers s)\<rparr>), e)"
| "startSelfDestructTimeout deployed remove ch i job TRemoved (s, e) =
     do { b \<leftarrow> DeRegister TableQuery job (event_bus s);
          Some (set_timer i job TDeregistered (s\<lparr>event_bus := b\<rparr>), e) }"
| "startSelfDestructTimeout deployed remove ch i job TDeregistered (s, e) =
     Some (set_timer i job TDone s, remove job e)"
| "startSelfDestructTimeout deployed remove ch i job TDone (s, e) = None"

text \<open>The handler of an update: it starts a refresh of the job's entries and returns.\<close>

definition MessageHandler :: "string \<Rightarrow> NetMqttClient \<Rightarrow> NetMqttClient" where
  "MessageHandler job s = s\<lparr>job_updates := job_updates s @ [job]\<rparr>"

lemma MessageHandler_fields [simp]:
  "timers (MessageHandler job s) = timers s" "topics (MessageHandler job s) = topics s"
  "runningHandlers (MessageHandler job s) = runningHandlers s" "event_bus (MessageHandler job s) = event_bus s"
  "siprequests (MessageHandler job s) = siprequests s" "response_channels (MessageHandler job s) = response_channels s"
  by (simp_all add: MessageHandler_def)

inductive interest_step :: "(string \<Rightarrow> 'e \<Rightarrow> bool) \<Rightarrow> (string \<Rightarrow> 'e \<Rightarrow> 'e) \<Rightarrow>
  NetMqttClient \<times> 'e \<Rightarrow> NetMqttClient \<times> 'e \<Rightarrow> bool" for deployed remove where
  timer: "i < length (timers s) \<Longrightarrow> timers s ! i = (job, pc) \<Longrightarrow>
    startSelfDestructTimeout deployed remove ch i job pc (s, e) = Some t \<Longrightarrow>
    interest_step deployed remove (s, e) t"
| register: "interest_step deployed remove (s, e) (MqttRegisterInterest job s, e)"
| emit: "Emit ev (event_bus s) = Some b \<Longrightarrow>
    interest_step deployed remove (s, e) (s\<lparr>event_bus := b\<rparr>, e)"
| message: "JobUpdateHandler job \<in> set (subscribeHandlerDispatcher topic s) \<Longrightarrow>
    interest_step deployed remove (s, e) (MessageHandler job s, e)"
| environment: "interest_step deployed remove (s, e) (s, e')"

inductive_cases interest_stepE: "interest_step deployed remove p q"

inductive interest_reachable :: "(string \<Rightarrow> 'e \<Rightarrow> bool) \<Rightarrow> (string \<Rightarrow> 'e \<Rightarrow> 'e) \<Rightarrow>
  NetMqttClient \<times> 'e \<Rightarrow> bool" for deployed remove where
  init: "InitNetMqttClient clientid None = Some s \<Longrightarrow> interest_reachable deployed remove (s, e)"
| step: "interest_reachable deployed remove p \<Longrightarrow> interest_step deployed remove p q \<Longrightarrow>
    interest_reachable deployed remove q"

section \<open>Invariant\<close>

text \<open>
  A timer owns the interest of its job until it has taken the job out of the running handlers, and
  keeps the topic of the job until it has unsubscribed.
\<close>

fun owning :: "timer_pc \<Rightarrow> bool" where
  "owning TRemoved = False" | "owning TDeregistered = False" | "owning TDone = False"
| "owning _ = True"

fun subscribed :: "timer_pc \<Rightarrow> bool" where
  "subscribed TUnsubscribed = False" | "subscribed pc = owning pc"

definition owners :: "string \<Rightarrow> NetMqttClient \<Rightarrow> nat" where
  "owners job s = length (filter (\<lambda>t. fst t = job \<and> owning (snd t)) (timers s))"

definition subscribers :: "string \<Rightarrow> NetMqttClient \<Rightarrow> nat" where
  "subscribers job s = length (filter (\<lambda>t. fst t = job \<and> subscribed (snd t)) (timers s))"

definition interest_ok :: "NetMqttClient \<Rightarrow> bool" where
  "interest_ok s \<longleftrightarrow> events_ok (event_bus s) \<and>
     (\<forall>job. owners job s = count (slice_elems (runningHandlers s)) job \<and> owners job s \<le> 1 \<and>
        map_of (topics s) (job_topic job) =
          (if subscribers job s = 0 then None else Some (JobUpdateHandler job)))"

lemma subscribed_owning: "subscribed pc \<Longrightarrow> owning pc"
  by (cases pc) simp_all

lemma subscribers_le: "subscribers job s \<le> owners job s"
  unfolding subscribers_def owners_def
proof (induction "timers s" arbitrary: s)
  case (Cons t ts)
  then show ?case by (cases "timers s") (auto simp: subscribed_owning dest: meta_spec [of _ "s\<lparr>timers := ts\<rparr>"])
qed simp

lemma length_filter_update:
  assumes "i < length xs"
  shows "length (filter P (xs[i := y])) + (if P (xs ! i) then 1 else 0) =
    length (filter P xs) + (if P y then 1 else 0)"
  using assms
proof (induction xs arbitrary: i)
  case (Cons x xs)
  then show ?case by (cases i) auto
qed simp

lemma job_topic_inject [simp]: "job_topic a = job_topic b \<longleftrightarrow> a = b"
  by (simp add: job_topic_def)

lemma timer_fields [simp]:
  "timers (set_timer i job pc s) = (timers s)[i := (job, pc)]"
  "event_bus (set_timer i job pc s) = event_bus s"
  "topics (set_timer i job pc s) = topics s"
  "runningHandlers (set_timer i job pc s) = runningHandlers s"
  by (simp_all add: set_timer_def)

lemma interest_okD:
  assumes "interest_ok s"
  shows "events_ok (event_bus s)" "owners job s = count (slice_elems (runningHandlers s)) job"
    "owners job s \<le> 1" "subscribers job s \<le> 1"
    "map_of (topics s) (job_topic job) = (if subscribers job s = 0 then None else Some (JobUpdateHandler job))"
  using assms subscribers_le [of job s] order_trans unfolding interest_ok_def by blast+

lemma interest_ok_cong:
  assumes "timers s' = timers s" "topics s' = topics s" "runningHandlers s' = runningHandlers s"
    "events_ok (event_bus s')" "interest_ok s"
  shows "interest_ok s'"
proof -
  have o: "owners k s' = owners k s" "subscribers k s' = subscribers k s" for k
    by (simp_all add: owners_def subscribers_def assms(1))
  from assms(4,5) show ?thesis
    unfolding interest_ok_def assms(2,3) o by blast
qed

text \<open>Moving one timer changes the counts of its job only.\<close>

lemma owners_move:
  assumes "i < length (timers s)" "timers s ! i = (job, pc)" "timers s' = (timers s)[i := (job, pc')]"
  shows "owners k s' + (if k = job \<and> owning pc then 1 else 0) = owners k s + (if k = job \<and> owning pc' then 1 else 0)"
    and "subscribers k s' + (if k = job \<and> subscribed pc then 1 else 0) =
      subscribers k s + (if k = job \<and> subscribed pc' then 1 else 0)"
  using length_filter_update [OF assms(1), of "\<lambda>t. fst t = k \<and> owning (snd t)" "(job, pc')"]
    length_filter_update [OF assms(1), of "\<lambda>t. fst t = k \<and> subscribed (snd t)" "(job, pc')"]
  by (auto simp: owners_def subscribers_def assms(2,3))

lemma timer_step_ok:
  assumes ok: "interest_ok s" and i: "i < length (timers s)" "timers s ! i = (job, pc)"
    and st: "startSelfDestructTimeout deployed remove ch i job pc (s, e) = Some (s', e')"
  shows "interest_ok s'"
proof -
  note D = interest_okD [OF ok]
  have keep: "interest_ok s'"
    if "timers s' = (timers s)[i := (job, pc')]" "owning pc' = owning pc" "subscribed pc' = subscribed pc"
      "events_ok (event_bus s')" "topics s' = topics s" "runningHandlers s' = runningHandlers s" for pc'
  proof -
    have "owners k s' = owners k s" "subscribers k s' = subscribers k s" for k
      using owners_move [OF i that(1), of k] that(2,3) by simp_all
    with that D show ?thesis by (simp add: interest_ok_def)
  qed
  show ?thesis
  proof (cases pc)
    case TStart
    with st obtain c b where "Register TableQuery job (event_bus s) = (Inr c, b)"
      and s': "s' = set_timer i job (TLoop c) (s\<lparr>event_bus := b\<rparr>)"
      by (auto split: prod.splits sum.splits)
    with Register_ok [OF D(1), of TableQuery job] TStart show ?thesis by (intro keep [of "TLoop c"]) simp_all
  next
    case (TLoop c)
    show ?thesis
    proof (cases ch)
      case PacketEvent
      with st TLoop have r: "timer_receive c s = Some s'" by (auto simp: bind_eq_Some_conv)
      have "events_ok (event_bus s')"
      proof (cases "ch_buf (event_channels (event_bus s) ! c)")
        case Nil
        with r D(1) show ?thesis by (auto simp: timer_receive_def Let_def split: if_splits)
      next
        case (Cons ev evs)
        have "events_ok (update_chan c ((event_channels (event_bus s) ! c)\<lparr>ch_buf := evs\<rparr>) (event_bus s))"
        proof (cases "c < length (event_channels (event_bus s))")
          case True
          with D(1) Cons show ?thesis
            by (intro events_ok_buf) (auto simp: events_ok_def list_all_length)
        next
          case False
          with D(1) show ?thesis by (simp add: update_chan_def list_update_beyond)
        qed
        with r Cons show ?thesis by (auto simp: timer_receive_def)
      qed
      moreover have "timers s' = timers s" "topics s' = topics s" "runningHandlers s' = runningHandlers s"
        using r by (auto simp: timer_receive_def Let_def split: list.splits if_splits)
      moreover have "(timers s)[i := (job, TLoop c)] = timers s"
        using list_update_id [of "timers s" i] i(2) TLoop by simp
      ultimately show ?thesis using TLoop by (intro keep [of "TLoop c"]) simp_all
    next
      case Timeout
      with st TLoop have "s' = set_timer i job TExpired s \<or> s' = s" by (auto split: if_splits)
      with ok D(1) TLoop show ?thesis using keep [of TExpired] by auto
    qed
  next
    case TExpired
    with st D(1) show ?thesis
      by (intro keep [of TNotified]) (auto simp: cleanInterestTowardsJob_def PublishToBroker_def)
  next
    case TNotified
    with st have s': "s' = set_timer i job TUnsubscribed (DeRegisterTopic (job_topic job) s)" by simp
    then have t: "timers s' = (timers s)[i := (job, TUnsubscribed)]" by (simp add: DeRegisterTopic_def)
    note m = owners_move [OF i t, unfolded TNotified]
    have "owners k s' = owners k s" for k using m(1) [of k] by simp
    moreover have "subscribers k s' = (if k = job then 0 else subscribers k s)" for k
      using m(2) [of k] D(4) [of k] by auto
    ultimately show ?thesis
      using D s' by (simp add: interest_ok_def DeRegisterTopic_def map_of_delete restrict_map_def
        delete_conv)
  next
    case TUnsubscribed
    with st have s': "s' = set_timer i job TRemoved (s\<lparr>runningHandlers := Slice_RemoveElem job (runningHandlers s)\<rparr>)"
      by simp
    then have t: "timers s' = (timers s)[i := (job, TRemoved)]" by simp
    note m = owners_move [OF i t, unfolded TUnsubscribed]
    have o: "owners k s' = owners k s - (if k = job then 1 else 0)" and sub: "subscribers k s' = subscribers k s" for k
      using m(1) [of k] m(2) [of k] by simp_all
    have "count (slice_elems (runningHandlers s')) k =
        count (slice_elems (runningHandlers s)) k - (if k = job then 1 else 0)" for k
      using s' by (simp add: slice.elems_remove)
    then have "owners k s' = count (slice_elems (runningHandlers s')) k" for k
      using o D(2) by simp
    moreover have "owners k s' \<le> 1" for k
      using o [of k] D(3) [of k] by simp
    ultimately show ?thesis
      using D(1,5) s' sub by (simp add: interest_ok_def)
  next
    case TRemoved
    with st obtain b where "DeRegister TableQuery job (event_bus s) = Some b"
      "s' = set_timer i job TDeregistered (s\<lparr>event_bus := b\<rparr>)" by (auto simp: bind_eq_Some_conv)
    with DeRegister_ok [OF D(1), of TableQuery job] TRemoved show ?thesis
      by (intro keep [of TDeregistered]) auto
  next
    case TDeregistered
    with st D(1) show ?thesis by (intro keep [of TDone]) auto
  next
    case TDone
    with st show ?thesis by simp
  qed
qed

lemma register_ok:
  assumes ok: "interest_ok s" shows "interest_ok (MqttRegisterInterest job s)"
proof (cases "Slice_Exists job (runningHandlers s)")
  case True
  with ok show ?thesis by (simp add: MqttRegisterInterest_def)
next
  case False
  note D = interest_okD [OF ok]
  let ?s' = "MqttRegisterInterest job s"
  have zero: "count (slice_elems (runningHandlers s)) job = 0"
    using False slice.exists_iff [of job "runningHandlers s"] by (simp add: not_in_iff)
  have t: "timers ?s' = timers s @ [(job, TStart)]" "event_bus ?s' = event_bus s"
    "topics ?s' = AList.update (job_topic job) (JobUpdateHandler job) (topics s)"
    "runningHandlers ?s' = Slice_Add job (runningHandlers s)"
    using False by (simp_all add: MqttRegisterInterest_def Let_def RegisterTopic_def)
  have o: "owners k ?s' = owners k s + (if k = job then 1 else 0)"
    "subscribers k ?s' = subscribers k s + (if k = job then 1 else 0)" for k
    by (simp_all add: owners_def subscribers_def t)
  have "owners k ?s' = count (slice_elems (runningHandlers ?s')) k" for k
    using o(1) D(2) by (simp add: t slice.elems_add)
  moreover have "owners k ?s' \<le> 1" for k
    using o(1) [of k] D(2) [of job] D(3) [of k] zero by simp
  ultimately show ?thesis
    using D(1,5) by (simp add: interest_ok_def t o update_conv)
qed

lemma interest_step_ok:
  assumes "interest_step deployed remove p q" "interest_ok (fst p)"
  shows "interest_ok (fst q)"
  using assms
proof (cases rule: interest_step.cases)
  case (timer i s job pc ch e)
  then show ?thesis using timer_step_ok assms(2) by (metis fst_conv surj_pair)
next
  case (register s e job)
  then show ?thesis using register_ok assms(2) by simp
next
  case (emit ev s b e)
  then have "events_ok b" using Emit_ok [of "event_bus s" ev] assms(2) by (auto simp: interest_ok_def)
  with emit assms(2) show ?thesis using interest_ok_cong [of "s\<lparr>event_bus := b\<rparr>" s] by simp
next
  case (message job topic s e)
  with assms(2) interest_okD(1) [of s] show ?thesis using interest_ok_cong [of "MessageHandler job s" s] by simp
next
  case (environment s e e')
  then show ?thesis using assms(2) by simp
qed

lemma interest_ok_init: "InitNetMqttClient clientid None = Some s \<Longrightarrow> interest_ok s"
  by (auto simp: InitNetMqttClient_def interest_ok_def events_ok_New owners_def subscribers_def
      slice.elems_empty job_topic_def net_topic_def)

lemma interest_reachable_ok: "interest_reachable deployed remove p \<Longrightarrow> interest_ok (fst p)"
  by (induction rule: interest_reachable.induct) (auto simp: interest_ok_init intro: interest_step_ok)

lemma interest_ok_owners:
  assumes "interest_ok s"
  shows "owners job s = (if MqttIsInterestRegistered job s then 1 else 0)"
  using interest_okD(2,3) [OF assms, of job] slice.exists_iff [of job "runningHandlers s"]
  by (auto simp: MqttIsInterestRegistered_def not_in_iff simp flip: count_greater_zero_iff)

section \<open>Properties\<close>


text \<open>A closed channel stays closed under every operation of the bus.\<close>

definition closed_in :: "nat \<Rightarrow> Events \<Rightarrow> bool" where
  "closed_in c b \<longleftrightarrow> c < length (event_channels b) \<and> ch_closed (event_channels b ! c)"

text \<open>A timer that waits on a closed channel.\<close>

definition spinning :: "nat \<Rightarrow> string \<Rightarrow> nat \<Rightarrow> NetMqttClient \<Rightarrow> bool" where
  "spinning i job c s \<longleftrightarrow> i < length (timers s) \<and> timers s ! i = (job, TLoop c) \<and> closed_in c (event_bus s)"

lemma closed_update:
  assumes "closed_in c b" "ch_closed ch = ch_closed (event_channels b ! d) \<or> ch_closed ch"
  shows "closed_in c (update_chan d ch b)"
  using assms by (cases "d = c") (auto simp: closed_in_def update_chan_def)

lemma closed_queue [simp]: "closed_in c (b\<lparr>eventTableQueryChannelQueue := q\<rparr>) = closed_in c b"
  by (simp add: closed_in_def)

lemma closed_Emit: "Emit ev b = Some b' \<Longrightarrow> closed_in c b \<Longrightarrow> closed_in c b'"
  by (auto simp: Emit_def Let_def chan_send_def bind_eq_Some_conv intro!: closed_update
      split: if_splits option.splits)

lemma closed_Register: "Register ty t b = (r, b') \<Longrightarrow> closed_in c b \<Longrightarrow> closed_in c b'"
  by (auto simp: Register_def Let_def closed_in_def nth_append split: if_splits option.splits)

lemma closed_DeRegister: "DeRegister ty t b = Some b' \<Longrightarrow> closed_in c b \<Longrightarrow> closed_in c b'"
  by (auto simp: DeRegister_def chan_close_def bind_eq_Some_conv intro!: closed_update
      split: if_splits option.splits)

lemma timer_receive_closed: "timer_receive d s = Some s' \<Longrightarrow> closed_in c (event_bus s) \<Longrightarrow>
    closed_in c (event_bus s')"
  by (auto simp: timer_receive_def Let_def intro!: closed_update split: list.splits if_splits)

lemma timer_step_closed:
  assumes "startSelfDestructTimeout deployed remove ch j job' pc (s, e) = Some (s', e')"
    "closed_in c (event_bus s)"
  shows "closed_in c (event_bus s')"
  using assms
  by (cases pc; cases ch)
     (auto simp: bind_eq_Some_conv cleanInterestTowardsJob_def PublishToBroker_def DeRegisterTopic_def
       dest: closed_Register closed_DeRegister timer_receive_closed
       split: prod.splits sum.splits if_splits)

lemma timer_step_timers:
  "startSelfDestructTimeout deployed remove ch j job' pc (s, e) = Some (s', e') \<Longrightarrow>
    timers s' = timers s \<or> (\<exists>pc'. timers s' = (timers s)[j := (job', pc')])"
  by (cases pc; cases ch)
     (auto simp: timer_receive_def Let_def bind_eq_Some_conv cleanInterestTowardsJob_def
       PublishToBroker_def DeRegisterTopic_def split: prod.splits sum.splits list.splits if_splits)

lemma spinning_step:
  assumes "interest_step deployed remove (s, e) (s', e')" "spinning i job c s"
  shows "spinning i job c s'"
  using assms(1)
proof (cases rule: interest_step.cases)
  case (timer j job' pc ch)
  have closed: "closed_in c (event_bus s')"
    using timer_step_closed [OF timer(3)] assms(2) by (simp add: spinning_def)
  show ?thesis
  proof (cases "j = i")
    case False
    with timer_step_timers [OF timer(3)] closed assms(2) show ?thesis by (auto simp: spinning_def)
  next
    case True
    with timer assms(2) have pc: "pc = TLoop c" "job' = job" by (auto simp: spinning_def)
    have "timers s' = timers s"
      using timer(3) assms(2) unfolding pc
      by (cases ch) (auto simp: timer_receive_def Let_def bind_eq_Some_conv spinning_def closed_in_def
          split: list.splits if_splits)
    with closed assms(2) show ?thesis by (simp add: spinning_def)
  qed
next
  case (register job')
  then show ?thesis using assms(2)
    by (simp add: spinning_def MqttRegisterInterest_def Let_def RegisterTopic_def nth_append)
next
  case (emit ev b)
  then show ?thesis using assms(2) by (auto simp: spinning_def dest: closed_Emit)
next
  case (message job' topic)
  then show ?thesis using assms(2) by (simp add: spinning_def)
next
  case environment
  then show ?thesis using assms(2) by simp
qed

inductive interest_steps :: "(string \<Rightarrow> 'e \<Rightarrow> bool) \<Rightarrow> (string \<Rightarrow> 'e \<Rightarrow> 'e) \<Rightarrow>
  NetMqttClient \<times> 'e \<Rightarrow> NetMqttClient \<times> 'e \<Rightarrow> bool" for deployed remove where
  refl: "interest_steps deployed remove p p"
| trans: "interest_steps deployed remove p q \<Longrightarrow> interest_step deployed remove q r \<Longrightarrow>
    interest_steps deployed remove p r"

lemma interest_steps_reachable:
  "interest_steps deployed remove p q \<Longrightarrow> interest_reachable deployed remove p \<Longrightarrow>
    interest_reachable deployed remove q"
  by (induction rule: interest_steps.induct) (auto intro: interest_reachable.step)

lemma spinning_steps:
  "interest_steps deployed remove p q \<Longrightarrow> spinning i job c (fst p) \<Longrightarrow> spinning i job c (fst q)"
  by (induction rule: interest_steps.induct) (auto intro: spinning_step)

section \<open>Schedules\<close>

text \<open>An execution of the step relation: which goroutine moves, with its choice in the \<open>select\<close>.\<close>

datatype schedule = SRegister string | STimer nat timer_choice | SMessage string

fun schedule_step :: "(string \<Rightarrow> 'e \<Rightarrow> bool) \<Rightarrow> (string \<Rightarrow> 'e \<Rightarrow> 'e) \<Rightarrow> schedule \<Rightarrow>
  NetMqttClient \<times> 'e \<Rightarrow> (NetMqttClient \<times> 'e) option" where
  "schedule_step deployed remove (SRegister job) (s, e) = Some (MqttRegisterInterest job s, e)"
| "schedule_step deployed remove (STimer i ch) (s, e) =
     (if i < length (timers s)
      then startSelfDestructTimeout deployed remove ch i (fst (timers s ! i)) (snd (timers s ! i)) (s, e)
      else None)"
| "schedule_step deployed remove (SMessage topic) (s, e) =
     (case subscribeHandlerDispatcher topic s of
        [JobUpdateHandler job] \<Rightarrow> Some (MessageHandler job s, e)
      | _ \<Rightarrow> None)"

fun schedule_run :: "(string \<Rightarrow> 'e \<Rightarrow> bool) \<Rightarrow> (string \<Rightarrow> 'e \<Rightarrow> 'e) \<Rightarrow> schedule list \<Rightarrow>
  NetMqttClient \<times> 'e \<Rightarrow> (NetMqttClient \<times> 'e) option" where
  "schedule_run deployed remove [] p = Some p"
| "schedule_run deployed remove (x # xs) p =
     do { q \<leftarrow> schedule_step deployed remove x p; schedule_run deployed remove xs q }"

lemma schedule_step_sound:
  "schedule_step deployed remove x p = Some q \<Longrightarrow> interest_step deployed remove p q"
proof (cases p)
  case (Pair s e)
  assume st: "schedule_step deployed remove x p = Some q"
  show ?thesis
  proof (cases x)
    case (SRegister job)
    with st Pair show ?thesis by (auto intro: interest_step.register)
  next
    case (STimer i ch)
    with st Pair have "i < length (timers s)" "startSelfDestructTimeout deployed remove ch i
        (fst (timers s ! i)) (snd (timers s ! i)) (s, e) = Some q" by (auto split: if_splits)
    with Pair show ?thesis by (auto intro!: interest_step.timer [of i s "fst (timers s ! i)"])
  next
    case (SMessage topic)
    with st Pair obtain job where "subscribeHandlerDispatcher topic s = [JobUpdateHandler job]" "q = (MessageHandler job s, e)"
      by (auto split: list.splits handler.splits)
    with Pair show ?thesis by (auto intro!: interest_step.message [of job topic])
  qed
qed

lemma schedule_run_reachable:
  "schedule_run deployed remove xs p = Some q \<Longrightarrow> interest_reachable deployed remove p \<Longrightarrow>
    interest_reachable deployed remove q"
proof (induction xs arbitrary: p)
  case (Cons x xs)
  then obtain r where "schedule_step deployed remove x p = Some r" "schedule_run deployed remove xs r = Some q"
    by (auto simp: bind_eq_Some_conv)
  with Cons show ?case by (blast intro: interest_reachable.step schedule_step_sound)
qed simp

text \<open>
  The timer of a job that nothing uses gives up and has left the running handlers, but not yet
  deregistered from the bus, when the interest is registered again.
\<close>

definition reregistration :: "string \<Rightarrow> schedule list" where
  "reregistration job =
     [SRegister job, STimer 0 Timeout, STimer 0 Timeout, STimer 0 Timeout, STimer 0 Timeout,
      STimer 0 Timeout, SRegister job, STimer 1 Timeout, STimer 0 Timeout]"

definition fresh_client :: NetMqttClient where
  "fresh_client = the (InitNetMqttClient ''n1'' None)"

lemma fresh_client_init: "InitNetMqttClient ''n1'' None = Some fresh_client"
  by (simp add: InitNetMqttClient_def fresh_client_def)

definition after_reregistration :: "NetMqttClient \<times> unit" where
  "after_reregistration =
     the (schedule_run (\<lambda>_ _. False) (\<lambda>_ e. e) (reregistration ''j'') (fresh_client, ()))"

lemma reregistration_runs:
  "schedule_run (\<lambda>_ _. False) (\<lambda>_ e. e) (reregistration ''j'') (fresh_client, ()) =
     Some after_reregistration \<and>
   spinning 1 ''j'' 0 (fst after_reregistration) \<and>
   MqttIsInterestRegistered ''j'' (fst after_reregistration)"
proof -
  have "\<exists>q. schedule_run (\<lambda>_ _. False) (\<lambda>_ e. e) (reregistration ''j'') (fresh_client, ()) = Some q \<and>
      spinning 1 ''j'' 0 (fst q) \<and> MqttIsInterestRegistered ''j'' (fst q)"
    by (simp add: reregistration_def fresh_client_def InitNetMqttClient_def MqttRegisterInterest_def
        Slice_Exists_def Slice_Find_def findLocked_def NewSlice_def first_index_def RegisterTopic_def
        set_timer_def Register_def NewEvents_def make_chan_def cleanInterestTowardsJob_def
        PublishToBroker_def DeRegisterTopic_def Slice_RemoveElem_def removeLocked_def Slice_Add_def
        DeRegister_def chan_close_def update_chan_def spinning_def closed_in_def
        MqttIsInterestRegistered_def)
  then show ?thesis by (auto simp: after_reregistration_def)
qed

lemma after_reregistration_reachable: "interest_reachable (\<lambda>_ _. False) (\<lambda>_ e. e) after_reregistration"
proof (rule schedule_run_reachable)
  show "schedule_run (\<lambda>_ _. False) (\<lambda>_ e. e) (reregistration ''j'') (fresh_client, ()) =
     Some after_reregistration" using reregistration_runs by (rule conjunct1)
  show "interest_reachable (\<lambda>_ _. False) (\<lambda>_ e. e) (fresh_client, ())"
    using fresh_client_init by (rule interest_reachable.init)
qed

lemma after_pair: "(fst after_reregistration, ()) = after_reregistration"
  by (rule prod_eqI) simp_all


lemma spinning_registered:
  assumes "interest_ok s" "spinning i job c s"
  shows "MqttIsInterestRegistered job s"
proof -
  have "(job, TLoop c) \<in> set (timers s)"
    using assms(2) unfolding spinning_def by (metis nth_mem)
  then have "(job, TLoop c) \<in> set (filter (\<lambda>t. fst t = job \<and> owning (snd t)) (timers s))" by simp
  then have "owners job s > 0"
    unfolding owners_def by (metis length_pos_if_in_set)
  with interest_okD(2) [OF assms(1), of job] have "job \<in># slice_elems (runningHandlers s)"
    by (simp flip: count_greater_zero_iff)
  then show ?thesis by (simp add: MqttIsInterestRegistered_def slice.exists_iff)
qed

text \<open>
  A timer that waits on a closed channel never gives up: whatever happens afterwards, with the
  job undeployed and unused, it stays in its loop and the interest in the job stays registered.
\<close>

theorem timer_on_closed_channel_never_expires:
  assumes "interest_reachable deployed remove p" and "spinning i job c (fst p)"
    and "interest_steps deployed remove p q"
  shows "timers (fst q) ! i = (job, TLoop c) \<and> MqttIsInterestRegistered job (fst q)"
proof -
  have sp: "spinning i job c (fst q)" using spinning_steps [OF assms(3,2)] .
  moreover have "interest_ok (fst q)"
    using interest_reachable_ok [OF interest_steps_reachable [OF assms(3,1)]] .
  ultimately show ?thesis using spinning_registered by (auto simp: spinning_def)
qed

theorem timer_on_closed_channel_never_expires_witness:
  "timers (fst after_reregistration) ! 1 = (''j'', TLoop 0) \<and>
    MqttIsInterestRegistered ''j'' (fst after_reregistration)"
proof (rule timer_on_closed_channel_never_expires)
  show "interest_reachable (\<lambda>_ _. False) (\<lambda>_ e. e) after_reregistration"
    by (rule after_reregistration_reachable)
  show "spinning 1 ''j'' 0 (fst after_reregistration)" using reregistration_runs by simp
  show "interest_steps (\<lambda>_ _. False) (\<lambda>_ e. e) after_reregistration after_reregistration"
    by (rule interest_steps.refl)
qed


end
