(* ===== verification/Environment.thy ===== *)
theory Environment
  imports TableCache NetUtils NatRules MqttClient
begin

text \<open>
  \<open>env/EnvironmentManager.go\<close> and \<open>env/tableQueryRequests.go\<close>: the state of the node's network, the
  pools of container addresses, the links and namespaces of a container, and the resolution of
  service addresses through the local table or a table query.

  What the host answers (link and namespace requests, executed commands, the list of devices, the
  environment variables, the hash of a name) is an argument. The fields of the Go struct that no
  code reads (\<open>nodeNetwork\<close>, \<open>nodeNetworkv6\<close>, \<open>nameSpaces\<close>, \<open>networkInterfaces\<close>) are left out.
\<close>

section \<open>State\<close>

record Configuration =
  HostBridgeName :: string
  HostBridgeIP :: string
  HostBridgeMask :: string
  HostBridgeIPv6 :: string
  HostBridgeIPv6Prefix :: string
  HostTunName :: string
  ConnectedInternetInterface :: string
  Mtusize :: int

record Veth =
  veth_Name :: string
  veth_PeerName :: string
  veth_MTU :: int

record service =
  srv_ip :: ip
  srv_ipv6 :: ip
  srv_sname :: string
  srv_portmapping :: string
  srv_veth :: Veth

record Environment =
  nextVethNumber :: int
  proxyName :: string
  config :: Configuration
  env_table :: TableManager
  deployedServices :: "(string \<times> service) list"
  nextContainerIP :: ip
  nextContainerIPv6 :: ip
  totNextAddr :: int
  totNextAddrv6 :: int
  addrCache :: "ip list"
  addrCachev6 :: "ip list"
  clusterPort :: string
  clusterAddr :: string
  mtusize :: int

text \<open>A node: its environment, the operating system and the MQTT client.\<close>

record 'w node =
  node_env :: Environment
  node_os :: 'w
  node_mqtt :: NetMqttClient

text \<open>A request to the system, and an operation of the environment, as processes over the node.\<close>

definition on_os :: "('w \<Rightarrow> error option \<times> 'w) \<Rightarrow> ('w node, unit) proc" where
  "on_os f s = (case f (node_os s) of
     (None, w) \<Rightarrow> Some (Inr (), s\<lparr>node_os := w\<rparr>)
   | (Some e, w) \<Rightarrow> Some (Inl e, s\<lparr>node_os := w\<rparr>))"

definition on_env :: "(Environment \<Rightarrow> ((error + 'a) \<times> Environment) option) \<Rightarrow> ('w node, 'a) proc" where
  "on_env f s = (case f (node_env s) of
     None \<Rightarrow> None
   | Some (r, e) \<Rightarrow> Some (r, s\<lparr>node_env := e\<rparr>))"

section \<open>Addresses\<close>

definition generateAddress :: "Environment \<Rightarrow> ((error + ip) \<times> Environment) option" where
  "generateAddress env =
     (case addrCache env of
        a # rest \<Rightarrow> Some (Inr a, env\<lparr>addrCache := rest\<rparr>)
      | [] \<Rightarrow>
          let result = nextContainerIP env in
          if totNextAddr env < 62 then
            (let env1 = env\<lparr>totNextAddr := totNextAddr env + 1\<rparr> in
             do { next \<leftarrow> NextIPv4 (nextContainerIP env1) 1;
                  Some (Inr result, env1\<lparr>nextContainerIP := next\<rparr>) })
          else Some (Inl ''IPv4 address space exhausted'', env))"

definition generateIPv6Address :: "Environment \<Rightarrow> ((error + ip) \<times> Environment) option" where
  "generateIPv6Address env =
     (case addrCachev6 env of
        a # rest \<Rightarrow> Some (Inr a, env\<lparr>addrCachev6 := rest\<rparr>)
      | [] \<Rightarrow>
          let result = nextContainerIPv6 env in
          if totNextAddrv6 env < 255 then
            (let env1 = env\<lparr>totNextAddrv6 := totNextAddrv6 env + 1\<rparr> in
             do { next \<leftarrow> NextIPv6 (nextContainerIPv6 env1) 1;
                  Some (Inr result, env1\<lparr>nextContainerIPv6 := next\<rparr>) })
          else Some (Inl ''IPv6 address space exhausted'', env))"

definition freeContainerAddress :: "ip \<Rightarrow> Environment \<Rightarrow> Environment" where
  "freeContainerAddress a env =
     (if To4 a \<noteq> None then env\<lparr>addrCache := addrCache env @ [a]\<rparr>
      else if To16 a \<noteq> None then env\<lparr>addrCachev6 := addrCachev6 env @ [a]\<rparr>
      else env)"

definition BookVethNumber :: "Environment \<Rightarrow> Environment" where
  "BookVethNumber env = env\<lparr>nextVethNumber := nextVethNumber env + 1\<rparr>"

definition IsServiceDeployed :: "string \<Rightarrow> Environment \<Rightarrow> bool" where
  "IsServiceDeployed jobName env \<longleftrightarrow> list_ex (\<lambda>(k, s). srv_sname s = jobName) (deployedServices env)"

section \<open>Links and namespaces\<close>

definition Destroy :: "'w os \<Rightarrow> Environment \<Rightarrow> 'w \<Rightarrow> 'w" where
  "Destroy os env w = ignoring os (LinkDel (HostBridgeName (config env))) w"

text \<open>\<open>hash\<close> is \<open>NameUniqueHash\<close>, a prefix of a cryptographic hash of the name.\<close>

definition createVethsPairAndAttachToBridge ::
  "'w os \<Rightarrow> (string \<Rightarrow> nat \<Rightarrow> string) \<Rightarrow> string \<Rightarrow> int \<Rightarrow> ('w node, Veth) proc" where
  "createVethsPairAndAttachToBridge os hash sname mtu s =
     (let env = node_env s;
          bridge = HostBridgeName (config env);
          hashedName = hash sname 4;
          veth1name = ''veth'' @ ''00'' @ Itoa (nextVethNumber env) @ hashedName;
          veth2name = ''veth'' @ ''01'' @ Itoa (nextVethNumber env) @ hashedName;
          veth = \<lparr>veth_Name = veth1name, veth_PeerName = veth2name, veth_MTU = mtu\<rparr>
      in go_try (on_os (os (LinkByName bridge))) id (\<lambda>_.
         go_try (on_os (os (LinkAdd veth1name veth2name mtu))) id (\<lambda>_.
         go_try (on_os (os (LinkSetMaster veth1name bridge))) id (\<lambda>_.
         go_try (on_os (os (LinkSetUp veth1name))) id (\<lambda>_.
         go_return veth)))) s)"

definition setVethFirewallRules :: "'w os \<Rightarrow> Environment \<Rightarrow> string \<Rightarrow> 'w \<Rightarrow> error option \<times> 'w" where
  "setVethFirewallRules os env bridgeVethName =
     os_seq os
       [Exec [''iptables'', ''-A'', ''FORWARD'', ''-o'', HostBridgeName (config env), ''-i'', bridgeVethName, ''-j'', ''ACCEPT''],
        Exec [''iptables'', ''-A'', ''FORWARD'', ''-i'', HostBridgeName (config env), ''-o'', bridgeVethName, ''-j'', ''ACCEPT'']]"

text \<open>
  Running a function inside a namespace: the deferred calls restore the namespace of the thread, when
  the target was found, and close the handle, when the current one was.
\<close>

definition exec_in_namespace :: "'w os \<Rightarrow> os_call \<Rightarrow> os_call \<Rightarrow> ('w \<Rightarrow> error option \<times> 'w) \<Rightarrow>
  'w \<Rightarrow> error option \<times> 'w" where
  "exec_in_namespace os getTarget setTarget function w =
     (case os NsGet w of
        (Some err, w) \<Rightarrow> (Some err, w)
      | (None, w) \<Rightarrow>
          (case os getTarget w of
             (Some err, w) \<Rightarrow> (Some err, ignoring os NsClose w)
           | (None, w) \<Rightarrow>
               (case (case os setTarget w of
                        (Some err, w) \<Rightarrow> (Some err, w)
                      | (None, w) \<Rightarrow> function w) of
                  (r, w) \<Rightarrow> (r, ignoring os NsClose (ignoring os NsRestore w)))))"

definition execInsideNs :: "'w os \<Rightarrow> int \<Rightarrow> ('w \<Rightarrow> error option \<times> 'w) \<Rightarrow> 'w \<Rightarrow> error option \<times> 'w" where
  "execInsideNs os pid function = exec_in_namespace os (NsGetFromPid pid) (NsSetPid pid) function"

definition execInsideNsByName :: "'w os \<Rightarrow> string \<Rightarrow> ('w \<Rightarrow> error option \<times> 'w) \<Rightarrow> 'w \<Rightarrow> error option \<times> 'w" where
  "execInsideNsByName os Nsname function =
     exec_in_namespace os (NsGetFromName Nsname) (NsSetName Nsname) function"

definition setContainerRoutes :: "'w os \<Rightarrow> Environment \<Rightarrow> int \<Rightarrow> string \<Rightarrow> 'w \<Rightarrow> error option \<times> 'w" where
  "setContainerRoutes os env containerPid peerVeth =
     execInsideNs os containerPid (os_seq os
       [LinkByName peerVeth, ParseAddr ''0.0.0.0/0'',
        RouteAdd peerVeth ''0.0.0.0/0'' (IP_String (ParseIP (HostBridgeIP (config env))))])"

definition setIPv6ContainerRoutes :: "'w os \<Rightarrow> Environment \<Rightarrow> int \<Rightarrow> string \<Rightarrow> 'w \<Rightarrow> error option \<times> 'w" where
  "setIPv6ContainerRoutes os env containerPid peerVeth =
     execInsideNs os containerPid (os_seq os
       [LinkByName peerVeth, ParseAddr ''::/0'',
        RouteAdd peerVeth ''::/0'' (IP_String (ParseIP (HostBridgeIPv6 (config env))))])"

definition addPeerLinkNetwork :: "'w os \<Rightarrow> int \<Rightarrow> string \<Rightarrow> string \<Rightarrow> 'w \<Rightarrow> error option \<times> 'w" where
  "addPeerLinkNetwork os nspid addr vethname w =
     (case os (ParseAddr addr) w of
        (Some err, w) \<Rightarrow> (Some err, w)
      | (None, w) \<Rightarrow> execInsideNs os nspid
          (os_seq os [LinkByName vethname, AddrAdd vethname addr, LinkSetUp vethname]) w)"

definition addPeerLinkNetworkByNsName :: "'w os \<Rightarrow> string \<Rightarrow> string \<Rightarrow> string \<Rightarrow> 'w \<Rightarrow> error option \<times> 'w" where
  "addPeerLinkNetworkByNsName os NsName addr vethname w =
     (case os (ParseAddr addr) w of
        (Some err, w) \<Rightarrow> (Some err, w)
      | (None, w) \<Rightarrow> execInsideNsByName os NsName
          (os_seq os [LinkByName vethname, AddrAdd vethname addr, LinkSetUp vethname]) w)"

definition disableDAD :: "'w os \<Rightarrow> int \<Rightarrow> string \<Rightarrow> 'w \<Rightarrow> error option \<times> 'w" where
  "disableDAD os pid vethname =
     execInsideNs os pid (os_seq os
       [Exec [''sysctl'', ''-w'', ''net.ipv6.conf.default.accept_dad=0''],
        Exec [''sysctl'', ''-w'', ''net.ipv6.conf.'' @ vethname @ ''.accept_dad=0'']])"

section \<open>Construction\<close>

text \<open>\<open>devices\<close> is the answer of \<open>net.Interfaces\<close>.\<close>

definition CreateHostBridge :: "'w os \<Rightarrow> error + string list \<Rightarrow> Environment \<Rightarrow> 'w \<Rightarrow> error option \<times> 'w" where
  "CreateHostBridge os devices env w =
     (case devices of
        Inl err \<Rightarrow> (Some err, w)
      | Inr ifces \<Rightarrow>
          let bridge = HostBridgeName (config env);
              w = foldl (\<lambda>w ifce. if ifce = bridge then Destroy os env w else w) w ifces
          in os_seq os
              [Exec [''ip'', ''link'', ''add'', ''name'', bridge, ''mtu'', Itoa (mtusize env), ''type'', ''bridge''],
               Exec [''ip'', ''a'', ''add'', HostBridgeIP (config env) @ HostBridgeMask (config env), ''dev'', bridge],
               Exec [''ip'', ''a'', ''add'', HostBridgeIPv6 (config env) @ HostBridgeIPv6Prefix (config env), ''dev'', bridge],
               Exec [''ip'', ''link'', ''set'', ''dev'', bridge, ''up'']] w)"

text \<open>
  The host of the constructor: its devices, the result of \<open>GetLocalIPandIface\<close> (\<open>None\<close> when it
  panics) and the environment variables. \<open>None\<close> is a panic or \<open>log.Fatal\<close>.
\<close>

record host =
  host_devices :: "error + string list"
  host_local :: "(string \<times> string) option"
  host_getenv :: "string \<Rightarrow> string"

definition new_environment :: "host \<Rightarrow> string \<Rightarrow> Configuration \<Rightarrow> Environment option" where
  "new_environment h proxyname customConfig =
     do {
       next4 \<leftarrow> NextIPv4 (ParseIP (HostBridgeIP customConfig)) 1;
       next6 \<leftarrow> NextIPv6 (ParseIP (HostBridgeIPv6 customConfig)) 1;
       Some \<lparr>nextVethNumber = 0, proxyName = proxyname, config = customConfig,
             env_table = NewTableManager, deployedServices = [],
             nextContainerIP = next4, nextContainerIPv6 = next6, totNextAddr = 1, totNextAddrv6 = 1,
             addrCache = [], addrCachev6 = [],
             clusterPort = host_getenv h ''CLUSTER_MANAGER_PORT'',
             clusterAddr = host_getenv h ''CLUSTER_MANAGER_IP'', mtusize = Mtusize customConfig\<rparr>
     }"

definition NewCustom :: "'w os \<Rightarrow> host \<Rightarrow> string \<Rightarrow> Configuration \<Rightarrow> 'w \<Rightarrow> (Environment \<times> 'w) option" where
  "NewCustom os h proxyname customConfig w =
     do {
       e \<leftarrow> new_environment h proxyname customConfig;
       e \<leftarrow> (if ConnectedInternetInterface (config e) = ''''
            then do { (_, ifce) \<leftarrow> host_local h;
                      Some (e\<lparr>config := (config e)\<lparr>ConnectedInternetInterface := ifce\<rparr>\<rparr>) }
            else Some e);
       w \<leftarrow> (case CreateHostBridge os (host_devices h) e w of
               (Some err, w) \<Rightarrow> None
             | (None, w) \<Rightarrow> Some w);
       w \<leftarrow> DisableReversePathFiltering os (HostBridgeName (config e)) w;
       w \<leftarrow> EnableForwarding os (HostBridgeName (config e)) proxyname w;
       w \<leftarrow> EnableMasquerading os (case host_devices h of Inl err \<Rightarrow> [] | Inr ifces \<Rightarrow> ifces)
              (HostBridgeIP (config e)) (HostBridgeMask (config e))
              (HostBridgeIPv6 (config e)) (HostBridgeIPv6Prefix (config e))
              (HostBridgeName (config e)) (ConnectedInternetInterface (config e)) w;
       Some (e, w)
     }"

text \<open>The configuration built from the subnetwork that the cluster assigns.\<close>

definition cluster_configuration :: "string \<Rightarrow> mqttSubnetworkResponse \<Rightarrow> Configuration option" where
  "cluster_configuration mtu_text response =
     do {
       let mtu = (case Atoi mtu_text of Some n \<Rightarrow> if n < 0 then 1450 else n | None \<Rightarrow> 1450);
       bridge4 \<leftarrow> NextIPv4 (ParseIP (subnet_Address response)) 1;
       bridge6 \<leftarrow> NextIPv6 (ParseIP (subnet_Address_v6 response)) 1;
       Some \<lparr>HostBridgeName = ''goProxyBridge'', HostBridgeIP = IP_String bridge4, HostBridgeMask = ''/26'',
             HostBridgeIPv6 = IP_String bridge6, HostBridgeIPv6Prefix = ''/120'',
             HostTunName = ''goProxyTun'', ConnectedInternetInterface = '''', Mtusize = mtu\<rparr>
     }"

definition NewEnvironmentClusterConfigured :: "'w os \<Rightarrow> host \<Rightarrow>
  (error + mqttSubnetworkResponse) option \<Rightarrow> string \<Rightarrow> NetMqttClient \<Rightarrow> 'w \<Rightarrow> 'w node option" where
  "NewEnvironmentClusterConfigured os h answer proxyname client w =
     do {
       (r, client) \<leftarrow> RequestSubnetworkMqttBlocking answer client;
       response \<leftarrow> (case r of Inl err \<Rightarrow> None | Inr x \<Rightarrow> Some x);
       cfg \<leftarrow> cluster_configuration (host_getenv h ''TUN_MTU_SIZE'') response;
       (e, w) \<leftarrow> NewCustom os h proxyname cfg w;
       Some \<lparr>node_env = e, node_os = w, node_mqtt = client\<rparr>
     }"

section \<open>Table queries\<close>

definition toServiceIP :: "string \<Rightarrow> string \<Rightarrow> string \<Rightarrow> ServiceIP" where
  "toServiceIP Type Addr Addr_v6 =
     (let sip = \<lparr>IpType = InstanceNumber, Address = ParseIP Addr, Address_v6 = ParseIP Addr_v6\<rparr>;
          sip = (if Type = ''RR'' then sip\<lparr>IpType := RoundRobin\<rparr> else sip);
          sip = (if Type = ''Closest'' then sip\<lparr>IpType := Closest\<rparr> else sip);
          sip = (if Type = ''InstanceNumber'' then sip\<lparr>IpType := InstanceNumber\<rparr> else sip)
      in sip)"

definition responseParser :: "TableQueryResponse \<Rightarrow> error + TableEntry list" where
  "responseParser r =
     (let appCompleteName = split_on CHR ''.'' (resp_JobName r) in
      if length appCompleteName \<noteq> 4 then Inl ''app complete name not of size 4''
      else Inr (map (\<lambda>inst.
        \<lparr>JobName = resp_JobName r, Appname = appCompleteName ! 0, Appns = appCompleteName ! 1,
         Servicename = appCompleteName ! 2, Servicenamespace = appCompleteName ! 3,
         Instancenumber = InstanceNumber_of inst, Cluster = 0,
         Nodeip = ParseIP (HostIp inst), Nodeport = HostPort inst,
         Nsip = ParseIP (NamespaceIp inst), Nsipv6 = ParseIP (NamespaceIpv6 inst),
         ServiceIPs = map (\<lambda>x. toServiceIP (Sip_Type x) (Sip_Address x) (Sip_Address_v6 x)) (ServiceIp_of inst)\<rparr>)
        (InstanceList r)))"

definition parse_result :: "error + TableQueryResponse \<Rightarrow> error + TableEntry list" where
  "parse_result r = (case r of Inl err \<Rightarrow> Inl err | Inr x \<Rightarrow> responseParser x)"

text \<open>\<open>msgs\<close> are the responses handled while the query waits.\<close>

definition tableQueryByIP :: "ip \<Rightarrow> bool \<Rightarrow> TableQueryResponse list \<Rightarrow> NetMqttClient \<Rightarrow>
  ((error + TableEntry list) \<times> NetMqttClient) option" where
  "tableQueryByIP a force msgs client =
     map_option (map_prod parse_result id) (TableQueryByIpRequestBlocking (IP_String a) force msgs client)"

definition tableQueryByJobName :: "string \<Rightarrow> bool \<Rightarrow> TableQueryResponse list \<Rightarrow> NetMqttClient \<Rightarrow>
  ((error + TableEntry list) \<times> NetMqttClient) option" where
  "tableQueryByJobName jobname force msgs client =
     map_option (map_prod parse_result id) (TableQueryByJobNameRequestBlocking jobname force msgs client)"

section \<open>The table of the node\<close>

definition GetTableEntriesOnNode :: "string \<Rightarrow> Environment \<Rightarrow> TableEntry list" where
  "GetTableEntriesOnNode NodePublicAddress env =
     SearchByNodeIp (ParseIP NodePublicAddress) (env_table env)"

definition GetTableEntryByInstanceIP :: "ip \<Rightarrow> Environment \<Rightarrow> TableEntry option" where
  "GetTableEntryByInstanceIP a env =
     List.find (\<lambda>elem. list_ex (\<lambda>elemIp. IpType elemIp = InstanceNumber \<and> sip_matches a elemIp) (ServiceIPs elem))
       (SearchByServiceIP a (env_table env))"

definition GetTableEntryByNsIP :: "ip \<Rightarrow> Environment \<Rightarrow> TableEntry option" where
  "GetTableEntryByNsIP a env = SearchByNsIP a (env_table env)"

definition AddTableQueryEntry :: "TableEntry \<Rightarrow> Environment \<Rightarrow> Environment option" where
  "AddTableQueryEntry entry env =
     do {
       (_, t) \<leftarrow> RemoveByNsip (Nsip entry) (env_table env);
       let (_, t) = TableManager_Add entry t;
       Some (env\<lparr>env_table := t\<rparr>)
     }"

fun AddTableQueryEntries :: "TableEntry list \<Rightarrow> Environment \<Rightarrow> Environment option" where
  "AddTableQueryEntries [] env = Some env"
| "AddTableQueryEntries (e # es) env = do { env \<leftarrow> AddTableQueryEntry e env; AddTableQueryEntries es env }"

definition RefreshServiceTable :: "string \<Rightarrow> TableQueryResponse list \<Rightarrow> 'w node \<Rightarrow> 'w node option" where
  "RefreshServiceTable jobname msgs s =
     do {
       (r, client) \<leftarrow> tableQueryByJobName jobname True msgs (node_mqtt s);
       let s = s\<lparr>node_mqtt := client\<rparr>;
       (case r of
          Inl err \<Rightarrow> Some s
        | Inr entryList \<Rightarrow>
            do {
              (_, t) \<leftarrow> RemoveByJobName jobname (env_table (node_env s));
              env \<leftarrow> AddTableQueryEntries entryList ((node_env s)\<lparr>env_table := t\<rparr>);
              Some (s\<lparr>node_env := env\<rparr>)
            })
     }"

definition RemoveServiceEntries :: "string \<Rightarrow> Environment \<Rightarrow> Environment option" where
  "RemoveServiceEntries jobname env =
     do { (_, t) \<leftarrow> RemoveByJobName jobname (env_table env); Some (env\<lparr>env_table := t\<rparr>) }"

text \<open>The conversion \<open>net.IP(nsip)\<close> takes the characters of the text as the bytes of the address.\<close>

definition RemoveNsIPEntries :: "string \<Rightarrow> Environment \<Rightarrow> Environment option" where
  "RemoveNsIPEntries nsip env =
     do { (_, t) \<leftarrow> RemoveByNsip (Some (map of_char nsip)) (env_table env); Some (env\<lparr>env_table := t\<rparr>) }"

text \<open>
  A lookup: the local table, and otherwise a query whose entries are added and whose job and address
  become interests. The first entry registers the interest in its job.
\<close>

definition GetTableEntryByServiceIP :: "ip \<Rightarrow> TableQueryResponse list \<Rightarrow> 'w node \<Rightarrow>
  (TableEntry list \<times> 'w node) option" where
  "GetTableEntryByServiceIP a msgs s =
     (case SearchByServiceIP a (env_table (node_env s)) of
        first # rest \<Rightarrow>
          do {
            bus \<leftarrow> Emit \<lparr>Event_EventType = TableQuery, EventTarget = JobName first, EventMessage = ''''\<rparr>
                     (event_bus (node_mqtt s));
            Some (first # rest, s\<lparr>node_mqtt := (node_mqtt s)\<lparr>event_bus := bus\<rparr>\<rparr>)
          }
      | [] \<Rightarrow>
          do {
            (r, client) \<leftarrow> tableQueryByIP a False msgs (node_mqtt s);
            (case r of
               Inl err \<Rightarrow> Some ([], s\<lparr>node_mqtt := client\<rparr>)
             | Inr entryList \<Rightarrow>
                 do {
                   let client = (case entryList of [] \<Rightarrow> client
                                 | e # _ \<Rightarrow> MqttRegisterInterest (JobName e) client);
                   env \<leftarrow> AddTableQueryEntries entryList (node_env s);
                   let table = SearchByServiceIP a (env_table env);
                   let client = MqttRegisterInterest (IP_String a) client;
                   Some (table, s\<lparr>node_env := env, node_mqtt := client\<rparr>)
                 })
          })"

end
