(* ===== verification/AddressPool.thy ===== *)
theory AddressPool
  imports Environment
begin

text \<open>
  The two address pools of the environment. The locale \<open>address_pool\<close> is what deployments rely on:
  an allocation takes an address out of the available ones or fails when there is none, and freeing
  one makes it available again. Its client lemmas are about any use of a pool: addresses in use are
  distinct and never available. The pool of IPv4 addresses and the one of IPv6 addresses both provide
  it, from their first address \<open>b\<close> on.
\<close>

section \<open>The contract\<close>

text \<open>What the owner of a pool may do.\<close>

datatype 'a pool_op = Alloc | Release 'a

text \<open>
  A pool with the list of addresses in use: allocated and not yet released. A release of an address
  that is not in use is not a use of the pool.
\<close>

fun use_step :: "('s \<Rightarrow> ((error + 'a) \<times> 's) option) \<Rightarrow> ('a \<Rightarrow> 's \<Rightarrow> 's) \<Rightarrow> 'a pool_op \<Rightarrow>
  's \<times> 'a list \<Rightarrow> ('s \<times> 'a list) option" where
  "use_step alloc release Alloc (s, used) =
     (case alloc s of
        None \<Rightarrow> None
      | Some (Inl err, s') \<Rightarrow> Some (s', used)
      | Some (Inr a, s') \<Rightarrow> Some (s', used @ [a]))"
| "use_step alloc release (Release a) (s, used) =
     (if a \<in> set used then Some (release a s, remove1 a used) else Some (s, used))"

fun use_run :: "('s \<Rightarrow> ((error + 'a) \<times> 's) option) \<Rightarrow> ('a \<Rightarrow> 's \<Rightarrow> 's) \<Rightarrow> 'a pool_op list \<Rightarrow>
  's \<times> 'a list \<Rightarrow> ('s \<times> 'a list) option" where
  "use_run alloc release [] p = Some p"
| "use_run alloc release (x # xs) p =
     do { q \<leftarrow> use_step alloc release x p; use_run alloc release xs q }"

locale address_pool =
  fixes ok :: "'s \<Rightarrow> bool"
    and universe :: "'a set"
    and available :: "'s \<Rightarrow> 'a set"
    and alloc :: "'s \<Rightarrow> ((error + 'a) \<times> 's) option"
    and release :: "'a \<Rightarrow> 's \<Rightarrow> 's"
  assumes finite_universe: "finite universe"
    and available_universe: "ok s \<Longrightarrow> available s \<subseteq> universe"
    and alloc_empty: "ok s \<Longrightarrow> available s = {} \<Longrightarrow> \<exists>err. alloc s = Some (Inl err, s)"
    and alloc_some: "ok s \<Longrightarrow> available s \<noteq> {} \<Longrightarrow>
      \<exists>a s'. alloc s = Some (Inr a, s') \<and> ok s' \<and> a \<in> available s \<and> available s' = available s - {a}"
    and release_ok: "ok s \<Longrightarrow> a \<in> universe \<Longrightarrow> a \<notin> available s \<Longrightarrow>
      ok (release a s) \<and> available (release a s) = insert a (available s)"
begin

lemma alloc_cases:
  assumes "ok s"
  obtains (empty) err where "available s = {}" "alloc s = Some (Inl err, s)"
  | (got) a s' where "alloc s = Some (Inr a, s')" "ok s'" "a \<in> available s" "a \<in> universe"
      "available s' = available s - {a}"
proof (cases "available s = {}")
  case True
  from alloc_empty [OF assms True] empty [OF True] show ?thesis by blast
next
  case False
  from alloc_some [OF assms False] obtain a s' where s':
    "alloc s = Some (Inr a, s')" "ok s'" "a \<in> available s" "available s' = available s - {a}" by blast
  from s'(3) have "a \<in> universe" using available_universe [OF assms] by (rule subsetD [rotated])
  with s' show ?thesis by (intro got [of a s'])
qed

text \<open>An allocation that is undone leaves the pool with the same addresses.\<close>

lemma alloc_release:
  assumes "ok s" "alloc s = Some (Inr a, s')"
  shows "ok (release a s') \<and> available (release a s') = available s"
  using assms(1)
proof (cases rule: alloc_cases)
  case (got a' s'')
  with assms(2) have eq: "a' = a" "s'' = s'" by simp_all
  have "a \<notin> available s'" and av: "insert a (available s') = available s"
    using got unfolding eq by auto
  then have "ok (release a s') \<and> available (release a s') = insert a (available s')"
    using got unfolding eq by (intro release_ok)
  with av show ?thesis by simp
qed (use assms(2) in auto)

definition partitioned :: "'s \<times> 'a list \<Rightarrow> bool" where
  "partitioned p \<longleftrightarrow> ok (fst p) \<and> distinct (snd p) \<and> set (snd p) \<inter> available (fst p) = {} \<and>
     set (snd p) \<union> available (fst p) = universe"

lemma use_step_partitioned:
  assumes "partitioned p" shows "\<exists>q. use_step alloc release x p = Some q \<and> partitioned q"
proof (cases p)
  case (Pair s used)
  with assms have p: "ok s" "distinct used" "set used \<inter> available s = {}" "set used \<union> available s = universe"
    by (simp_all add: partitioned_def)
  show ?thesis
  proof (cases x)
    case Alloc
    from p(1) show ?thesis
    proof (cases rule: alloc_cases)
      case (empty err)
      with Pair Alloc assms show ?thesis by simp
    next
      case (got a s')
      with p have "partitioned (s', used @ [a])" by (auto simp: partitioned_def)
      with got Pair Alloc show ?thesis by simp
    qed
  next
    case (Release a)
    show ?thesis
    proof (cases "a \<in> set used")
      case True
      with p release_ok [of s a] have "ok (release a s)" "available (release a s) = insert a (available s)"
        by blast+
      with p True have "partitioned (release a s, remove1 a used)" by (auto simp: partitioned_def)
      with True Pair Release show ?thesis by simp
    next
      case False
      with assms Pair Release show ?thesis by simp
    qed
  qed
qed

lemma use_run_partitioned:
  "partitioned p \<Longrightarrow> \<exists>q. use_run alloc release xs p = Some q \<and> partitioned q"
proof (induction xs arbitrary: p)
  case Nil
  then show ?case by simp
next
  case (Cons x xs)
  from use_step_partitioned [OF Cons.prems] obtain q where "use_step alloc release x p = Some q" "partitioned q" by blast
  with Cons.IH show ?case by simp
qed

text \<open>An allocation succeeds exactly while fewer addresses than the pool has are in use.\<close>

lemma alloc_iff_room:
  assumes "partitioned (s, used)"
  shows "(\<exists>a s'. alloc s = Some (Inr a, s')) \<longleftrightarrow> length used < card universe"
proof -
  from assms have p: "ok s" "distinct used" "set used \<inter> available s = {}" "set used \<union> available s = universe"
    by (simp_all add: partitioned_def)
  have fin: "finite (available s)" using p(4) finite_universe by (metis finite_Un)
  have "card universe = length used + card (available s)"
    using card_Un_disjoint [OF _ fin p(3)] p(2,4) distinct_card by fastforce
  with fin have "available s \<noteq> {} \<longleftrightarrow> length used < card universe" by (auto simp: card_gt_0_iff)
  with p(1) show ?thesis by (metis alloc_empty alloc_some Inl_Inr_False Pair_inject option.inject)
qed

end

section \<open>Addresses by number\<close>

definition v4addr :: "nat \<Rightarrow> ip" where
  "v4addr n = Some (v4InV6Prefix @ be_bytes 4 n)"

definition v6addr :: "nat \<Rightarrow> ip" where
  "v6addr n = Some (be_bytes 16 n)"

lemma To4_v4addr [simp]: "To4 (v4addr n) = Some (be_bytes 4 n)"
  by (simp add: v4addr_def To4_def ip_bytes_def)

lemma v4addr_eq_iff: "v4addr m = v4addr n \<longleftrightarrow> m mod 2 ^ 32 = n mod 2 ^ 32"
proof
  assume "v4addr m = v4addr n"
  then have "be_val (be_bytes 4 m) = be_val (be_bytes 4 n)" by (simp add: v4addr_def)
  then show "m mod 2 ^ 32 = n mod 2 ^ 32" by (simp add: be_val_be_bytes)
next
  assume "m mod 2 ^ 32 = n mod 2 ^ 32"
  then have "be_bytes 4 m = be_bytes 4 n" by (intro be_bytes_cong) simp
  then show "v4addr m = v4addr n" by (simp add: v4addr_def)
qed

lemma v4addr_inj: "inj_on v4addr {b ..< b + n}" if "n \<le> 2 ^ 32"
proof (rule inj_onI)
  have le: "i \<le> j \<Longrightarrow> j < b + n \<Longrightarrow> b \<le> i \<Longrightarrow> v4addr i = v4addr j \<Longrightarrow> i = j" for i j
  proof -
    assume ij: "i \<le> j" "j < b + n" "b \<le> i" "v4addr i = v4addr j"
    then have "(2 ^ 32 :: nat) dvd j - i" 
      using mod_eq_dvd_iff_nat [of i j "2 ^ 32"] by (simp add: v4addr_eq_iff)
    moreover have "j - i < 2 ^ 32" using ij that by linarith
    ultimately have "j - i = 0" by (metis dvd_imp_le leD neq0_conv)
    with ij(1) show "i = j" by simp
  qed
  fix i j assume "i \<in> {b..<b + n}" "j \<in> {b..<b + n}" "v4addr i = v4addr j"
  then show "i = j" using le [of i j] le [of j i] by (cases "i \<le> j") auto
qed

lemma NextIPv4_v4addr: "NextIPv4 (v4addr n) 1 = Some (v4addr (n + 1))"
proof -
  have "be_bytes 4 (n mod 256 ^ 4 + 1) = be_bytes 4 (n + 1)"
    by (rule be_bytes_cong) (simp add: mod_simps)
  moreover have "NextIPv4 (v4addr n) 1 =
      Some (Some (v4InV6Prefix @ be_bytes 4 (be_val (be_bytes 4 n) + unat (1 :: 64 word))))"
    by (rule NextIPv4_Some) (rule To4_v4addr)
  ultimately show ?thesis
    by (simp add: be_val_be_bytes v4addr_def [of "Suc n"])
qed

lemma To16_v6addr [simp]: "To16 (v6addr n) = v6addr n"
  by (simp add: v6addr_def To16_def ip_bytes_def)

lemma v6addr_inj: "m < 2 ^ 128 \<Longrightarrow> n < 2 ^ 128 \<Longrightarrow> v6addr m = v6addr n \<longleftrightarrow> m = n"
proof
  assume "m < 2 ^ 128" "n < 2 ^ 128" "v6addr m = v6addr n"
  then have "be_val (be_bytes 16 m) = be_val (be_bytes 16 n)" by (simp add: v6addr_def)
  then have "m mod 2 ^ 128 = n mod 2 ^ 128" by (simp add: be_val_be_bytes)
  with \<open>m < 2 ^ 128\<close> \<open>n < 2 ^ 128\<close> show "m = n" by simp
qed simp

lemma NextIPv6_v6addr: "n + 1 < 2 ^ 128 \<Longrightarrow> NextIPv6 (v6addr n) 1 = Some (v6addr (n + 1))"
proof -
  assume n: "n + 1 < 2 ^ 128"
  have "To16 (v6addr n) = Some (be_bytes 16 n)" by (simp add: v6addr_def [symmetric])
  from NextIPv6_1 [OF this] n show ?thesis by (simp add: be_val_be_bytes v6addr_def)
qed

lemma To4_v6addr: "2 ^ 48 \<le> n \<Longrightarrow> n < 2 ^ 128 \<Longrightarrow> To4 (v6addr n) = None"
proof -
  assume n: "2 ^ 48 \<le> n" "n < 2 ^ 128"
  have "take 12 (be_bytes 16 n) \<noteq> v4InV6Prefix"
  proof
    assume eq: "take 12 (be_bytes 16 n) = v4InV6Prefix"
    define low where "low = drop 12 (be_bytes 16 n)"
    have split: "be_bytes 16 n = v4InV6Prefix @ low"
      unfolding low_def by (metis append_take_drop_id eq)
    have l: "length low = 4" by (simp add: low_def)
    obtain a b c d where low: "low = [a, b, c, d]" using list_length4 [OF l] by blast
    have "be_val (be_bytes 16 n) < 2 ^ 48"
      unfolding split low v4InV6Prefix_def
      using unat_byte_less [of a] unat_byte_less [of b] unat_byte_less [of c] unat_byte_less [of d]
      by (simp add: be_val_def)
    with n show False by (simp add: be_val_be_bytes)
  qed
  then show ?thesis by (simp add: v6addr_def To4_def ip_bytes_def)
qed

section \<open>Pools that count\<close>

text \<open>
  Both pools of the environment work alike: an address comes from the cache of freed ones or is the
  next of \<open>n\<close> consecutive ones. \<open>used\<close> counts how many of these have been handed out so far.
\<close>

locale counting_pool =
  fixes addr :: "nat \<Rightarrow> 'a" and b :: nat and n :: nat
    and ok :: "'s \<Rightarrow> bool"
    and universe :: "'a set"
    and available :: "'s \<Rightarrow> 'a set"
    and used :: "'s \<Rightarrow> nat"
    and cache :: "'s \<Rightarrow> 'a list"
    and alloc :: "'s \<Rightarrow> ((error + 'a) \<times> 's) option"
    and release :: "'a \<Rightarrow> 's \<Rightarrow> 's"
  assumes inj: "ok s \<Longrightarrow> inj_on addr {b ..< b + n}"
    and universe_eq: "universe = addr ` {b ..< b + n}"
    and available_eq: "available s = set (cache s) \<union> addr ` {b + used s ..< b + n}"
    and ok_used: "ok s \<Longrightarrow> used s \<le> n"
    and ok_cache: "ok s \<Longrightarrow> distinct (cache s) \<and> set (cache s) \<subseteq> addr ` {b ..< b + used s}"
    and alloc_cached: "ok s \<Longrightarrow> cache s = a # rest \<Longrightarrow>
      \<exists>s'. alloc s = Some (Inr a, s') \<and> ok s' \<and> cache s' = rest \<and> used s' = used s"
    and alloc_fresh: "ok s \<Longrightarrow> cache s = [] \<Longrightarrow> used s < n \<Longrightarrow>
      \<exists>s'. alloc s = Some (Inr (addr (b + used s)), s') \<and> ok s' \<and> cache s' = [] \<and> used s' = Suc (used s)"
    and alloc_full: "ok s \<Longrightarrow> cache s = [] \<Longrightarrow> used s = n \<Longrightarrow> \<exists>err. alloc s = Some (Inl err, s)"
    and release_cached: "ok s \<Longrightarrow> a \<in> addr ` {b ..< b + used s} \<Longrightarrow> a \<notin> set (cache s) \<Longrightarrow>
      ok (release a s) \<and> cache (release a s) = cache s @ [a] \<and> used (release a s) = used s"
begin

lemma handed_out_disjoint:
  assumes "ok s" shows "addr ` {b ..< b + used s} \<inter> addr ` {b + used s ..< b + n} = {}"
proof -
  have "addr ` ({b ..< b + used s} \<inter> {b + used s ..< b + n}) =
      addr ` {b ..< b + used s} \<inter> addr ` {b + used s ..< b + n}"
    using ok_used [OF assms] by (intro inj_on_image_Int [OF inj [OF assms]]) auto
  then show ?thesis by simp
qed

lemma fresh_image: "ok s \<Longrightarrow> used s < n \<Longrightarrow>
    addr ` {b + Suc (used s) ..< b + n} = addr ` {b + used s ..< b + n} - {addr (b + used s)}"
proof -
  assume ok: "ok s" and less: "used s < n"
  have "{b + Suc (used s) ..< b + n} = {b + used s ..< b + n} - {b + used s}" by auto
  moreover have "addr ` ({b + used s ..< b + n} - {b + used s}) =
      addr ` {b + used s ..< b + n} - addr ` {b + used s}"
    using less by (intro inj_on_image_set_diff [OF inj [OF ok]]) auto
  ultimately show ?thesis by simp
qed

lemma counting_some:
  assumes ok: "ok s" and ne: "available s \<noteq> {}"
  shows "\<exists>a s'. alloc s = Some (Inr a, s') \<and> ok s' \<and> a \<in> available s \<and> available s' = available s - {a}"
proof (cases "cache s")
  case Nil
  with ne have less: "used s < n" by (auto simp: available_eq)
  from alloc_fresh [OF ok Nil less] obtain s' where s': "alloc s = Some (Inr (addr (b + used s)), s')"
    "ok s'" "cache s' = []" "used s' = Suc (used s)" by blast
  have "addr (b + used s) \<in> available s" using less by (auto simp: available_eq)
  moreover have "available s' = available s - {addr (b + used s)}"
    using s' Nil fresh_image [OF ok less] by (simp add: available_eq)
  ultimately show ?thesis using s' by blast
next
  case (Cons a rest)
  from alloc_cached [OF ok Cons] obtain s' where s': "alloc s = Some (Inr a, s')"
    "ok s'" "cache s' = rest" "used s' = used s" by blast
  have "a \<in> available s" using Cons by (simp add: available_eq)
  moreover have "a \<notin> addr ` {b + used s ..< b + n}"
    using handed_out_disjoint [OF ok] ok_cache [OF ok] Cons by auto
  then have "available s' = available s - {a}"
    using s' Cons ok_cache [OF ok] by (auto simp: available_eq)
  ultimately show ?thesis using s' by blast
qed

lemma counting_empty:
  assumes "ok s" "available s = {}" shows "\<exists>err. alloc s = Some (Inl err, s)"
proof -
  have "cache s = []" "used s = n" using assms ok_used [OF assms(1)] by (auto simp: available_eq)
  with assms(1) show ?thesis by (intro alloc_full)
qed

lemma counting_release:
  assumes "ok s" "a \<in> universe" "a \<notin> available s"
  shows "ok (release a s) \<and> available (release a s) = insert a (available s)"
proof -
  from assms(2) obtain k where k: "a = addr k" "b \<le> k" "k < b + n" by (auto simp: universe_eq)
  with assms(3) have "k < b + used s" by (auto simp: available_eq not_less)
  with k have "a \<in> addr ` {b ..< b + used s}" by simp
  moreover have "a \<notin> set (cache s)" using assms(3) by (simp add: available_eq)
  ultimately have "ok (release a s) \<and> cache (release a s) = cache s @ [a] \<and> used (release a s) = used s"
    by (rule release_cached [OF assms(1)])
  then show ?thesis by (simp add: available_eq)
qed

end

sublocale counting_pool \<subseteq> address_pool ok universe available alloc release
proof unfold_locales
  show "finite universe" by (simp add: universe_eq)
  show "available s \<subseteq> universe" if "ok s" for s
    using ok_cache [OF that] ok_used [OF that] by (fastforce simp: available_eq universe_eq)
qed (rule counting_empty counting_some counting_release; assumption)+

section \<open>The pools of the environment\<close>

text \<open>The addresses from \<open>b\<close> on that the environment can hand out: 61 of IPv4 and 254 of IPv6.\<close>

definition universe4 :: "nat \<Rightarrow> ip set" where "universe4 b = v4addr ` {b ..< b + 61}"

definition universe6 :: "nat \<Rightarrow> ip set" where "universe6 b = v6addr ` {b ..< b + 254}"

definition generated4 :: "Environment \<Rightarrow> nat" where "generated4 env = nat (totNextAddr env - 1)"

definition generated6 :: "Environment \<Rightarrow> nat" where "generated6 env = nat (totNextAddrv6 env - 1)"

definition pool4_ok :: "nat \<Rightarrow> Environment \<Rightarrow> bool" where
  "pool4_ok b env \<longleftrightarrow> 1 \<le> totNextAddr env \<and> totNextAddr env \<le> 62 \<and>
     nextContainerIP env = v4addr (b + generated4 env) \<and>
     distinct (addrCache env) \<and> set (addrCache env) \<subseteq> v4addr ` {b ..< b + generated4 env}"

definition pool6_ok :: "nat \<Rightarrow> Environment \<Rightarrow> bool" where
  "pool6_ok b env \<longleftrightarrow> 2 ^ 48 \<le> b \<and> b + 254 < 2 ^ 128 \<and>
     1 \<le> totNextAddrv6 env \<and> totNextAddrv6 env \<le> 255 \<and>
     nextContainerIPv6 env = v6addr (b + generated6 env) \<and>
     distinct (addrCachev6 env) \<and> set (addrCachev6 env) \<subseteq> v6addr ` {b ..< b + generated6 env}"

definition available4 :: "nat \<Rightarrow> Environment \<Rightarrow> ip set" where
  "available4 b env = set (addrCache env) \<union> v4addr ` {b + generated4 env ..< b + 61}"

definition available6 :: "nat \<Rightarrow> Environment \<Rightarrow> ip set" where
  "available6 b env = set (addrCachev6 env) \<union> v6addr ` {b + generated6 env ..< b + 254}"

interpretation pool4: counting_pool v4addr b 61 "pool4_ok b" "universe4 b" "available4 b"
  generated4 addrCache generateAddress freeContainerAddress
  for b
proof unfold_locales
  show "inj_on v4addr {b..<b + 61}" by (rule v4addr_inj) simp
  show "universe4 b = v4addr ` {b..<b + 61}" by (rule universe4_def)
  show "available4 b env = set (addrCache env) \<union> v4addr ` {b + generated4 env..<b + 61}" for env
    by (rule available4_def)
  fix env assume ok: "pool4_ok b env"
  show "generated4 env \<le> 61" using ok unfolding pool4_ok_def generated4_def by linarith
  show "distinct (addrCache env) \<and> set (addrCache env) \<subseteq> v4addr ` {b..<b + generated4 env}"
    using ok by (simp add: pool4_ok_def)
  show "\<exists>s'. generateAddress env = Some (Inr a, s') \<and> pool4_ok b s' \<and> addrCache s' = rest \<and>
      generated4 s' = generated4 env" if "addrCache env = a # rest" for a rest
    using ok that by (simp add: generateAddress_def pool4_ok_def generated4_def)
  show "\<exists>s'. generateAddress env = Some (Inr (v4addr (b + generated4 env)), s') \<and> pool4_ok b s' \<and>
      addrCache s' = [] \<and> generated4 s' = Suc (generated4 env)"
    if "addrCache env = []" "generated4 env < 61"
    using ok that by (auto simp: generateAddress_def Let_def pool4_ok_def NextIPv4_v4addr generated4_def
        nat_diff_distrib Suc_nat_eq_nat_zadd1 algebra_simps)
  show "\<exists>err. generateAddress env = Some (Inl err, env)" if "addrCache env = []" "generated4 env = 61"
    using ok that by (auto simp: generateAddress_def Let_def pool4_ok_def generated4_def)
  show "pool4_ok b (freeContainerAddress a env) \<and>
      addrCache (freeContainerAddress a env) = addrCache env @ [a] \<and>
      generated4 (freeContainerAddress a env) = generated4 env"
    if "a \<in> v4addr ` {b..<b + generated4 env}" "a \<notin> set (addrCache env)" for a
  proof -
    have "freeContainerAddress a env = env\<lparr>addrCache := addrCache env @ [a]\<rparr>"
      using that(1) by (auto simp: freeContainerAddress_def)
    then show ?thesis using ok that by (simp add: pool4_ok_def generated4_def)
  qed
qed

interpretation pool6: counting_pool v6addr b 254 "pool6_ok b" "universe6 b" "available6 b"
  generated6 addrCachev6 generateIPv6Address freeContainerAddress
  for b
proof unfold_locales
  show "universe6 b = v6addr ` {b..<b + 254}" by (rule universe6_def)
  show "available6 b env = set (addrCachev6 env) \<union> v6addr ` {b + generated6 env..<b + 254}" for env
    by (rule available6_def)
  fix env assume ok: "pool6_ok b env"
  show "inj_on v6addr {b..<b + 254}"
    using ok v6addr_inj unfolding pool6_ok_def inj_on_def by auto
  show "generated6 env \<le> 254" using ok unfolding pool6_ok_def generated6_def by linarith
  show "distinct (addrCachev6 env) \<and> set (addrCachev6 env) \<subseteq> v6addr ` {b..<b + generated6 env}"
    using ok by (simp add: pool6_ok_def)
  show "\<exists>s'. generateIPv6Address env = Some (Inr a, s') \<and> pool6_ok b s' \<and> addrCachev6 s' = rest \<and>
      generated6 s' = generated6 env" if "addrCachev6 env = a # rest" for a rest
    using ok that by (simp add: generateIPv6Address_def pool6_ok_def generated6_def)
  show "\<exists>s'. generateIPv6Address env = Some (Inr (v6addr (b + generated6 env)), s') \<and> pool6_ok b s' \<and>
      addrCachev6 s' = [] \<and> generated6 s' = Suc (generated6 env)"
    if "addrCachev6 env = []" "generated6 env < 254"
  proof -
    have "NextIPv6 (v6addr (b + generated6 env)) 1 = Some (v6addr (b + generated6 env + 1))"
      using ok that(2) unfolding pool6_ok_def by (intro NextIPv6_v6addr) linarith
    moreover have "nat (totNextAddrv6 env) = Suc (nat (totNextAddrv6 env - 1))"
      using ok unfolding pool6_ok_def by linarith
    ultimately show ?thesis
      using ok that by (auto simp: generateIPv6Address_def Let_def pool6_ok_def generated6_def)
  qed
  show "\<exists>err. generateIPv6Address env = Some (Inl err, env)" if "addrCachev6 env = []" "generated6 env = 254"
    using ok that by (auto simp: generateIPv6Address_def Let_def pool6_ok_def generated6_def)
  show "pool6_ok b (freeContainerAddress a env) \<and>
      addrCachev6 (freeContainerAddress a env) = addrCachev6 env @ [a] \<and>
      generated6 (freeContainerAddress a env) = generated6 env"
    if a: "a \<in> v6addr ` {b..<b + generated6 env}" "a \<notin> set (addrCachev6 env)" for a
  proof -
    from a(1) obtain n where n: "a = v6addr n" "b \<le> n" "n < b + generated6 env" by auto
    with ok have "To4 a = None" unfolding pool6_ok_def generated6_def n(1) by (intro To4_v6addr) linarith+
    then have "freeContainerAddress a env = env\<lparr>addrCachev6 := addrCachev6 env @ [a]\<rparr>"
      by (simp add: freeContainerAddress_def n(1)) (simp add: v6addr_def)
    then show ?thesis using ok a by (simp add: pool6_ok_def generated6_def)
  qed
qed

section \<open>The pools do not touch each other\<close>

lemma generateAddress_frame:
  "generateAddress env = Some (r, env') \<Longrightarrow>
    addrCachev6 env' = addrCachev6 env \<and> totNextAddrv6 env' = totNextAddrv6 env \<and>
    nextContainerIPv6 env' = nextContainerIPv6 env \<and> deployedServices env' = deployedServices env \<and>
    env_table env' = env_table env \<and> config env' = config env"
  by (auto simp: generateAddress_def Let_def bind_eq_Some_conv split: list.splits if_splits)

lemma generateIPv6Address_frame:
  "generateIPv6Address env = Some (r, env') \<Longrightarrow>
    addrCache env' = addrCache env \<and> totNextAddr env' = totNextAddr env \<and>
    nextContainerIP env' = nextContainerIP env \<and> deployedServices env' = deployedServices env \<and>
    env_table env' = env_table env \<and> config env' = config env"
  by (auto simp: generateIPv6Address_def Let_def bind_eq_Some_conv split: list.splits if_splits)

text \<open>Both predicates depend on the fields of their pool only.\<close>

lemma pool4_cong:
  "addrCache e = addrCache e' \<Longrightarrow> totNextAddr e = totNextAddr e' \<Longrightarrow> nextContainerIP e = nextContainerIP e' \<Longrightarrow>
    pool4_ok b e = pool4_ok b e' \<and> available4 b e = available4 b e'"
  by (simp add: pool4_ok_def available4_def generated4_def)

lemma pool6_cong:
  "addrCachev6 e = addrCachev6 e' \<Longrightarrow> totNextAddrv6 e = totNextAddrv6 e' \<Longrightarrow>
    nextContainerIPv6 e = nextContainerIPv6 e' \<Longrightarrow>
    pool6_ok b e = pool6_ok b e' \<and> available6 b e = available6 b e'"
  by (simp add: pool6_ok_def available6_def generated6_def)

section \<open>Properties\<close>

lemma card_universe4: "card (universe4 b) = 61"
  unfolding universe4_def by (subst card_image) (auto intro: v4addr_inj)

lemma card_universe6:
  assumes "pool6_ok b env" shows "card (universe6 b) = 254"
  unfolding universe6_def using pool6.inj [OF assms] by (subst card_image) auto

text \<open>A new environment whose bridge has the address numbered \<open>n\<close>: everything after it is available.\<close>

lemma new_environment_pool4:
  assumes "new_environment h proxyname cfg = Some env" "ParseIP (HostBridgeIP cfg) = v4addr n"
  shows "pool4_ok (n + 1) env" "available4 (n + 1) env = universe4 (n + 1)"
  using assms
  by (auto simp: new_environment_def bind_eq_Some_conv NextIPv4_v4addr pool4_ok_def generated4_def
      available4_def universe4_def)

lemma new_environment_pool6:
  assumes "new_environment h proxyname cfg = Some env" "ParseIP (HostBridgeIPv6 cfg) = v6addr n"
    "2 ^ 48 \<le> n" "n + 255 < 2 ^ 128"
  shows "pool6_ok (n + 1) env" "available6 (n + 1) env = universe6 (n + 1)"
  using assms
  by (auto simp: new_environment_def bind_eq_Some_conv NextIPv6_v6addr pool6_ok_def generated6_def
      available6_def universe6_def split: if_splits option.splits)

text \<open>
  C15: Whatever allocations and releases of IPv4 addresses an environment sees, the code never
  panics, the addresses in use are distinct and are among the 61 that follow the bridge's address,
  and an allocation succeeds exactly while fewer than 61 are in use.
\<close>

theorem ipv4_addresses_in_use:
  assumes "new_environment h proxyname cfg = Some env" and "ParseIP (HostBridgeIP cfg) = v4addr n"
  shows "\<exists>env' used. use_run generateAddress freeContainerAddress ops (env, []) = Some (env', used) \<and>
    distinct used \<and> set used \<subseteq> v4addr ` {n + 1 .. n + 61} \<and>
    ((\<exists>a env''. generateAddress env' = Some (Inr a, env'')) \<longleftrightarrow> length used < 61)"
proof -
  have "pool4.partitioned (n + 1) (env, [])"
    using new_environment_pool4 [OF assms] by (simp add: pool4.partitioned_def)
  from pool4.use_run_partitioned [OF this, of ops] obtain env' used where
    run: "use_run generateAddress freeContainerAddress ops (env, []) = Some (env', used)"
    and p: "pool4.partitioned (n + 1) (env', used)" by auto
  have "universe4 (n + 1) = v4addr ` {n + 1 .. n + 61}"
    unfolding universe4_def by (rule arg_cong [where f = "(`) v4addr"]) auto
  moreover have "set used \<subseteq> universe4 (n + 1)" "distinct used"
    using p by (auto simp: pool4.partitioned_def)
  moreover have "(\<exists>a env''. generateAddress env' = Some (Inr a, env'')) \<longleftrightarrow> length used < 61"
    using pool4.alloc_iff_room [OF p] unfolding card_universe4 .
  ultimately show ?thesis using run by auto
qed

text \<open>
  The same for IPv6, with the 254 addresses that follow the bridge's address.
\<close>

theorem ipv6_addresses_in_use:
  assumes "new_environment h proxyname cfg = Some env" and "ParseIP (HostBridgeIPv6 cfg) = v6addr n"
    and "2 ^ 48 \<le> n" and "n + 255 < 2 ^ 128"
  shows "\<exists>env' used. use_run generateIPv6Address freeContainerAddress ops (env, []) = Some (env', used) \<and>
    distinct used \<and> set used \<subseteq> v6addr ` {n + 1 .. n + 254} \<and>
    ((\<exists>a env''. generateIPv6Address env' = Some (Inr a, env'')) \<longleftrightarrow> length used < 254)"
proof -
  note pool = new_environment_pool6 [OF assms]
  have "pool6.partitioned (n + 1) (env, [])" using pool by (simp add: pool6.partitioned_def)
  from pool6.use_run_partitioned [OF this, of ops] obtain env' used where
    run: "use_run generateIPv6Address freeContainerAddress ops (env, []) = Some (env', used)"
    and p: "pool6.partitioned (n + 1) (env', used)" by auto
  have "universe6 (n + 1) = v6addr ` {n + 1 .. n + 254}"
    unfolding universe6_def by (rule arg_cong [where f = "(`) v6addr"]) auto
  moreover have "set used \<subseteq> universe6 (n + 1)" "distinct used"
    using p by (auto simp: pool6.partitioned_def)
  moreover have "(\<exists>a env''. generateIPv6Address env' = Some (Inr a, env'')) \<longleftrightarrow> length used < 254"
    using pool6.alloc_iff_room [OF p] unfolding card_universe6 [OF pool(1)] .
  ultimately show ?thesis using run by auto
qed

definition sample_config :: Configuration where
  "sample_config =
     \<lparr>HostBridgeName = ''br'', HostBridgeIP = ''10.19.1.1'', HostBridgeMask = ''/26'',
      HostBridgeIPv6 = ''fc00::1'', HostBridgeIPv6Prefix = ''/120'', HostTunName = ''tun'',
      ConnectedInternetInterface = ''eth0'', Mtusize = 1450\<rparr>"

definition sample_host :: host where
  "sample_host = \<lparr>host_devices = Inr [''eth0''], host_local = Some (''192.168.0.2'', ''eth0''),
     host_getenv = (\<lambda>_. '''')\<rparr>"

definition base4 :: nat where "base4 = 10 * 2 ^ 24 + 19 * 2 ^ 16 + 2 ^ 8 + 1"

definition base6_bytes :: "byte list" where
  "base6_bytes = [0xfc, 0, 0, 0, 0, 0, 0, 0, 0, 0, 0, 0, 0, 0, 0, 1]"

definition base6 :: nat where "base6 = be_val base6_bytes"

lemma sample_config4: "ParseIP (HostBridgeIP sample_config) = v4addr base4"
proof -
  have "HostBridgeIP sample_config = dotted [10, 19, 1, 1]"
    unfolding sample_config_def by code_simp
  moreover have "v4addr base4 = IPv4 10 19 1 1"
    by (simp add: v4addr_def base4_def be_bytes4 IPv4_def)
  ultimately show ?thesis by (simp only: ParseIP_dotted)
qed

lemma v6addr_base6: "v6addr base6 = Some base6_bytes"
proof -
  have "length base6_bytes = 16" by (simp add: base6_bytes_def)
  with be_bytes_be_val [of base6_bytes] show ?thesis by (simp add: v6addr_def base6_def)
qed

lemma base6_bounds: "2 ^ 48 \<le> base6" "base6 + 255 < 2 ^ 128"
  by (simp_all add: base6_def base6_bytes_def be_val_def)

lemma replicate12: "replicate 12 (0 :: byte) = [0, 0, 0, 0, 0, 0, 0, 0, 0, 0, 0, 0]"
  by (simp add: numeral_eq_Suc)

lemma sample_config6: "ParseIP (HostBridgeIPv6 sample_config) = v6addr base6"
  unfolding v6addr_base6
  by (simp add: sample_config_def ParseIP_def ip_sep_def parseIPv6_def parse6_loop.simps hex_val_def
      parse6_finish_def be_bytes2 base6_bytes_def
      replicate12)

definition sample_env :: Environment where
  "sample_env = the (new_environment sample_host ''tun'' sample_config)"

lemma sample_env_new: "new_environment sample_host ''tun'' sample_config = Some sample_env"
proof -
  have "NextIPv6 (v6addr base6) 1 = Some (v6addr (base6 + 1))"
    by (rule NextIPv6_v6addr) (use base6_bounds in linarith)
  then show ?thesis
    by (simp add: new_environment_def sample_config4 sample_config6 NextIPv4_v4addr sample_env_def)
qed

theorem ipv4_addresses_in_use_witness:
  "\<exists>env' used. use_run generateAddress freeContainerAddress [Alloc, Alloc] (sample_env, []) = Some (env', used) \<and>
    distinct used \<and> set used \<subseteq> v4addr ` {base4 + 1 .. base4 + 61} \<and>
    ((\<exists>a env''. generateAddress env' = Some (Inr a, env'')) \<longleftrightarrow> length used < 61)"
  by (rule ipv4_addresses_in_use [OF sample_env_new sample_config4])

theorem ipv6_addresses_in_use_witness:
  "\<exists>env' used. use_run generateIPv6Address freeContainerAddress [Alloc, Alloc] (sample_env, []) = Some (env', used) \<and>
    distinct used \<and> set used \<subseteq> v6addr ` {base6 + 1 .. base6 + 254} \<and>
    ((\<exists>a env''. generateIPv6Address env' = Some (Inr a, env'')) \<longleftrightarrow> length used < 254)"
  by (rule ipv6_addresses_in_use [OF sample_env_new sample_config6 base6_bounds])

text \<open>
  The configuration for a subnetwork assigned by the cluster gives the bridge the address after
  the subnetwork's, and the environment built from it hands out the 61 addresses after the bridge's,
  so that a subnetwork aligned to 64 addresses keeps its first and last address unused.
\<close>

theorem cluster_configured_addresses:
  assumes "cluster_configuration mtu_text response = Some cfg"
    and "ParseIP (subnet_Address response) = v4addr n"
    and "new_environment h proxyname cfg = Some env"
  shows "ParseIP (HostBridgeIP cfg) = v4addr (n + 1) \<and> pool4_ok (n + 2) env \<and>
    available4 (n + 2) env = v4addr ` {n + 2 .. n + 62}"
proof -
  have "HostBridgeIP cfg = IP_String (v4addr (n + 1))"
    using assms(1,2) by (auto simp: cluster_configuration_def bind_eq_Some_conv NextIPv4_v4addr)
  then have bridge: "ParseIP (HostBridgeIP cfg) = v4addr (n + 1)"
    using ParseIP_String4(1) [OF To4_v4addr, of "n + 1"] by (simp add: v4addr_def)
  have "universe4 (n + 2) = v4addr ` {n + 2 .. n + 62}"
    unfolding universe4_def by (rule arg_cong [where f = "(`) v4addr"]) auto
  with new_environment_pool4 [OF assms(3) bridge] bridge show ?thesis
    by (simp add: eval_nat_numeral)
qed

definition sample_subnet :: mqttSubnetworkResponse where
  "sample_subnet = \<lparr>subnet_Address = ''10.19.1.0'', subnet_Address_v6 = ''fc00::''\<rparr>"

lemma sample_subnet4: "ParseIP (subnet_Address sample_subnet) = v4addr (base4 - 1)"
proof -
  have "subnet_Address sample_subnet = dotted [10, 19, 1, 0]"
    unfolding sample_subnet_def by code_simp
  moreover have "v4addr (base4 - 1) = IPv4 10 19 1 0"
    by (simp add: v4addr_def base4_def be_bytes4 IPv4_def)
  ultimately show ?thesis by (simp only: ParseIP_dotted)
qed

lemma v6addr_base6_pred: "v6addr (base6 - 1) = Some [0xfc, 0, 0, 0, 0, 0, 0, 0, 0, 0, 0, 0, 0, 0, 0, 0]"
proof -
  let ?bs = "[0xfc, 0, 0, 0, 0, 0, 0, 0, 0, 0, 0, 0, 0, 0, 0, 0] :: byte list"
  have "base6 - 1 = be_val ?bs" by (simp add: base6_def base6_bytes_def be_val_def)
  moreover have "length ?bs = 16" by simp
  ultimately show ?thesis using be_bytes_be_val [of ?bs] by (simp only: v6addr_def)
qed

lemma replicate14: "replicate 14 (0 :: byte) = [0, 0, 0, 0, 0, 0, 0, 0, 0, 0, 0, 0, 0, 0]"
  by (simp add: numeral_eq_Suc)

lemma sample_subnet6: "ParseIP (subnet_Address_v6 sample_subnet) = v6addr (base6 - 1)"
  unfolding v6addr_base6_pred
  by (simp add: sample_subnet_def ParseIP_def ip_sep_def parseIPv6_def parse6_loop.simps hex_val_def
      parse6_finish_def be_bytes2 replicate14)

lemma base6_text: "IP_String (v6addr base6) = ''fc00::1''"
  unfolding v6addr_base6 base6_bytes_def
  by (simp add: IP_String_def To4_def ip_bytes_def Let_def string6_def best_run_def zero_run_def v4InV6Prefix_def
      hex_groups_def hex_digit_def upt_conv_Cons hex_nat.simps)

lemma NextIPv6_base6: "NextIPv6 (v6addr (base6 - Suc 0)) 1 = Some (v6addr base6)"
  "NextIPv6 (v6addr base6) 1 = Some (v6addr (Suc base6))"
proof -
  have "0 < base6" using base6_bounds(1) by (rule less_le_trans [rotated]) simp
  then have pred: "base6 - Suc 0 + 1 = base6" by simp
  have top: "base6 + 1 < 2 ^ 128" using base6_bounds(2) by linarith
  then have "base6 - Suc 0 + 1 < 2 ^ 128" using pred by linarith
  from NextIPv6_v6addr [OF this] show "NextIPv6 (v6addr (base6 - Suc 0)) 1 = Some (v6addr base6)"
    unfolding pred .
  from NextIPv6_v6addr [OF top] show "NextIPv6 (v6addr base6) 1 = Some (v6addr (Suc base6))" by simp
qed

theorem cluster_configured_addresses_witness:
  "\<exists>cfg env. cluster_configuration '''' sample_subnet = Some cfg \<and>
    new_environment sample_host ''tun'' cfg = Some env \<and>
    ParseIP (HostBridgeIP cfg) = v4addr base4 \<and> pool4_ok (base4 + 1) env \<and>
    available4 (base4 + 1) env = v4addr ` {base4 + 1 .. base4 + 61}"
proof -
  have b4: "base4 \<ge> 1" by (simp add: base4_def)
  obtain cfg where cfg: "cluster_configuration '''' sample_subnet = Some cfg" "HostBridgeIPv6 cfg = ''fc00::1''"
    "HostBridgeIP cfg = IP_String (v4addr base4)"
    using b4 by (simp add: cluster_configuration_def sample_subnet4 sample_subnet6 NextIPv4_v4addr
        NextIPv6_base6 base6_text)
  have p4: "ParseIP (HostBridgeIP cfg) = v4addr base4"
    using ParseIP_String4(1) [OF To4_v4addr, of base4] by (simp add: cfg(3) v4addr_def)
  have p6: "ParseIP (HostBridgeIPv6 cfg) = v6addr base6"
    using sample_config6 cfg(2) by (simp add: sample_config_def)
  obtain env where env: "new_environment sample_host ''tun'' cfg = Some env"
    using p4 p6 by (simp add: new_environment_def NextIPv4_v4addr NextIPv6_base6)
  from cluster_configured_addresses [OF cfg(1) sample_subnet4 env] b4
  have "pool4_ok (base4 + 1) env \<and> available4 (base4 + 1) env = v4addr ` {base4 + 1 .. base4 + 61}"
    by (simp add: numeral_eq_Suc)
  with cfg(1) env p4 show ?thesis by blast
qed

end
