(* ===== verification/Deployment.thy ===== *)
theory Deployment
  imports AddressPool
begin

text \<open>
  Attaching a workload to the node and detaching it: \<open>env/ContainerNetDeployment.go\<close>,
  \<open>env/UnikernelNetDeployment.go\<close> and \<open>env/NetDeploymentDispatcher.go\<close>. A deployment is a sequence of
  stages, each with the cleanup the code runs when the stage fails.

  In the unikernel handler the cleanup closure assigns to the variable \<open>err\<close> of the function, so a
  stage that reports its error through that variable returns the error of the cleanup instead
  (\<open>go_try_overwritten\<close>).
\<close>

section \<open>Stages\<close>

definition go_try_overwritten ::
  "('s, 'a) proc \<Rightarrow> ('s \<Rightarrow> error option \<times> 's) \<Rightarrow> 'b \<Rightarrow> ('a \<Rightarrow> ('s, 'b) proc) \<Rightarrow> ('s, 'b) proc" where
  "go_try_overwritten act cleanup zero k s =
     (case act s of
        None \<Rightarrow> None
      | Some (Inl e, s') \<Rightarrow>
          (case cleanup s' of (None, s'') \<Rightarrow> Some (Inr zero, s'') | (Some e', s'') \<Rightarrow> Some (Inl e', s''))
      | Some (Inr x, s') \<Rightarrow> k x s')"

definition update_env :: "(Environment \<Rightarrow> Environment) \<Rightarrow> 'w node \<Rightarrow> 'w node" where
  "update_env f s = s\<lparr>node_env := f (node_env s)\<rparr>"

definition ignore_os :: "('w \<Rightarrow> 'w) \<Rightarrow> 'w node \<Rightarrow> 'w node" where
  "ignore_os f s = s\<lparr>node_os := f (node_os s)\<rparr>"

section \<open>Containers\<close>

definition service_key :: "string \<Rightarrow> int \<Rightarrow> string" where
  "service_key sname inst = sname @ ''.'' @ Itoa inst"

definition delete_veth :: "'w os \<Rightarrow> Veth \<Rightarrow> 'w node \<Rightarrow> 'w node" where
  "delete_veth os veth = ignore_os (ignoring os (LinkDel (veth_Name veth)))"

text \<open>\<open>LinkDelNil\<close> is \<open>LinkDel\<close> of the nil link that a failed creation returns.\<close>

definition delete_nil :: "'w os \<Rightarrow> 'w node \<Rightarrow> 'w node" where
  "delete_nil os = ignore_os (ignoring os LinkDelNil)"

definition free_addresses :: "ip \<Rightarrow> ip \<Rightarrow> 'w node \<Rightarrow> 'w node" where
  "free_addresses a a6 = update_env (\<lambda>env. freeContainerAddress a6 (freeContainerAddress a env))"

text \<open>The stages after both addresses are generated; all have the same cleanup.\<close>

definition configure_container :: "'w os \<Rightarrow> Veth \<Rightarrow> int \<Rightarrow> string \<Rightarrow> ip \<Rightarrow> ip \<Rightarrow>
  (unit \<Rightarrow> ('w node, 'b) proc) \<Rightarrow> ('w node, 'b) proc" where
  "configure_container os veth pid portmapping a a6 k s =
     (let env = node_env s;
          cleanup = free_addresses a a6 \<circ> delete_veth os veth
      in
      go_try (on_os (addPeerLinkNetwork os pid (IP_String a @ HostBridgeMask (config env)) (veth_PeerName veth))) cleanup (\<lambda>_.
      go_try (on_os (disableDAD os pid (veth_PeerName veth))) cleanup (\<lambda>_.
      go_try (on_os (addPeerLinkNetwork os pid (IP_String a6 @ HostBridgeIPv6Prefix (config env)) (veth_PeerName veth))) cleanup (\<lambda>_.
      go_try (on_os (setContainerRoutes os env pid (veth_PeerName veth))) cleanup (\<lambda>_.
      go_try (on_os (setIPv6ContainerRoutes os env pid (veth_PeerName veth))) cleanup (\<lambda>_ s.
      (let s = update_env BookVethNumber s in
      go_try (on_os (setVethFirewallRules os env (veth_Name veth))) cleanup (\<lambda>_.
      go_try (on_os (ManageContainerPorts os a portmapping OpenPorts)) cleanup (\<lambda>_.
      go_try (on_os (ManageContainerPorts os a6 portmapping OpenPorts)) cleanup k)) s)))))) s)"

definition register_service :: "string \<Rightarrow> service \<Rightarrow> 'w node \<Rightarrow> 'w node" where
  "register_service key srv =
     update_env (\<lambda>env. env\<lparr>deployedServices := AList.update key srv (deployedServices env)\<rparr>)"

text \<open>From the generation of the addresses on.\<close>

definition assign_addresses :: "'w os \<Rightarrow> Veth \<Rightarrow> int \<Rightarrow> string \<Rightarrow> int \<Rightarrow> string \<Rightarrow>
  ('w node, ip \<times> ip) proc" where
  "assign_addresses os veth pid sname instancenumber portmapping =
     go_try (on_env generateAddress) (delete_veth os veth) (\<lambda>a.
     go_try (on_env generateIPv6Address) (update_env (freeContainerAddress a) \<circ> delete_veth os veth) (\<lambda>a6.
     configure_container os veth pid portmapping a a6 (\<lambda>_ s.
     go_return (a, a6) (register_service (service_key sname instancenumber)
       \<lparr>srv_ip = a, srv_ipv6 = a6, srv_sname = sname, srv_portmapping = portmapping, srv_veth = veth\<rparr> s))))"

definition ContainerDeployNetwork :: "'w os \<Rightarrow> (string \<Rightarrow> nat \<Rightarrow> string) \<Rightarrow> int \<Rightarrow> string \<Rightarrow> int \<Rightarrow> string \<Rightarrow>
  ('w node, ip \<times> ip) proc" where
  "ContainerDeployNetwork os hash pid sname instancenumber portmapping s =
     go_try (createVethsPairAndAttachToBridge os hash sname (mtusize (node_env s))) (delete_nil os) (\<lambda>veth.
     go_try (on_os (os (LinkByName (veth_PeerName veth)))) (delete_veth os veth) (\<lambda>_.
     go_try (on_os (os (LinkSetNsPid (veth_PeerName veth) pid))) (delete_veth os veth) (\<lambda>_.
     assign_addresses os veth pid sname instancenumber portmapping))) s"

definition DetachContainer :: "'w os \<Rightarrow> string \<Rightarrow> int \<Rightarrow> 'w node \<Rightarrow> 'w node option" where
  "DetachContainer os sname inst s =
     (let snameAndInstance = service_key sname inst in
      case map_of (deployedServices (node_env s)) snameAndInstance of
        None \<Rightarrow> Some s
      | Some srv \<Rightarrow>
          do {
            (_, t) \<leftarrow> RemoveByNsip (srv_ip srv) (env_table (node_env s));
            let env = (node_env s)\<lparr>env_table := t\<rparr>;
            let env = env\<lparr>deployedServices := AList.delete snameAndInstance (deployedServices env)\<rparr>;
            let env = freeContainerAddress (srv_ip srv) env;
            let env = freeContainerAddress (srv_ipv6 srv) env;
            let w = snd (ManageContainerPorts os (srv_ip srv) (srv_portmapping srv) ClosePorts (node_os s));
            let w = snd (ManageContainerPorts os (srv_ipv6 srv) (srv_portmapping srv) ClosePorts w);
            let w = ignoring os (LinkDel (veth_Name (srv_veth srv))) w;
            env \<leftarrow> (if \<not> MqttIsInterestRegistered sname (node_mqtt s) then RemoveServiceEntries sname env
                     else Some env);
            Some (s\<lparr>node_env := env, node_os := w\<rparr>)
          })"

section \<open>Unikernels\<close>

definition instance_name :: "string \<Rightarrow> int \<Rightarrow> string" where
  "instance_name sname inst = sname @ ''.instance.'' @ Itoa inst"

text \<open>The second cleanup closure, with the error it assigns.\<close>

definition unikernel_cleanup :: "'w os \<Rightarrow> string \<Rightarrow> Veth \<Rightarrow> 'w node \<Rightarrow> error option \<times> 'w node" where
  "unikernel_cleanup os ns veth s =
     (let w = ignoring os (LinkDel (veth_Name veth)) (node_os s);
          w = ignoring os (NsCloseName ns) w;
          (err, w) = os (NsDeleteNamed ns) w
      in (err, s\<lparr>node_os := w\<rparr>))"

text \<open>
  The function run inside the namespace. A failure to attach the tap device returns the error of the
  previous step, which is nil.
\<close>

definition unikernel_setup :: "'w os \<Rightarrow> Environment \<Rightarrow> string \<Rightarrow> ip \<Rightarrow> 'w \<Rightarrow> error option \<times> 'w" where
  "unikernel_setup os env peer a w =
     (case os_seq os [LinkAddBridge ''virbr0'', AddrAdd ''virbr0'' ''192.168.1.1/30'', LinkAddTap ''tap0''] w of
        (Some err, w) \<Rightarrow> (Some err, w)
      | (None, w) \<Rightarrow>
          (case os (LinkSetMaster ''tap0'' ''virbr0'') w of
             (Some _, w) \<Rightarrow> (None, w)
           | (None, w) \<Rightarrow> os_seq os
               [Exec [''ip'', ''link'', ''set'', ''up'', ''dev'', ''virbr0''],
                Exec [''ip'', ''link'', ''set'', ''up'', ''dev'', ''tap0''],
                ParseAddr ''0.0.0.0/0'',
                RouteAdd peer ''0.0.0.0/0'' (IP_String (ParseIP (HostBridgeIP (config env)))),
                Exec [''iptables'', ''-t'', ''nat'', ''-A'', ''POSTROUTING'', ''-o'', peer, ''-j'', ''SNAT'', ''--to'', IP_String a],
                Exec [''iptables'', ''-t'', ''nat'', ''-A'', ''PREROUTING'', ''-i'', peer, ''-j'', ''DNAT'', ''--to'', ''192.168.1.2'']] w))"

definition free_after :: "ip \<Rightarrow> ('w node \<Rightarrow> error option \<times> 'w node) \<Rightarrow> 'w node \<Rightarrow> error option \<times> 'w node" where
  "free_after a cleanup s = (case cleanup s of (err, s) \<Rightarrow> (err, update_env (freeContainerAddress a) s))"

definition configure_unikernel :: "'w os \<Rightarrow> string \<Rightarrow> Veth \<Rightarrow> string \<Rightarrow> ip \<Rightarrow>
  (unit \<Rightarrow> ('w node, ip \<times> ip) proc) \<Rightarrow> ('w node, ip \<times> ip) proc" where
  "configure_unikernel os ns veth portmapping a k s =
     (let env = node_env s;
          cleanup = free_after a (unikernel_cleanup os ns veth)
      in
      go_try (on_os (addPeerLinkNetworkByNsName os ns (IP_String a @ HostBridgeMask (config env)) (veth_PeerName veth)))
        (snd \<circ> cleanup) (\<lambda>_.
      go_try_overwritten (on_os (execInsideNsByName os ns (unikernel_setup os env (veth_PeerName veth) a)))
        cleanup (None, None) (\<lambda>_ s.
      (let s = update_env BookVethNumber s in
      go_try_overwritten (on_os (setVethFirewallRules os env (veth_Name veth))) cleanup (None, None) (\<lambda>_.
      go_try_overwritten (on_os (ManageContainerPorts os a portmapping OpenPorts)) cleanup (None, None) k) s))) s)"

definition assign_unikernel_address :: "'w os \<Rightarrow> string \<Rightarrow> Veth \<Rightarrow> string \<Rightarrow> string \<Rightarrow>
  ('w node, ip \<times> ip) proc" where
  "assign_unikernel_address os ns veth sname portmapping =
     go_try_overwritten (on_env generateAddress) (unikernel_cleanup os ns veth) (None, None) (\<lambda>a.
     configure_unikernel os ns veth portmapping a (\<lambda>_ s.
     go_return (a, None) (register_service ns
       \<lparr>srv_ip = a, srv_ipv6 = None, srv_sname = sname, srv_portmapping = portmapping, srv_veth = veth\<rparr> s)))"

definition UnikernelDeployNetwork :: "'w os \<Rightarrow> (string \<Rightarrow> nat \<Rightarrow> string) \<Rightarrow> int \<Rightarrow> string \<Rightarrow> int \<Rightarrow> string \<Rightarrow>
  ('w node, ip \<times> ip) proc" where
  "UnikernelDeployNetwork os hash pid sname instancenumber portmapping s =
     (let ns = instance_name sname instancenumber in
     go_try (createVethsPairAndAttachToBridge os hash ns (mtusize (node_env s))) (delete_nil os) (\<lambda>veth.
     go_try (on_os (os (LinkByName (veth_PeerName veth)))) (delete_veth os veth) (\<lambda>_.
     go_try (on_os (os (Exec [''ip'', ''netns'', ''add'', ns]))) (delete_veth os veth) (\<lambda>_.
     go_try (on_os (os (NsGetFromName ns))) id (\<lambda>_.
     go_try (on_os (os (LinkSetNs (veth_PeerName veth) ns))) (snd \<circ> unikernel_cleanup os ns veth) (\<lambda>_.
     assign_unikernel_address os ns veth sname portmapping))))) s)"

definition DeleteUnikernelNamespace :: "'w os \<Rightarrow> string \<Rightarrow> int \<Rightarrow> 'w node \<Rightarrow> 'w node option" where
  "DeleteUnikernelNamespace os sname inst s =
     (let name = instance_name sname inst in
      case map_of (deployedServices (node_env s)) name of
        None \<Rightarrow> Some s
      | Some srv \<Rightarrow>
          do {
            (_, t) \<leftarrow> RemoveByNsip (srv_ip srv) (env_table (node_env s));
            let env = (node_env s)\<lparr>env_table := t\<rparr>;
            let env = env\<lparr>deployedServices := AList.delete name (deployedServices env)\<rparr>;
            let env = freeContainerAddress (srv_ip srv) env;
            let w = snd (ManageContainerPorts os (srv_ip srv) (srv_portmapping srv) ClosePorts (node_os s));
            let w = ignoring os (LinkDel (veth_Name (srv_veth srv))) w;
            let w = ignoring os (NsDeleteNamed name) w;
            Some (s\<lparr>node_env := env, node_os := w\<rparr>)
          })"

section \<open>Dispatch\<close>

definition CONTAINER_RUNTIME :: string where "CONTAINER_RUNTIME = ''container''"

definition UNIKERNEL_RUNTIME :: string where "UNIKERNEL_RUNTIME = ''unikernel''"

text \<open>An unknown runtime has no handler, and a call on it panics.\<close>

definition GetNetDeployment :: "'w os \<Rightarrow> (string \<Rightarrow> nat \<Rightarrow> string) \<Rightarrow> string \<Rightarrow>
  (int \<Rightarrow> string \<Rightarrow> int \<Rightarrow> string \<Rightarrow> ('w node, ip \<times> ip) proc) option" where
  "GetNetDeployment os hash handler =
     (if handler = CONTAINER_RUNTIME then Some (ContainerDeployNetwork os hash)
      else if handler = UNIKERNEL_RUNTIME then Some (UnikernelDeployNetwork os hash)
      else None)"

end
