(* ===== verification/DeploymentSafety.thy ===== *)
theory DeploymentSafety
  imports Deployment
begin

text \<open>
  What deployments guarantee about addresses. The invariant \<open>net_ok\<close> says that the addresses of the
  deployed services are distinct, come from the pools and are not available; the pools are used
  through the laws of \<open>address_pool\<close>. Deploying either commits one service with fresh addresses or,
  when it fails, leaves the same services and the same available addresses.
\<close>

section \<open>Association lists\<close>

lemma update_distinct_values:
  "distinct (filter P (map f al)) \<Longrightarrow> (P (f (k, v)) \<Longrightarrow> f (k, v) \<notin> set (map f al)) \<Longrightarrow>
    distinct (filter P (map f (AList.update k v al))) \<and>
    set (map f (AList.update k v al)) \<subseteq> insert (f (k, v)) (set (map f al))"
proof (induction al)
  case (Cons p al)
  then show ?case by (cases p) (auto split: if_splits)
qed simp

lemma delete_distinct_values:
  "distinct (filter P (map f al)) \<Longrightarrow> distinct (filter P (map f (AList.delete k al)))"
  by (induction al) (auto simp: AList.delete_eq)

lemma set_delete: "set (AList.delete k al) = {p \<in> set al. fst p \<noteq> k}"
  by (auto simp: AList.delete_eq)

text \<open>The value of a key differs from the values of the other keys.\<close>

lemma distinct_values_key:
  assumes "distinct (filter P (map f al))" "(k, v) \<in> set al" "p \<in> set al" "fst p \<noteq> k" "P (f (k, v))"
  shows "f p \<noteq> f (k, v)"
  using assms
proof (induction al)
  case (Cons q al)
  then show ?case
    by (cases "q = (k, v)"; cases "q = p") (auto simp: image_iff split: if_splits)
qed simp

section \<open>Processes that only talk to the system\<close>

definition only_os :: "('w node, 'a) proc \<Rightarrow> bool" where
  "only_os act \<longleftrightarrow> (\<forall>s. \<exists>r w. act s = Some (r, s\<lparr>node_os := w\<rparr>))"

lemma only_os_on_os [intro]: "only_os (on_os f)"
  unfolding only_os_def on_os_def by (auto split: prod.splits option.splits)

lemma only_os_try_id:
  assumes "only_os act" "\<And>x. only_os (k x)"
  shows "only_os (go_try act id k)"
  unfolding only_os_def
proof
  fix s
  from assms(1) obtain r w where a: "act s = Some (r, s\<lparr>node_os := w\<rparr>)" unfolding only_os_def by blast
  show "\<exists>r w. go_try act id k s = Some (r, s\<lparr>node_os := w\<rparr>)"
  proof (cases r)
    case (Inl e)
    with a show ?thesis by (auto simp: go_try_def)
  next
    case (Inr x)
    from assms(2) [of x] obtain r' w' where
      "k x (s\<lparr>node_os := w\<rparr>) = Some (r', s\<lparr>node_os := w\<rparr>\<lparr>node_os := w'\<rparr>)" unfolding only_os_def by blast
    with a Inr show ?thesis by (auto simp: go_try_def)
  qed
qed

lemma only_os_return: "only_os (go_return x :: ('w node, 'a) proc)"
  unfolding only_os_def
proof
  show "\<exists>r w. go_return x s = Some (r, s\<lparr>node_os := w\<rparr>)" for s :: "'w node"
    by (rule exI [of _ "Inr x"], rule exI [of _ "node_os s"]) simp
qed

lemma only_os_veth: "only_os (createVethsPairAndAttachToBridge os hash sname mtu)"
proof -
  have "\<exists>r w. createVethsPairAndAttachToBridge os hash sname mtu s = Some (r, s\<lparr>node_os := w\<rparr>)" for s
  proof -
    have "only_os (go_try (on_os (os (LinkByName b))) id (\<lambda>_. go_try (on_os (os (LinkAdd n p m))) id (\<lambda>_.
        go_try (on_os (os (LinkSetMaster n b))) id (\<lambda>_. go_try (on_os (os (LinkSetUp n))) id (\<lambda>_.
        go_return v)))))" for b n p m and v :: Veth
      by (intro only_os_try_id only_os_on_os only_os_return)
    then show ?thesis unfolding createVethsPairAndAttachToBridge_def Let_def only_os_def by blast
  qed
  then show ?thesis by (simp add: only_os_def)
qed

text \<open>
  The rules for a stage: a postcondition that does not look at the system state is reached through
  any system state.
\<close>

definition os_free :: "((error + 'a) \<Rightarrow> 'w node \<Rightarrow> bool) \<Rightarrow> bool" where
  "os_free Q \<longleftrightarrow> (\<forall>r s w. Q r (s\<lparr>node_os := w\<rparr>) = Q r s)"

lemma stage_post:
  assumes "only_os act"
    and "\<And>e w. Q (Inl e) (cleanup (s\<lparr>node_os := w\<rparr>))"
    and "\<And>x w. go_post Q (k x (s\<lparr>node_os := w\<rparr>))"
  shows "go_post Q (go_try act cleanup k s)"
proof (rule go_try_post)
  from assms(1) obtain r w where a: "act s = Some (r, s\<lparr>node_os := w\<rparr>)" unfolding only_os_def by blast
  with assms(2,3) show "go_post (\<lambda>r s'. case r of Inl e \<Rightarrow> Q (Inl e) (cleanup s') | Inr x \<Rightarrow> go_post Q (k x s')) (act s)"
    by (auto split: sum.splits)
qed

lemma overwritten_post:
  assumes "only_os act"
    and "\<And>e w. case cleanup (s\<lparr>node_os := w\<rparr>) of
        (None, s') \<Rightarrow> Q (Inr zero) s' | (Some e, s') \<Rightarrow> Q (Inl e) s'"
    and "\<And>x w. go_post Q (k x (s\<lparr>node_os := w\<rparr>))"
  shows "go_post Q (go_try_overwritten act cleanup zero k s)"
proof -
  from assms(1) obtain r w where a: "act s = Some (r, s\<lparr>node_os := w\<rparr>)" unfolding only_os_def by blast
  show ?thesis
  proof (cases r)
    case (Inl e)
    with a assms(2) [of w] show ?thesis by (auto simp: go_try_overwritten_def split: prod.splits option.splits)
  next
    case (Inr x)
    with a assms(3) show ?thesis by (simp add: go_try_overwritten_def)
  qed
qed

section \<open>The invariant\<close>

definition service_ips :: "Environment \<Rightarrow> ip list" where
  "service_ips env = map (\<lambda>p. srv_ip (snd p)) (deployedServices env)"

definition service_ipv6s :: "Environment \<Rightarrow> ip list" where
  "service_ipv6s env = filter (\<lambda>a. a \<noteq> None) (map (\<lambda>p. srv_ipv6 (snd p)) (deployedServices env))"

definition net_ok :: "nat \<Rightarrow> nat \<Rightarrow> Environment \<Rightarrow> bool" where
  "net_ok b4 b6 env \<longleftrightarrow> pool4_ok b4 env \<and> pool6_ok b6 env \<and>
     distinct (map fst (deployedServices env)) \<and>
     distinct (service_ips env) \<and> set (service_ips env) \<subseteq> universe4 b4 - available4 b4 env \<and>
     distinct (service_ipv6s env) \<and> set (service_ipv6s env) \<subseteq> universe6 b6 - available6 b6 env"

lemma net_okD:
  assumes "net_ok b4 b6 env"
  shows "pool4_ok b4 env" "pool6_ok b6 env" "distinct (map fst (deployedServices env))"
    "distinct (service_ips env)" "set (service_ips env) \<subseteq> universe4 b4 - available4 b4 env"
    "distinct (service_ipv6s env)" "set (service_ipv6s env) \<subseteq> universe6 b6 - available6 b6 env"
  using assms by (simp_all add: net_ok_def)

text \<open>The parts of the environment that deployments and the pools share.\<close>

definition same_network :: "nat \<Rightarrow> nat \<Rightarrow> Environment \<Rightarrow> Environment \<Rightarrow> bool" where
  "same_network b4 b6 env env' \<longleftrightarrow> pool4_ok b4 env' \<and> pool6_ok b6 env' \<and>
     available4 b4 env' = available4 b4 env \<and> available6 b6 env' = available6 b6 env \<and>
     deployedServices env' = deployedServices env \<and> env_table env' = env_table env"

lemma same_network_ok: "same_network b4 b6 env env' \<Longrightarrow> net_ok b4 b6 env \<Longrightarrow> net_ok b4 b6 env'"
  by (simp add: same_network_def net_ok_def service_ips_def service_ipv6s_def)

lemma same_network_refl: "net_ok b4 b6 env \<Longrightarrow> same_network b4 b6 env env"
  by (simp add: same_network_def net_ok_def)

text \<open>Freeing an address of one pool.\<close>

lemma free4_fields:
  assumes "a \<in> universe4 b4"
  shows "freeContainerAddress a env = env\<lparr>addrCache := addrCache env @ [a]\<rparr>"
  using assms by (auto simp: universe4_def freeContainerAddress_def)

lemma free6_fields:
  assumes "a \<in> universe6 b6" "pool6_ok b6 env"
  shows "freeContainerAddress a env = env\<lparr>addrCachev6 := addrCachev6 env @ [a]\<rparr>"
proof -
  from assms obtain n where n: "a = v6addr n" "2 ^ 48 \<le> n" "n < 2 ^ 128"
    by (auto simp: universe6_def pool6_ok_def)
  from To4_v6addr [OF n(2,3)] n(1) show ?thesis
    by (simp add: freeContainerAddress_def) (simp add: v6addr_def)
qed

lemma free_nil: "freeContainerAddress None env = env"
  by (simp add: freeContainerAddress_def To4_def To16_def ip_bytes_def)

text \<open>Between the generation of addresses and the commit or the cleanup.\<close>

definition holding4 :: "nat \<Rightarrow> nat \<Rightarrow> Environment \<Rightarrow> ip \<Rightarrow> Environment \<Rightarrow> bool" where
  "holding4 b4 b6 env a env' \<longleftrightarrow> pool4_ok b4 env' \<and> pool6_ok b6 env' \<and>
     a \<in> available4 b4 env \<and> available4 b4 env' = available4 b4 env - {a} \<and>
     available6 b6 env' = available6 b6 env \<and>
     deployedServices env' = deployedServices env \<and> env_table env' = env_table env"

definition holding :: "nat \<Rightarrow> nat \<Rightarrow> Environment \<Rightarrow> ip \<Rightarrow> ip \<Rightarrow> Environment \<Rightarrow> bool" where
  "holding b4 b6 env a a6 env' \<longleftrightarrow> pool4_ok b4 env' \<and> pool6_ok b6 env' \<and>
     a \<in> available4 b4 env \<and> available4 b4 env' = available4 b4 env - {a} \<and>
     a6 \<in> available6 b6 env \<and> available6 b6 env' = available6 b6 env - {a6} \<and>
     deployedServices env' = deployedServices env \<and> env_table env' = env_table env"

lemma generate4_post:
  assumes ok: "net_ok b4 b6 env"
  shows "\<exists>r env'. generateAddress env = Some (r, env') \<and>
    (case r of Inl e \<Rightarrow> same_network b4 b6 env env' | Inr a \<Rightarrow> holding4 b4 b6 env a env')"
  using net_okD(1) [OF ok]
proof (cases rule: pool4.alloc_cases)
  case (empty err)
  with same_network_refl [OF ok] show ?thesis by auto
next
  case (got a env')
  note f = generateAddress_frame [OF got(1)]
  with pool6_cong [of env' env b6] got net_okD(2) [OF ok] show ?thesis by (auto simp: holding4_def)
qed

lemma generate6_post:
  assumes h: "holding4 b4 b6 env a env1"
  shows "\<exists>r env'. generateIPv6Address env1 = Some (r, env') \<and>
    (case r of Inl e \<Rightarrow> holding4 b4 b6 env a env' | Inr a6 \<Rightarrow> holding b4 b6 env a a6 env')"
proof -
  have "pool6_ok b6 env1" using h by (simp add: holding4_def)
  then show ?thesis
  proof (cases rule: pool6.alloc_cases)
    case (empty err)
    with h show ?thesis by auto
  next
    case (got a6 env')
    note f = generateIPv6Address_frame [OF got(1)]
    with pool4_cong [of env' env1 b4] got h show ?thesis by (auto simp: holding4_def holding_def)
  qed
qed

text \<open>Cleaning up restores the network.\<close>

lemma holding4_undo:
  assumes ok: "net_ok b4 b6 env" and h: "holding4 b4 b6 env a env1"
  shows "same_network b4 b6 env (freeContainerAddress a env1)"
proof -
  from h net_okD(1) [OF ok] have a: "a \<in> universe4 b4" "a \<notin> available4 b4 env1"
    using pool4.available_universe by (auto simp: holding4_def)
  with h have "pool4_ok b4 (freeContainerAddress a env1)"
    "available4 b4 (freeContainerAddress a env1) = insert a (available4 b4 env1)"
    using pool4.release_ok [of b4 env1 a] by (simp_all add: holding4_def)
  moreover have "insert a (available4 b4 env1) = available4 b4 env" using h by (auto simp: holding4_def)
  moreover note f = free4_fields [OF a(1), of env1]
  then have "pool6_ok b6 (freeContainerAddress a env1) = pool6_ok b6 env1 \<and>
      available6 b6 (freeContainerAddress a env1) = available6 b6 env1"
    by (intro pool6_cong) simp_all
  ultimately show ?thesis using h f by (simp add: same_network_def holding4_def)
qed

lemma holding_undo:
  assumes ok: "net_ok b4 b6 env" and h: "holding b4 b6 env a a6 env1"
  shows "same_network b4 b6 env (freeContainerAddress a6 (freeContainerAddress a env1))"
proof -
  let ?e = "freeContainerAddress a env1"
  from h net_okD(1,2) [OF ok] have a: "a \<in> universe4 b4" "a \<notin> available4 b4 env1"
    "a6 \<in> universe6 b6" "a6 \<notin> available6 b6 env1"
    using pool4.available_universe [of b4 env] pool6.available_universe [of b6 env]
    by (auto simp: holding_def)
  note f = free4_fields [OF a(1), of env1]
  have six: "pool6_ok b6 ?e = pool6_ok b6 env1 \<and> available6 b6 ?e = available6 b6 env1"
    unfolding f by (intro pool6_cong) simp_all
  have four: "pool4_ok b4 ?e \<and> available4 b4 ?e = insert a (available4 b4 env1)"
    using h a by (intro pool4.release_ok) (simp_all add: holding_def)
  have ok6: "pool6_ok b6 ?e" using six h by (simp add: holding_def)
  note f6 = free6_fields [OF a(3) ok6]
  have "pool6_ok b6 (freeContainerAddress a6 ?e) \<and>
      available6 b6 (freeContainerAddress a6 ?e) = insert a6 (available6 b6 ?e)"
    using ok6 a six by (intro pool6.release_ok) simp_all
  moreover have "pool4_ok b4 (freeContainerAddress a6 ?e) = pool4_ok b4 ?e \<and>
      available4 b4 (freeContainerAddress a6 ?e) = available4 b4 ?e"
    unfolding f6 by (intro pool4_cong) simp_all
  moreover have "deployedServices (freeContainerAddress a6 ?e) = deployedServices env1"
    "env_table (freeContainerAddress a6 ?e) = env_table env1"
    by (simp_all add: f f6 [unfolded f])
  moreover have "insert a (available4 b4 env1) = available4 b4 env"
    "insert a6 (available6 b6 env1) = available6 b6 env" using h by (auto simp: holding_def)
  ultimately show ?thesis using h four six by (simp add: same_network_def holding_def)
qed

text \<open>Committing a service with fresh addresses keeps the invariant.\<close>

lemma commit_ok:
  assumes ok: "net_ok b4 b6 env"
    and pools: "pool4_ok b4 env1" "pool6_ok b6 env1" "deployedServices env1 = deployedServices env"
    and a: "srv_ip srv \<in> available4 b4 env" "available4 b4 env1 = available4 b4 env - {srv_ip srv}"
    and a6: "srv_ipv6 srv = None \<and> available6 b6 env1 = available6 b6 env \<or>
      srv_ipv6 srv \<in> available6 b6 env \<and> available6 b6 env1 = available6 b6 env - {srv_ipv6 srv}"
  shows "net_ok b4 b6 (env1\<lparr>deployedServices := AList.update key srv (deployedServices env1)\<rparr>)"
proof -
  note D = net_okD [OF ok]
  let ?env' = "env1\<lparr>deployedServices := AList.update key srv (deployedServices env1)\<rparr>"
  let ?f = "\<lambda>p. srv_ip (snd p)" and ?g = "\<lambda>p. srv_ipv6 (snd p)"
  have p4: "pool4_ok b4 ?env'" "available4 b4 ?env' = available4 b4 env1"
    using pool4_cong [of ?env' env1 b4] pools(1) by simp_all
  have p6: "pool6_ok b6 ?env'" "available6 b6 ?env' = available6 b6 env1"
    using pool6_cong [of ?env' env1 b6] pools(2) by simp_all
  have new4: "srv_ip srv \<notin> set (service_ips env)" using D(5) a(1) by blast
  have four: "distinct (filter (\<lambda>_. True) (map ?f (AList.update key srv (deployedServices env)))) \<and>
      set (map ?f (AList.update key srv (deployedServices env))) \<subseteq> insert (srv_ip srv) (set (service_ips env))"
    using update_distinct_values [of "\<lambda>_. True" ?f "deployedServices env" key srv] D(4) new4
    unfolding service_ips_def by simp
  have six: "distinct (filter (\<lambda>x. x \<noteq> None) (map ?g (AList.update key srv (deployedServices env)))) \<and>
      set (map ?g (AList.update key srv (deployedServices env))) \<subseteq>
        insert (srv_ipv6 srv) (set (map ?g (deployedServices env)))"
  proof -
    have "srv_ipv6 srv \<notin> set (map ?g (deployedServices env))" if "srv_ipv6 srv \<noteq> None"
    proof
      assume "srv_ipv6 srv \<in> set (map ?g (deployedServices env))"
      with that have "srv_ipv6 srv \<in> set (service_ipv6s env)" by (simp add: service_ipv6s_def)
      with D(7) a6 that show False by blast
    qed
    with update_distinct_values [of "\<lambda>x. x \<noteq> None" ?g "deployedServices env" key srv] D(6)
    show ?thesis unfolding service_ipv6s_def by simp
  qed
  have s4: "set (service_ips ?env') \<subseteq> universe4 b4 - available4 b4 env1"
  proof -
    have "set (service_ips ?env') \<subseteq> insert (srv_ip srv) (set (service_ips env))"
      using four unfolding service_ips_def pools(3) by simp
    moreover have "srv_ip srv \<in> universe4 b4" using pool4.available_universe [OF D(1)] a(1) by blast
    ultimately show ?thesis using D(5) a(2) by blast
  qed
  have s6: "set (service_ipv6s ?env') \<subseteq> universe6 b6 - available6 b6 env1"
  proof -
    have "set (service_ipv6s ?env') \<subseteq> insert (srv_ipv6 srv) (set (service_ipv6s env)) - {None}"
      using six unfolding service_ipv6s_def pools(3) by auto
    moreover have "srv_ipv6 srv = None \<or> srv_ipv6 srv \<in> universe6 b6"
      using pool6.available_universe [OF D(2)] a6 by blast
    ultimately show ?thesis using D(7) a6 by blast
  qed
  have "distinct (map fst (deployedServices ?env'))"
    using D(3) pools(3) by (simp add: distinct_update)
  with p4 p6 s4 s6 four six show ?thesis
    by (simp add: net_ok_def service_ips_def service_ipv6s_def pools(3))
qed

section \<open>Deployments\<close>

text \<open>What a deployment promises, with the key it registers the service under.\<close>

definition deployed_post :: "nat \<Rightarrow> nat \<Rightarrow> Environment \<Rightarrow> NetMqttClient \<Rightarrow> string \<Rightarrow> string \<Rightarrow> string \<Rightarrow>
  error + ip \<times> ip \<Rightarrow> 'w node \<Rightarrow> bool" where
  "deployed_post b4 b6 env client key sname portmapping r s' \<longleftrightarrow>
     node_mqtt s' = client \<and> env_table (node_env s') = env_table env \<and> net_ok b4 b6 (node_env s') \<and>
     (case r of
        Inl e \<Rightarrow> same_network b4 b6 env (node_env s')
      | Inr (a, a6) \<Rightarrow>
          a \<in> available4 b4 env \<and> a6 \<in> available6 b6 env \<and>
          available4 b4 (node_env s') = available4 b4 env - {a} \<and>
          available6 b6 (node_env s') = available6 b6 env - {a6} \<and>
          (\<exists>veth. deployedServices (node_env s') =
            AList.update key \<lparr>srv_ip = a, srv_ipv6 = a6, srv_sname = sname, srv_portmapping = portmapping,
              srv_veth = veth\<rparr> (deployedServices env)))"

lemma same_network_post:
  "net_ok b4 b6 env \<Longrightarrow> same_network b4 b6 env (node_env s) \<Longrightarrow> node_mqtt s = client \<Longrightarrow>
    deployed_post b4 b6 env client key sname pm (Inl e) s"
  by (simp add: deployed_post_def same_network_ok) (simp add: same_network_def)

lemma node_fields [simp]:
  "node_env (delete_veth os veth s) = node_env s" "node_mqtt (delete_veth os veth s) = node_mqtt s"
  "node_env (delete_nil os s) = node_env s" "node_mqtt (delete_nil os s) = node_mqtt s"
  "node_env (update_env f s) = f (node_env s)" "node_mqtt (update_env f s) = node_mqtt s"
  "node_env (free_addresses a a6 s) = freeContainerAddress a6 (freeContainerAddress a (node_env s))"
  "node_mqtt (free_addresses a a6 s) = node_mqtt s"
  by (simp_all add: delete_veth_def delete_nil_def ignore_os_def update_env_def free_addresses_def)

lemma book_holding: "holding b4 b6 env a a6 (BookVethNumber e) = holding b4 b6 env a a6 e"
  using pool4_cong [of "BookVethNumber e" e b4] pool6_cong [of "BookVethNumber e" e b6]
  by (simp add: holding_def BookVethNumber_def)

lemma configure_container_post:
  assumes ok: "net_ok b4 b6 env" and h: "holding b4 b6 env a a6 (node_env s)"
    and client: "node_mqtt s = client"
    and k: "\<And>x s'. holding b4 b6 env a a6 (node_env s') \<Longrightarrow> node_mqtt s' = client \<Longrightarrow>
      go_post (deployed_post b4 b6 env client key sname pm) (k x s')"
  shows "go_post (deployed_post b4 b6 env client key sname pm)
    (configure_container os veth pid portmapping a a6 k s)"
proof -
  have fail: "deployed_post b4 b6 env client key sname pm (Inl e)
      ((free_addresses a a6 \<circ> delete_veth os veth) (t\<lparr>node_os := w\<rparr>))"
    if "holding b4 b6 env a a6 (node_env t)" "node_mqtt t = client" for e w and t :: "'a node"
    using that holding_undo [OF ok that(1)] by (intro same_network_post [OF ok]) simp_all
  show ?thesis
    unfolding configure_container_def Let_def
    by (intro stage_post only_os_on_os fail k) (simp_all add: h client book_holding)
qed

text \<open>A stage on the environment whose result and next environment are known.\<close>

lemma on_env_post:
  assumes "f (node_env s) = Some (r, env')"
    and "\<And>e. r = Inl e \<Longrightarrow> Q (Inl e) (cleanup (s\<lparr>node_env := env'\<rparr>))"
    and "\<And>x. r = Inr x \<Longrightarrow> go_post Q (k x (s\<lparr>node_env := env'\<rparr>))"
  shows "go_post Q (go_try (on_env f) cleanup k s)"
  using assms by (intro go_try_post) (auto simp: on_env_def split: sum.splits)

lemma register_fields [simp]:
  "node_env (register_service key srv s) =
     (node_env s)\<lparr>deployedServices := AList.update key srv (deployedServices (node_env s))\<rparr>"
  "node_mqtt (register_service key srv s) = node_mqtt s"
  by (simp_all add: register_service_def)

lemma commit_container_post:
  assumes ok: "net_ok b4 b6 env" and h: "holding b4 b6 env a a6 (node_env s)" and c: "node_mqtt s = client"
  shows "deployed_post b4 b6 env client key sname pm (Inr (a, a6)) (register_service key
    \<lparr>srv_ip = a, srv_ipv6 = a6, srv_sname = sname, srv_portmapping = pm, srv_veth = veth\<rparr> s)"
proof -
  let ?srv = "\<lparr>srv_ip = a, srv_ipv6 = a6, srv_sname = sname, srv_portmapping = pm, srv_veth = veth\<rparr>"
  let ?env' = "(node_env s)\<lparr>deployedServices := AList.update key ?srv (deployedServices (node_env s))\<rparr>"
  have "net_ok b4 b6 ?env'"
    using h by (intro commit_ok [OF ok]) (simp_all add: holding_def)
  moreover have "available4 b4 ?env' = available4 b4 (node_env s)" "available6 b6 ?env' = available6 b6 (node_env s)"
    using pool4_cong [of ?env' "node_env s" b4] pool6_cong [of ?env' "node_env s" b6] by simp_all
  ultimately show ?thesis
    using h c by (auto simp: deployed_post_def holding_def)
qed

lemma assign_addresses_post:
  assumes ok: "net_ok b4 b6 env" and t: "node_env t = env" "node_mqtt t = client"
  shows "go_post (deployed_post b4 b6 env client (service_key sname inst) sname pm)
    (assign_addresses os veth pid sname inst pm t)"
proof -
  from generate4_post [OF ok] obtain r env1 where g: "generateAddress (node_env t) = Some (r, env1)"
    and p: "case r of Inl e \<Rightarrow> same_network b4 b6 env env1 | Inr a \<Rightarrow> holding4 b4 b6 env a env1"
    unfolding t(1) by blast
  show ?thesis
    unfolding assign_addresses_def
  proof (rule on_env_post [where f = generateAddress, OF g])
    fix e assume "r = Inl e"
    with p t show "deployed_post b4 b6 env client (service_key sname inst) sname pm (Inl e)
        (delete_veth os veth (t\<lparr>node_env := env1\<rparr>))"
      by (intro same_network_post [OF ok]) simp_all
  next
    fix a assume "r = Inr a"
    with p have h4: "holding4 b4 b6 env a env1" by simp
    from generate6_post [OF h4] obtain r' env2 where
      g6: "generateIPv6Address (node_env (t\<lparr>node_env := env1\<rparr>)) = Some (r', env2)" and p6:
      "case r' of Inl e \<Rightarrow> holding4 b4 b6 env a env2 | Inr a6 \<Rightarrow> holding b4 b6 env a a6 env2" by auto
    show "go_post (deployed_post b4 b6 env client (service_key sname inst) sname pm)
      (go_try (on_env generateIPv6Address) (update_env (freeContainerAddress a) \<circ> delete_veth os veth)
        (\<lambda>a6. configure_container os veth pid pm a a6 (\<lambda>_ s.
          go_return (a, a6) (register_service (service_key sname inst)
            \<lparr>srv_ip = a, srv_ipv6 = a6, srv_sname = sname, srv_portmapping = pm, srv_veth = veth\<rparr> s)))
        (t\<lparr>node_env := env1\<rparr>))"
    proof (rule on_env_post [where f = generateIPv6Address, OF g6])
      fix e assume "r' = Inl e"
      with p6 holding4_undo [OF ok, of a env2] t show
        "deployed_post b4 b6 env client (service_key sname inst) sname pm (Inl e)
          ((update_env (freeContainerAddress a) \<circ> delete_veth os veth) (t\<lparr>node_env := env1\<rparr>\<lparr>node_env := env2\<rparr>))"
        by (intro same_network_post [OF ok]) simp_all
    next
      fix a6 assume "r' = Inr a6"
      with p6 t show "go_post (deployed_post b4 b6 env client (service_key sname inst) sname pm)
        (configure_container os veth pid pm a a6 (\<lambda>_ s.
          go_return (a, a6) (register_service (service_key sname inst)
            \<lparr>srv_ip = a, srv_ipv6 = a6, srv_sname = sname, srv_portmapping = pm, srv_veth = veth\<rparr> s))
          (t\<lparr>node_env := env1\<rparr>\<lparr>node_env := env2\<rparr>))"
        by (intro configure_container_post [OF ok]) (simp_all add: commit_container_post [OF ok])
    qed
  qed
qed

lemma container_deploy_post:
  assumes ok: "net_ok b4 b6 (node_env s)"
  shows "go_post (deployed_post b4 b6 (node_env s) (node_mqtt s) (service_key sname inst) sname pm)
    (ContainerDeployNetwork os hash pid sname inst pm s)"
  unfolding ContainerDeployNetwork_def
  by (intro stage_post only_os_veth only_os_on_os assign_addresses_post ok same_network_post)
     (simp_all add: same_network_refl ok)

section \<open>Unikernel deployments\<close>

text \<open>
  The outcome of a unikernel deployment: an error, a committed service with an IPv4 address, or the
  nil addresses without an error that an overwritten error leaves behind.
\<close>

definition unikernel_post :: "nat \<Rightarrow> nat \<Rightarrow> Environment \<Rightarrow> NetMqttClient \<Rightarrow> string \<Rightarrow> string \<Rightarrow> string \<Rightarrow>
  error + ip \<times> ip \<Rightarrow> 'w node \<Rightarrow> bool" where
  "unikernel_post b4 b6 env client key sname portmapping r s' \<longleftrightarrow>
     node_mqtt s' = client \<and> env_table (node_env s') = env_table env \<and> net_ok b4 b6 (node_env s') \<and>
     (case r of
        Inl e \<Rightarrow> same_network b4 b6 env (node_env s')
      | Inr (a, a6) \<Rightarrow> a6 = None \<and>
          (if a = None then same_network b4 b6 env (node_env s')
           else
             a \<in> available4 b4 env \<and> available4 b4 (node_env s') = available4 b4 env - {a} \<and>
             available6 b6 (node_env s') = available6 b6 env \<and>
             (\<exists>veth. deployedServices (node_env s') =
               AList.update key \<lparr>srv_ip = a, srv_ipv6 = None, srv_sname = sname,
                 srv_portmapping = portmapping, srv_veth = veth\<rparr> (deployedServices env))))"

lemma same_network_upost:
  "net_ok b4 b6 env \<Longrightarrow> same_network b4 b6 env (node_env s) \<Longrightarrow> node_mqtt s = client \<Longrightarrow>
    unikernel_post b4 b6 env client key sname pm (Inl e) s \<and>
    unikernel_post b4 b6 env client key sname pm (Inr (None, None)) s"
  by (simp add: unikernel_post_def same_network_ok) (simp add: same_network_def)

lemma cleanup_fields:
  assumes "unikernel_cleanup os ns veth s = (err, s')"
  shows "node_env s' = node_env s \<and> node_mqtt s' = node_mqtt s"
  using assms by (auto simp: unikernel_cleanup_def Let_def split: prod.splits)

lemma free_after_fields:
  assumes "free_after a (unikernel_cleanup os ns veth) s = (err, s')"
  shows "node_env s' = freeContainerAddress a (node_env s) \<and> node_mqtt s' = node_mqtt s"
  using assms cleanup_fields [of os ns veth s] by (auto simp: free_after_def split: prod.splits)

lemma book_holding4: "holding4 b4 b6 env a (BookVethNumber e) = holding4 b4 b6 env a e"
  using pool4_cong [of "BookVethNumber e" e b4] pool6_cong [of "BookVethNumber e" e b6]
  by (simp add: holding4_def BookVethNumber_def)

lemma v4_not_nil:
  assumes "net_ok b4 b6 env" "a \<in> available4 b4 env" shows "a \<noteq> None"
  using pool4.available_universe [OF net_okD(1) [OF assms(1)]] assms(2)
  by (auto simp: universe4_def v4addr_def)

lemma configure_unikernel_post:
  assumes ok: "net_ok b4 b6 env" and h: "holding4 b4 b6 env a (node_env s)"
    and client: "node_mqtt s = client"
    and k: "\<And>x s'. holding4 b4 b6 env a (node_env s') \<Longrightarrow> node_mqtt s' = client \<Longrightarrow>
      go_post (unikernel_post b4 b6 env client key sname pm) (k x s')"
  shows "go_post (unikernel_post b4 b6 env client key sname pm)
    (configure_unikernel os ns veth portmapping a k s)"
proof -
  let ?clean = "free_after a (unikernel_cleanup os ns veth)"
  have failed: "unikernel_post b4 b6 env client key sname pm (Inl e) t' \<and>
      unikernel_post b4 b6 env client key sname pm (Inr (None, None)) t'"
    if "holding4 b4 b6 env a (node_env t)" "node_mqtt t = client" "?clean (t\<lparr>node_os := w\<rparr>) = (err, t')"
    for e err w t' and t :: "'a node"
    using free_after_fields [OF that(3)] holding4_undo [OF ok that(1)] that(2)
    by (intro same_network_upost [OF ok]) simp_all
  have fail: "unikernel_post b4 b6 env client key sname pm (Inl e) ((snd \<circ> ?clean) (t\<lparr>node_os := w\<rparr>))"
    if "holding4 b4 b6 env a (node_env t)" "node_mqtt t = client" for e w and t :: "'a node"
    using failed [OF that, of w "fst (?clean (t\<lparr>node_os := w\<rparr>))" "snd (?clean (t\<lparr>node_os := w\<rparr>))"]
    by simp
  have over: "case ?clean (t\<lparr>node_os := w\<rparr>) of
      (None, t') \<Rightarrow> unikernel_post b4 b6 env client key sname pm (Inr (None, None)) t'
    | (Some e, t') \<Rightarrow> unikernel_post b4 b6 env client key sname pm (Inl e) t'"
    if "holding4 b4 b6 env a (node_env t)" "node_mqtt t = client" for w and t :: "'a node"
    using failed [OF that, of w] by (auto split: prod.splits option.splits)
  show ?thesis
    unfolding configure_unikernel_def Let_def
    by (intro stage_post overwritten_post only_os_on_os fail over k) (simp_all add: h client book_holding4)
qed

lemma commit_unikernel_post:
  assumes ok: "net_ok b4 b6 env" and h: "holding4 b4 b6 env a (node_env s)" and c: "node_mqtt s = client"
  shows "unikernel_post b4 b6 env client key sname pm (Inr (a, None)) (register_service key
    \<lparr>srv_ip = a, srv_ipv6 = None, srv_sname = sname, srv_portmapping = pm, srv_veth = veth\<rparr> s)"
proof -
  let ?srv = "\<lparr>srv_ip = a, srv_ipv6 = None, srv_sname = sname, srv_portmapping = pm, srv_veth = veth\<rparr>"
  let ?env' = "(node_env s)\<lparr>deployedServices := AList.update key ?srv (deployedServices (node_env s))\<rparr>"
  have "net_ok b4 b6 ?env'"
    using h by (intro commit_ok [OF ok]) (simp_all add: holding4_def)
  moreover have "available4 b4 ?env' = available4 b4 (node_env s)" "available6 b6 ?env' = available6 b6 (node_env s)"
    using pool4_cong [of ?env' "node_env s" b4] pool6_cong [of ?env' "node_env s" b6] by simp_all
  moreover have "a \<noteq> None" using v4_not_nil [OF ok] h by (simp add: holding4_def)
  ultimately show ?thesis
    using h c by (auto simp: unikernel_post_def holding4_def)
qed

text \<open>A stage on the environment whose error is overwritten.\<close>

lemma on_env_overwritten_post:
  assumes "f (node_env s) = Some (r, env')"
    and "\<And>e. r = Inl e \<Longrightarrow> case cleanup (s\<lparr>node_env := env'\<rparr>) of
        (None, s') \<Rightarrow> Q (Inr zero) s' | (Some e, s') \<Rightarrow> Q (Inl e) s'"
    and "\<And>x. r = Inr x \<Longrightarrow> go_post Q (k x (s\<lparr>node_env := env'\<rparr>))"
  shows "go_post Q (go_try_overwritten (on_env f) cleanup zero k s)"
  using assms by (cases r) (auto simp: go_try_overwritten_def on_env_def split: prod.splits option.splits)

lemma assign_unikernel_address_post:
  assumes ok: "net_ok b4 b6 env" and t: "node_env t = env" "node_mqtt t = client"
  shows "go_post (unikernel_post b4 b6 env client ns sname pm)
    (assign_unikernel_address os ns veth sname pm t)"
proof -
  from generate4_post [OF ok] obtain r env1 where g: "generateAddress (node_env t) = Some (r, env1)"
    and p: "case r of Inl e \<Rightarrow> same_network b4 b6 env env1 | Inr a \<Rightarrow> holding4 b4 b6 env a env1"
    unfolding t(1) by blast
  show ?thesis
    unfolding assign_unikernel_address_def
  proof (rule on_env_overwritten_post [where f = generateAddress, OF g])
    fix e assume "r = Inl e"
    with p have same: "same_network b4 b6 env env1" by simp
    show "case unikernel_cleanup os ns veth (t\<lparr>node_env := env1\<rparr>) of
        (None, s') \<Rightarrow> unikernel_post b4 b6 env client ns sname pm (Inr (None, None)) s'
      | (Some e, s') \<Rightarrow> unikernel_post b4 b6 env client ns sname pm (Inl e) s'"
    proof (cases "unikernel_cleanup os ns veth (t\<lparr>node_env := env1\<rparr>)")
      case (Pair err s')
      with cleanup_fields [OF Pair] t same have
        "same_network b4 b6 env (node_env s')" "node_mqtt s' = client" by simp_all
      with same_network_upost [OF ok this] Pair show ?thesis by (cases err) simp_all
    qed
  next
    fix a assume "r = Inr a"
    with p t show "go_post (unikernel_post b4 b6 env client ns sname pm)
      (configure_unikernel os ns veth pm a (\<lambda>_ s. go_return (a, None) (register_service ns
        \<lparr>srv_ip = a, srv_ipv6 = None, srv_sname = sname, srv_portmapping = pm, srv_veth = veth\<rparr> s))
        (t\<lparr>node_env := env1\<rparr>))"
      by (intro configure_unikernel_post [OF ok]) (simp_all add: commit_unikernel_post [OF ok])
  qed
qed

lemma unikernel_cleanup_snd [simp]:
  "node_env (snd (unikernel_cleanup os ns veth t)) = node_env t"
  "node_mqtt (snd (unikernel_cleanup os ns veth t)) = node_mqtt t"
  by (simp_all add: unikernel_cleanup_def Let_def split: prod.splits)

lemma unikernel_deploy_post:
  assumes ok: "net_ok b4 b6 (node_env s)"
  shows "go_post (unikernel_post b4 b6 (node_env s) (node_mqtt s) (instance_name sname inst) sname pm)
    (UnikernelDeployNetwork os hash pid sname inst pm s)"
proof -
  have fail: "unikernel_post b4 b6 (node_env s) (node_mqtt s) key sname pm (Inl e) t"
    if "node_env t = node_env s" "node_mqtt t = node_mqtt s" for key e t
    using same_network_upost [OF ok _ that(2)] same_network_refl [OF ok] that(1) by simp
  show ?thesis
    unfolding UnikernelDeployNetwork_def Let_def
    by (intro stage_post only_os_veth only_os_on_os assign_unikernel_address_post ok fail) simp_all
qed

section \<open>Undeploying\<close>

lemma RemoveByNsip_total: "\<exists>err t'. RemoveByNsip k t = Some (err, t')"
  by (cases rule: tab.remove_key_cases [where k = k and t = t]) auto

lemma RemoveServiceEntries_total:
  "\<exists>t. RemoveServiceEntries jobname env = Some (env\<lparr>env_table := t\<rparr>)"
proof -
  obtain t' where "RemoveByJobName jobname (env_table env) = Some (None, t')"
    using tab.remove_job_all by blast
  then show ?thesis by (auto simp: RemoveServiceEntries_def)
qed

text \<open>
  Taking a service out of the map and freeing its addresses; \<open>a6\<close> is nil when only the IPv4 address
  is freed.
\<close>

definition undeploy_env :: "string \<Rightarrow> ip \<Rightarrow> ip \<Rightarrow> Environment \<Rightarrow> Environment" where
  "undeploy_env key a a6 env =
     freeContainerAddress a6 (freeContainerAddress a
       (env\<lparr>deployedServices := AList.delete key (deployedServices env)\<rparr>))"

definition undeployed :: "nat \<Rightarrow> nat \<Rightarrow> string \<Rightarrow> ip \<Rightarrow> ip \<Rightarrow> Environment \<Rightarrow> Environment \<Rightarrow> bool" where
  "undeployed b4 b6 key a a6 env env' \<longleftrightarrow> net_ok b4 b6 env' \<and>
     deployedServices env' = AList.delete key (deployedServices env) \<and>
     available4 b4 env' = insert a (available4 b4 env) \<and>
     available6 b6 env' = (if a6 = None then available6 b6 env else insert a6 (available6 b6 env))"

lemma deployed_addresses:
  assumes ok: "net_ok b4 b6 env" and m: "map_of (deployedServices env) key = Some srv"
  shows "srv_ip srv \<in> universe4 b4" "srv_ip srv \<notin> available4 b4 env"
    "srv_ipv6 srv \<noteq> None \<Longrightarrow> srv_ipv6 srv \<in> universe6 b6 \<and> srv_ipv6 srv \<notin> available6 b6 env"
proof -
  have "srv_ip srv \<in> set (service_ips env)" using map_of_SomeD [OF m] by (force simp: service_ips_def)
  with net_okD(5) [OF ok] show "srv_ip srv \<in> universe4 b4" "srv_ip srv \<notin> available4 b4 env" by auto
  assume "srv_ipv6 srv \<noteq> None"
  then have "srv_ipv6 srv \<in> set (service_ipv6s env)"
    using map_of_SomeD [OF m] by (force simp: service_ipv6s_def)
  with net_okD(7) [OF ok] show "srv_ipv6 srv \<in> universe6 b6 \<and> srv_ipv6 srv \<notin> available6 b6 env" by auto
qed

lemma undeploy_env_ok:
  assumes ok: "net_ok b4 b6 env" and m: "map_of (deployedServices env) key = Some srv"
    and six: "a6 = srv_ipv6 srv \<or> a6 = None"
  shows "undeployed b4 b6 key (srv_ip srv) a6 env (undeploy_env key (srv_ip srv) a6 env)"
proof -
  note D = net_okD [OF ok] and A = deployed_addresses [OF ok m]
  have mem: "(key, srv) \<in> set (deployedServices env)" using map_of_SomeD [OF m] .
  let ?f = "\<lambda>p :: string \<times> service. srv_ip (snd p)" and ?g = "\<lambda>p :: string \<times> service. srv_ipv6 (snd p)"
  define e0 where "e0 = env\<lparr>deployedServices := AList.delete key (deployedServices env)\<rparr>"
  define e1 where "e1 = freeContainerAddress (srv_ip srv) e0"
  define e2 where "e2 = freeContainerAddress a6 e1"
  have p0: "pool4_ok b4 e0" "available4 b4 e0 = available4 b4 env"
    "pool6_ok b6 e0" "available6 b6 e0 = available6 b6 env"
    using pool4_cong [of e0 env b4] pool6_cong [of e0 env b6] D(1,2) by (simp_all add: e0_def)
  have f1: "e1 = e0\<lparr>addrCache := addrCache e0 @ [srv_ip srv]\<rparr>"
    unfolding e1_def by (rule free4_fields [OF A(1)])
  have p1: "pool4_ok b4 e1 \<and> available4 b4 e1 = insert (srv_ip srv) (available4 b4 e0)"
    unfolding e1_def using A(1,2) p0 by (intro pool4.release_ok) simp_all
  have q1: "pool6_ok b6 e1 = pool6_ok b6 e0 \<and> available6 b6 e1 = available6 b6 e0"
    unfolding f1 by (intro pool6_cong) simp_all
  have p2: "pool6_ok b6 e2 \<and> available6 b6 e2 = (if a6 = None then available6 b6 env
      else insert a6 (available6 b6 env)) \<and>
    pool4_ok b4 e2 = pool4_ok b4 e1 \<and> available4 b4 e2 = available4 b4 e1 \<and>
    deployedServices e2 = deployedServices e1"
  proof (cases "a6 = None")
    case True
    then show ?thesis using q1 p0 by (simp add: e2_def free_nil)
  next
    case False
    with A(3) six have a6: "a6 \<in> universe6 b6" "a6 \<notin> available6 b6 e1"
      using q1 p0 by auto
    have ok6: "pool6_ok b6 e1" using q1 p0 by simp
    have f2: "e2 = e1\<lparr>addrCachev6 := addrCachev6 e1 @ [a6]\<rparr>"
      unfolding e2_def by (rule free6_fields [OF a6(1) ok6])
    have "pool4_ok b4 e2 = pool4_ok b4 e1 \<and> available4 b4 e2 = available4 b4 e1"
      unfolding f2 by (intro pool4_cong) simp_all
    moreover have "deployedServices e2 = deployedServices e1" by (simp add: f2)
    moreover have "pool6_ok b6 e2 \<and> available6 b6 e2 = insert a6 (available6 b6 e1)"
      unfolding e2_def using ok6 a6 by (rule pool6.release_ok)
    ultimately show ?thesis using q1 p0(4) unfolding if_not_P [OF False] by simp
  qed
  have d: "deployedServices e2 = AList.delete key (deployedServices env)"
    using p2 by (simp add: f1 e0_def)
  have dist: "distinct (service_ips e2)" "distinct (service_ipv6s e2)"
    using delete_distinct_values [of "\<lambda>_. True" ?f "deployedServices env" key] D(4)
      delete_distinct_values [of "\<lambda>x. x \<noteq> None" ?g "deployedServices env" key] D(6)
    by (simp_all add: service_ips_def service_ipv6s_def d)
  have s4: "set (service_ips e2) \<subseteq> universe4 b4 - available4 b4 e2"
  proof
    fix x assume "x \<in> set (service_ips e2)"
    then obtain p where p: "p \<in> set (deployedServices env)" "fst p \<noteq> key" "x = ?f p"
      by (auto simp: service_ips_def d set_delete)
    have "?f p \<noteq> ?f (key, srv)"
      using distinct_values_key [of "\<lambda>_. True" ?f "deployedServices env" key srv p] D(4) mem p
      by (simp add: service_ips_def)
    moreover have "x \<in> set (service_ips env)" using p by (auto simp: service_ips_def)
    ultimately show "x \<in> universe4 b4 - available4 b4 e2"
      using D(5) p(3) p1 p2 p0(2) by auto
  qed
  have s6: "set (service_ipv6s e2) \<subseteq> universe6 b6 - available6 b6 e2"
  proof
    fix x assume "x \<in> set (service_ipv6s e2)"
    then obtain p where p: "p \<in> set (deployedServices env)" "fst p \<noteq> key" "x = ?g p" "x \<noteq> None"
      by (auto simp: service_ipv6s_def d set_delete)
    have "srv_ipv6 srv \<noteq> None \<Longrightarrow> ?g p \<noteq> ?g (key, srv)"
      using distinct_values_key [of "\<lambda>x. x \<noteq> None" ?g "deployedServices env" key srv p] D(6) mem p
      by (simp add: service_ipv6s_def)
    then have "x \<noteq> a6" using p(3,4) six by auto
    moreover have "x \<in> set (service_ipv6s env)" using p by (auto simp: service_ipv6s_def)
    then have "x \<in> universe6 b6" "x \<notin> available6 b6 env" using D(7) by auto
    ultimately show "x \<in> universe6 b6 - available6 b6 e2" using p2 by simp
  qed
  have "distinct (map fst (deployedServices e2))"
    unfolding d using D(3) by (simp add: AList.distinct_delete)
  moreover have "undeploy_env key (srv_ip srv) a6 env = e2"
    by (simp add: undeploy_env_def e2_def e1_def e0_def)
  ultimately show ?thesis
    using p1 p2 p0 dist s4 s6 d by (simp add: undeployed_def net_ok_def)
qed

lemma undeployed_table: "undeployed b4 b6 key a a6 env (env'\<lparr>env_table := t\<rparr>) = undeployed b4 b6 key a a6 env env'"
  using pool4_cong [of "env'\<lparr>env_table := t\<rparr>" env' b4] pool6_cong [of "env'\<lparr>env_table := t\<rparr>" env' b6]
  by (simp add: undeployed_def net_ok_def service_ips_def service_ipv6s_def)

lemma free_table: "freeContainerAddress a (env\<lparr>env_table := t\<rparr>) = (freeContainerAddress a env)\<lparr>env_table := t\<rparr>"
  by (simp add: freeContainerAddress_def)

lemma undeploy_env_table: "freeContainerAddress a6 (freeContainerAddress a (env
    \<lparr>env_table := t, deployedServices := AList.delete key (deployedServices env)\<rparr>)) =
    (undeploy_env key a a6 env)\<lparr>env_table := t\<rparr>"
proof -
  have "env\<lparr>env_table := t, deployedServices := AList.delete key (deployedServices env)\<rparr> =
      env\<lparr>deployedServices := AList.delete key (deployedServices env)\<rparr>\<lparr>env_table := t\<rparr>" by simp
  then show ?thesis by (simp only: undeploy_env_def free_table)
qed

lemma detach_container_post:
  assumes ok: "net_ok b4 b6 (node_env s)"
  shows "\<exists>s'. DetachContainer os sname inst s = Some s' \<and> node_mqtt s' = node_mqtt s \<and>
    (case map_of (deployedServices (node_env s)) (service_key sname inst) of
       None \<Rightarrow> s' = s
     | Some srv \<Rightarrow> undeployed b4 b6 (service_key sname inst) (srv_ip srv) (srv_ipv6 srv) (node_env s) (node_env s'))"
proof (cases "map_of (deployedServices (node_env s)) (service_key sname inst)")
  case None
  then show ?thesis by (simp add: DetachContainer_def)
next
  case (Some srv)
  obtain err t where r: "RemoveByNsip (srv_ip srv) (env_table (node_env s)) = Some (err, t)"
    using RemoveByNsip_total by blast
  define u where "u = undeploy_env (service_key sname inst) (srv_ip srv) (srv_ipv6 srv) (node_env s)"
  obtain t' where rs: "RemoveServiceEntries sname (u\<lparr>env_table := t\<rparr>) = Some (u\<lparr>env_table := t\<rparr>\<lparr>env_table := t'\<rparr>)"
    using RemoveServiceEntries_total by blast
  have "undeployed b4 b6 (service_key sname inst) (srv_ip srv) (srv_ipv6 srv) (node_env s) (u\<lparr>env_table := t''\<rparr>)" for t''
    using undeploy_env_ok [OF ok Some] by (simp add: undeployed_table u_def)
  then show ?thesis using Some r rs
    by (simp add: DetachContainer_def Let_def undeploy_env_table u_def [symmetric])
qed

lemma delete_unikernel_post:
  assumes ok: "net_ok b4 b6 (node_env s)"
  shows "\<exists>s'. DeleteUnikernelNamespace os sname inst s = Some s' \<and> node_mqtt s' = node_mqtt s \<and>
    (case map_of (deployedServices (node_env s)) (instance_name sname inst) of
       None \<Rightarrow> s' = s
     | Some srv \<Rightarrow> undeployed b4 b6 (instance_name sname inst) (srv_ip srv) None (node_env s) (node_env s'))"
proof (cases "map_of (deployedServices (node_env s)) (instance_name sname inst)")
  case None
  then show ?thesis by (simp add: DeleteUnikernelNamespace_def)
next
  case (Some srv)
  obtain err t where r: "RemoveByNsip (srv_ip srv) (env_table (node_env s)) = Some (err, t)"
    using RemoveByNsip_total by blast
  have "freeContainerAddress (srv_ip srv) ((node_env s)\<lparr>env_table := t,
      deployedServices := AList.delete (instance_name sname inst) (deployedServices (node_env s))\<rparr>) =
      (undeploy_env (instance_name sname inst) (srv_ip srv) None (node_env s))\<lparr>env_table := t\<rparr>"
    using undeploy_env_table [of None "srv_ip srv" "instance_name sname inst" "node_env s" t] by (simp add: free_nil)
  with undeploy_env_ok [OF ok Some, of None] show ?thesis
    using Some r by (simp add: DeleteUnikernelNamespace_def Let_def undeployed_table)
qed

section \<open>Properties\<close>

text \<open>A node in use: any sequence of deployments and removals.\<close>

datatype node_op =
    DeployContainer int string int string
  | DeployUnikernel int string int string
  | Detach string int
  | DeleteUnikernel string int

fun node_step :: "'w os \<Rightarrow> (string \<Rightarrow> nat \<Rightarrow> string) \<Rightarrow> node_op \<Rightarrow> 'w node \<Rightarrow> 'w node option" where
  "node_step os hash (DeployContainer pid sname inst pm) s =
     map_option snd (ContainerDeployNetwork os hash pid sname inst pm s)"
| "node_step os hash (DeployUnikernel pid sname inst pm) s =
     map_option snd (UnikernelDeployNetwork os hash pid sname inst pm s)"
| "node_step os hash (Detach sname inst) s = DetachContainer os sname inst s"
| "node_step os hash (DeleteUnikernel sname inst) s = DeleteUnikernelNamespace os sname inst s"

fun node_run :: "'w os \<Rightarrow> (string \<Rightarrow> nat \<Rightarrow> string) \<Rightarrow> node_op list \<Rightarrow> 'w node \<Rightarrow> 'w node option" where
  "node_run os hash [] s = Some s"
| "node_run os hash (x # xs) s = do { s' \<leftarrow> node_step os hash x s; node_run os hash xs s' }"

lemma undeployed_ok: "undeployed b4 b6 key a a6 env env' \<Longrightarrow> net_ok b4 b6 env'"
  by (simp add: undeployed_def)

lemma node_step_ok:
  assumes ok: "net_ok b4 b6 (node_env s)"
  shows "\<exists>s'. node_step os hash x s = Some s' \<and> net_ok b4 b6 (node_env s')"
proof (cases x)
  case (DeployContainer pid sname inst pm)
  from go_post_exists [OF container_deploy_post [OF ok]] obtain r s' where
    "ContainerDeployNetwork os hash pid sname inst pm s = Some (r, s')" "net_ok b4 b6 (node_env s')"
    unfolding deployed_post_def by blast
  with DeployContainer show ?thesis by simp
next
  case (DeployUnikernel pid sname inst pm)
  from go_post_exists [OF unikernel_deploy_post [OF ok]] obtain r s' where
    "UnikernelDeployNetwork os hash pid sname inst pm s = Some (r, s')" "net_ok b4 b6 (node_env s')"
    unfolding unikernel_post_def by blast
  with DeployUnikernel show ?thesis by simp
next
  case (Detach sname inst)
  from detach_container_post [OF ok] obtain s' where "DetachContainer os sname inst s = Some s'"
    "case map_of (deployedServices (node_env s)) (service_key sname inst) of None \<Rightarrow> s' = s
     | Some srv \<Rightarrow> undeployed b4 b6 (service_key sname inst) (srv_ip srv) (srv_ipv6 srv) (node_env s) (node_env s')"
    by blast
  with Detach ok show ?thesis by (auto split: option.splits dest: undeployed_ok)
next
  case (DeleteUnikernel sname inst)
  from delete_unikernel_post [OF ok] obtain s' where "DeleteUnikernelNamespace os sname inst s = Some s'"
    "case map_of (deployedServices (node_env s)) (instance_name sname inst) of None \<Rightarrow> s' = s
     | Some srv \<Rightarrow> undeployed b4 b6 (instance_name sname inst) (srv_ip srv) None (node_env s) (node_env s')"
    by blast
  with DeleteUnikernel ok show ?thesis by (auto split: option.splits dest: undeployed_ok)
qed

lemma node_run_ok:
  "net_ok b4 b6 (node_env s) \<Longrightarrow> \<exists>s'. node_run os hash xs s = Some s' \<and> net_ok b4 b6 (node_env s')"
proof (induction xs arbitrary: s)
  case Nil
  then show ?case by simp
next
  case (Cons x xs)
  from node_step_ok [OF Cons.prems] obtain s' where
    "node_step os hash x s = Some s'" "net_ok b4 b6 (node_env s')" by blast
  with Cons.IH show ?case by simp
qed

lemma new_environment_net_ok:
  assumes "new_environment h proxyname cfg = Some env"
    "ParseIP (HostBridgeIP cfg) = v4addr n" "ParseIP (HostBridgeIPv6 cfg) = v6addr m"
    "2 ^ 48 \<le> m" "m + 255 < 2 ^ 128"
  shows "net_ok (n + 1) (m + 1) env"
proof -
  have "deployedServices env = []" using assms(1) by (auto simp: new_environment_def bind_eq_Some_conv)
  with new_environment_pool4 [OF assms(1,2)] new_environment_pool6 [OF assms(1,3-5)] show ?thesis
    by (simp add: net_ok_def service_ips_def service_ipv6s_def)
qed

text \<open>
  Whatever containers and unikernels are deployed and removed on a node, whichever stages fail,
  the code never panics, no two deployed services share an IPv4 or an IPv6 address, and no address
  of a deployed service can be handed out again.
\<close>

theorem deployed_addresses_unique:
  assumes "new_environment h proxyname cfg = Some (node_env s)"
    and "ParseIP (HostBridgeIP cfg) = v4addr n" and "ParseIP (HostBridgeIPv6 cfg) = v6addr m"
    and "2 ^ 48 \<le> m" and "m + 255 < 2 ^ 128"
  shows "\<exists>s'. node_run os hash ops s = Some s' \<and>
    distinct (service_ips (node_env s')) \<and> distinct (service_ipv6s (node_env s')) \<and>
    set (service_ips (node_env s')) \<inter> available4 (n + 1) (node_env s') = {} \<and>
    set (service_ipv6s (node_env s')) \<inter> available6 (m + 1) (node_env s') = {}"
proof -
  from node_run_ok [OF new_environment_net_ok [OF assms]] obtain s' where
    "node_run os hash ops s = Some s'" "net_ok (n + 1) (m + 1) (node_env s')" by blast
  then show ?thesis by (auto simp: net_ok_def)
qed

definition sample_mqtt :: NetMqttClient where
  "sample_mqtt = the (InitNetMqttClient ''n1'' None)"

definition sample_node :: "os_call list node" where
  "sample_node = \<lparr>node_env = sample_env, node_os = [], node_mqtt = sample_mqtt\<rparr>"

lemma sample_node_ok: "net_ok (base4 + 1) (base6 + 1) (node_env sample_node)"
  using new_environment_net_ok [OF sample_env_new sample_config4 sample_config6 base6_bounds]
  by (simp add: sample_node_def)

theorem deployed_addresses_unique_witness:
  "\<exists>s'. node_run (failing_os (\<lambda>c. c = LinkAddBridge ''virbr0'')) (\<lambda>n k. take k n)
      [DeployContainer 7 ''a.b.c.d'' 0 '''', DeployUnikernel 8 ''a.b.c.d'' 1 '''', Detach ''a.b.c.d'' 0]
      sample_node = Some s' \<and>
    distinct (service_ips (node_env s')) \<and> distinct (service_ipv6s (node_env s')) \<and>
    set (service_ips (node_env s')) \<inter> available4 (base4 + 1) (node_env s') = {} \<and>
    set (service_ipv6s (node_env s')) \<inter> available6 (base6 + 1) (node_env s') = {}"
proof (rule deployed_addresses_unique)
  show "new_environment sample_host ''tun'' sample_config = Some (node_env sample_node)"
    by (simp add: sample_node_def sample_env_new)
qed (rule sample_config4 sample_config6 base6_bounds)+

text \<open>
  Deploying a container always returns. If it fails at any stage, the deployed services, the
  translation table and the addresses that can be handed out are what they were. If it succeeds,
  the service is registered under its name and instance with the two addresses returned, which were
  available and no longer are.
\<close>

theorem container_deployment:
  assumes "net_ok b4 b6 (node_env s)"
  shows "\<exists>r s'. ContainerDeployNetwork os hash pid sname inst pm s = Some (r, s') \<and>
    env_table (node_env s') = env_table (node_env s) \<and>
    (case r of
       Inl e \<Rightarrow> deployedServices (node_env s') = deployedServices (node_env s) \<and>
         available4 b4 (node_env s') = available4 b4 (node_env s) \<and>
         available6 b6 (node_env s') = available6 b6 (node_env s)
     | Inr (a, a6) \<Rightarrow>
         a \<in> available4 b4 (node_env s) \<and> a6 \<in> available6 b6 (node_env s) \<and>
         available4 b4 (node_env s') = available4 b4 (node_env s) - {a} \<and>
         available6 b6 (node_env s') = available6 b6 (node_env s) - {a6} \<and>
         (\<exists>veth. deployedServices (node_env s') = AList.update (service_key sname inst)
            \<lparr>srv_ip = a, srv_ipv6 = a6, srv_sname = sname, srv_portmapping = pm, srv_veth = veth\<rparr>
            (deployedServices (node_env s))))"
  using go_post_exists [OF container_deploy_post [OF assms, of sname inst pm os hash pid]]
  by (force simp: deployed_post_def same_network_def split: sum.splits)

theorem container_deployment_witness:
  "\<exists>r s'. ContainerDeployNetwork log_os (\<lambda>n k. take k n) 7 ''a.b.c.d'' 0 '''' sample_node = Some (r, s') \<and>
    env_table (node_env s') = env_table (node_env sample_node)"
  using container_deployment [OF sample_node_ok, of log_os "\<lambda>n k. take k n" 7 "''a.b.c.d''" 0 "''''"]
  by blast

end
