(* ===== verification/DeploymentProgress.thy ===== *)
theory DeploymentProgress
  imports DeploymentSafety
begin

text \<open>
  What a deployment does on a system that grants its requests, and on one that refuses some:
  it succeeds while both pools have addresses and the port mappings are valid, detaching undoes it,
  and the late stages of a unikernel deployment hide their error.
\<close>

section \<open>Systems that grant the requests of a container\<close>

definition granted :: "('w \<Rightarrow> error option \<times> 'w) \<Rightarrow> bool" where
  "granted f \<longleftrightarrow> (\<forall>w. \<exists>w'. f w = (None, w'))"

text \<open>The system grants every request but perhaps the creation of a tap device.\<close>

definition granting :: "'w os \<Rightarrow> bool" where
  "granting os \<longleftrightarrow> (\<forall>c. (\<forall>t. c \<noteq> LinkAddTap t) \<longrightarrow> granted (os c))"

named_theorems granted_intros "operations that succeed on a granting system"

lemma granted_call [granted_intros]: "granting os \<Longrightarrow> (\<And>t. c \<noteq> LinkAddTap t) \<Longrightarrow> granted (os c)"
  by (simp add: granting_def)

lemma granted_seq: "(\<And>c. c \<in> set cs \<Longrightarrow> granted (os c)) \<Longrightarrow> granted (os_seq os cs)"
proof (induction cs)
  case Nil
  then show ?case by (simp add: granted_def)
next
  case (Cons c cs)
  show ?case unfolding granted_def
  proof
    fix w
    from Cons.prems have "granted (os c)" by simp
    then obtain w1 where "os c w = (None, w1)" unfolding granted_def by blast
    moreover from Cons have "granted (os_seq os cs)" by simp
    then obtain w2 where "os_seq os cs w1 = (None, w2)" unfolding granted_def by blast
    ultimately show "\<exists>w'. os_seq os (c # cs) w = (None, w')" by simp
  qed
qed

lemma granted_namespace:
  assumes "granted (os NsGet)" "granted (os get_ns)" "granted (os set_ns)" "granted f"
  shows "granted (exec_in_namespace os get_ns set_ns f)"
  unfolding granted_def
proof
  fix w
  obtain w1 where w1: "os NsGet w = (None, w1)" using assms(1) unfolding granted_def by blast
  obtain w2 where w2: "os get_ns w1 = (None, w2)" using assms(2) unfolding granted_def by blast
  obtain w3 where w3: "os set_ns w2 = (None, w3)" using assms(3) unfolding granted_def by blast
  obtain w4 where "f w3 = (None, w4)" using assms(4) unfolding granted_def by blast
  with w1 w2 w3 show "\<exists>w'. exec_in_namespace os get_ns set_ns f w = (None, w')"
    by (simp add: exec_in_namespace_def)
qed

lemma granted_after:
  "granted (os c) \<Longrightarrow> granted f \<Longrightarrow>
    granted (\<lambda>w. case os c w of (Some err, w) \<Rightarrow> (Some err, w) | (None, w) \<Rightarrow> f w)"
  unfolding granted_def by (metis (mono_tags, lifting) old.prod.case option.simps(4))

lemma granted_mappings [granted_intros]:
  assumes "granting os" "has_family a"
  shows "list_all mapping_valid pms \<Longrightarrow> granted (manage_mappings os a OpenPorts pms)"
proof (induction pms)
  case Nil
  then show ?case by (simp add: granted_def)
next
  case (Cons pm pms)
  obtain t h c where pm: "parse_portmap pm = (t, h, c)" by (cases "parse_portmap pm")
  show ?case unfolding granted_def
  proof
    fix w
    have "granted (os (IptAppend (family a) ''nat'' chain (nat_args t h (nat_destination a c))))"
      by (rule granted_call [OF assms(1)]) simp
    then obtain w1 where
      "os (IptAppend (family a) ''nat'' chain (nat_args t h (nat_destination a c))) w = (None, w1)"
      unfolding granted_def by blast
    moreover from Cons obtain w2 where "manage_mappings os a OpenPorts pms w1 = (None, w2)"
      unfolding granted_def by auto
    ultimately show "\<exists>w'. manage_mappings os a OpenPorts (pm # pms) w = (None, w')"
      using Cons.prems pm assms(2) by (simp add: nat_operation_open mapping_valid_def)
  qed
qed

lemma granted_setup [granted_intros]:
  assumes "granting os"
  shows "granted (setContainerRoutes os env pid v)" "granted (setIPv6ContainerRoutes os env pid v)"
    "granted (addPeerLinkNetwork os pid addr v)" "granted (disableDAD os pid v)"
    "granted (setVethFirewallRules os env v)"
  unfolding setContainerRoutes_def setIPv6ContainerRoutes_def addPeerLinkNetwork_def [abs_def]
    disableDAD_def setVethFirewallRules_def execInsideNs_def
  by (intro granted_after granted_namespace granted_seq granted_call [OF assms]; auto)+

lemma granted_ports [granted_intros]:
  "granting os \<Longrightarrow> has_family a \<Longrightarrow> list_all mapping_valid (port_mappings pm) \<Longrightarrow>
    granted (ManageContainerPorts os a pm OpenPorts)"
  unfolding ManageContainerPorts_mappings [abs_def] by (rule granted_mappings)

text \<open>A granted stage only changes the state of the system.\<close>

lemma granted_stage:
  assumes "granted f"
  shows "\<exists>w. go_try (on_os f) cleanup k s = k () (s\<lparr>node_os := w\<rparr>)"
proof -
  from assms obtain w where "f (node_os s) = (None, w)" unfolding granted_def by blast
  then show ?thesis by (intro exI [of _ w]) (simp add: go_try_def on_os_def)
qed

lemma granted_stage_post:
  assumes "granted f" and "\<And>w. go_post Q (k () (s\<lparr>node_os := w\<rparr>))"
  shows "go_post Q (go_try (on_os f) cleanup k s)"
  using granted_stage [OF assms(1), of cleanup k s] assms(2) by auto


section \<open>Deploying a container\<close>

definition returned :: "(error + 'a) \<Rightarrow> 's \<Rightarrow> bool" where
  "returned r s \<longleftrightarrow> (\<exists>x. r = Inr x)"

lemma configure_container_granted:
  assumes "granting os" "has_family a" "has_family a6" "list_all mapping_valid (port_mappings pm)"
    and "\<And>s'. go_post returned (k () s')"
  shows "go_post returned (configure_container os veth pid pm a a6 k s)"
  unfolding configure_container_def Let_def
  by (intro granted_stage_post granted_intros assms)

lemma veth_granted:
  assumes "granting os"
  shows "\<exists>veth w. createVethsPairAndAttachToBridge os hash sname mtu s = Some (Inr veth, s\<lparr>node_os := w\<rparr>)"
proof -
  have "go_post (\<lambda>r s'. (\<exists>veth. r = Inr veth) \<and> (\<exists>w. s' = s\<lparr>node_os := w\<rparr>))
      (createVethsPairAndAttachToBridge os hash sname mtu s)"
    unfolding createVethsPairAndAttachToBridge_def Let_def
    by (intro granted_stage_post granted_intros assms; simp; blast?)
  then show ?thesis by (auto simp: go_post_def split: option.splits)
qed

lemma assign_addresses_granted:
  assumes os: "granting os" and ok: "net_ok b4 b6 (node_env s)"
    and av: "available4 b4 (node_env s) \<noteq> {}" "available6 b6 (node_env s) \<noteq> {}"
    and pm: "list_all mapping_valid (port_mappings pm)"
  shows "go_post returned (assign_addresses os veth pid sname inst pm s)"
proof -
  let ?env = "node_env s"
  from pool4.alloc_some [OF net_okD(1) [OF ok] av(1)] obtain a env1 where
    a: "generateAddress ?env = Some (Inr a, env1)" "a \<in> available4 b4 ?env" by blast
  have "pool6_ok b6 env1 = pool6_ok b6 ?env \<and> available6 b6 env1 = available6 b6 ?env"
    using generateAddress_frame [OF a(1)] by (intro pool6_cong) simp_all
  with net_okD(2) [OF ok] av(2) have "pool6_ok b6 env1" "available6 b6 env1 \<noteq> {}" by simp_all
  from pool6.alloc_some [OF this] obtain a6 env2 where
    a6: "generateIPv6Address env1 = Some (Inr a6, env2)" "a6 \<in> available6 b6 env1" by blast
  have "a \<in> universe4 b4"
    using a(2) pool4.available_universe [OF net_okD(1) [OF ok]] by blast
  then have fam: "has_family a" by (auto simp: universe4_def has_family_def)
  have "a6 \<in> universe6 b6"
    using a6(2) pool6.available_universe [OF \<open>pool6_ok b6 env1\<close>] by blast
  then obtain n where "a6 = v6addr n" by (auto simp: universe6_def)
  then have "To16 a6 = a6" "a6 \<noteq> None" by (simp, simp add: v6addr_def)
  then have fam6: "has_family a6" by (simp add: has_family_def)
  show ?thesis
    unfolding assign_addresses_def
    by (simp add: go_try_def [of "on_env _"] on_env_def a(1) a6(1) returned_def
        configure_container_granted [OF os fam fam6 pm])
qed

lemma container_deploy_granted:
  assumes os: "granting os" and ok: "net_ok b4 b6 (node_env s)"
    and "available4 b4 (node_env s) \<noteq> {}" "available6 b6 (node_env s) \<noteq> {}"
    and pm: "list_all mapping_valid (port_mappings pm)"
  shows "go_post returned (ContainerDeployNetwork os hash pid sname inst pm s)"
proof -
  obtain veth w where veth: "createVethsPairAndAttachToBridge os hash sname (mtusize (node_env s)) s =
      Some (Inr veth, s\<lparr>node_os := w\<rparr>)" using veth_granted [OF os] by blast
  show ?thesis
    unfolding ContainerDeployNetwork_def
    by (simp add: go_try_def [of "createVethsPairAndAttachToBridge os hash sname (mtusize (node_env s))"] veth)
      (intro granted_stage_post granted_intros os assign_addresses_granted [OF os _ _ _ pm], use assms in simp_all)
qed

text \<open>
  C18: While both pools have an address, the port mappings are valid and the system grants the
  requests (it may refuse to create tap devices), deploying a container succeeds.
\<close>

theorem container_deployment_succeeds:
  assumes "granting os" and "net_ok b4 b6 (node_env s)"
    and "available4 b4 (node_env s) \<noteq> {}" and "available6 b6 (node_env s) \<noteq> {}"
    and "list_all mapping_valid (port_mappings pm)"
  shows "\<exists>a a6 s'. ContainerDeployNetwork os hash pid sname inst pm s = Some (Inr (a, a6), s')"
  using container_deploy_granted [OF assms, of hash pid sname inst]
  by (auto simp: go_post_def returned_def split: option.splits)

lemma log_os_granting: "granting log_os"
  by (simp add: granting_def granted_def log_os_def)

lemma sample_available:
  "available4 (base4 + 1) (node_env sample_node) \<noteq> {}" "available6 (base6 + 1) (node_env sample_node) \<noteq> {}"
  using new_environment_pool4 [OF sample_env_new sample_config4]
    new_environment_pool6 [OF sample_env_new sample_config6 base6_bounds]
  by (auto simp: sample_node_def universe4_def universe6_def)

theorem container_deployment_succeeds_witness:
  "\<exists>a a6 s'. ContainerDeployNetwork log_os (\<lambda>n k. take k n) 7 ''a.b.c.d'' 0 '''' sample_node = Some (Inr (a, a6), s')"
  by (rule container_deployment_succeeds [OF log_os_granting sample_node_ok sample_available])
    (simp add: port_mappings_def)


lemma new_environment_services:
  "new_environment h proxyname cfg = Some env \<Longrightarrow> deployedServices env = []"
  by (auto simp: new_environment_def bind_eq_Some_conv)


section \<open>The hidden errors of a unikernel deployment\<close>

text \<open>The function run in the namespace of a unikernel fails when the tap device is refused.\<close>

lemma setup_refused:
  assumes "granting os" "\<And>w. \<exists>e w'. os (LinkAddTap ''tap0'') w = (Some e, w')"
  shows "\<exists>e w'. unikernel_setup os env peer a w = (Some e, w')"
proof -
  have "granted (os (LinkAddBridge ''virbr0''))" "granted (os (AddrAdd ''virbr0'' ''192.168.1.1/30''))"
    by (rule granted_call [OF assms(1)], simp)+
  then obtain w1 w2 where "os (LinkAddBridge ''virbr0'') w = (None, w1)"
    "os (AddrAdd ''virbr0'' ''192.168.1.1/30'') w1 = (None, w2)" unfolding granted_def by blast
  with assms(2) [of w2] show ?thesis by (auto simp: unikernel_setup_def)
qed

lemma setup_refused_in_namespace:
  assumes "granting os" "\<And>w. \<exists>e w'. os (LinkAddTap ''tap0'') w = (Some e, w')"
  shows "\<exists>e w'. execInsideNsByName os ns (unikernel_setup os env peer a) w = (Some e, w')"
proof -
  have "granted (os NsGet)" "granted (os (NsGetFromName ns))" "granted (os (NsSetName ns))"
    by (rule granted_call [OF assms(1)], simp)+
  then obtain w1 w2 w3 where "os NsGet w = (None, w1)" "os (NsGetFromName ns) w1 = (None, w2)"
    "os (NsSetName ns) w2 = (None, w3)" unfolding granted_def by blast
  with setup_refused [OF assms, of env peer a w3] show ?thesis
    by (auto simp: execInsideNsByName_def exec_in_namespace_def)
qed

lemma unikernel_cleanup_granted:
  assumes "granting os"
  shows "\<exists>w. unikernel_cleanup os ns veth s = (None, s\<lparr>node_os := w\<rparr>)"
proof -
  have "granted (os (NsDeleteNamed ns))" by (rule granted_call [OF assms]) simp
  then obtain w where "os (NsDeleteNamed ns) (ignoring os (NsCloseName ns)
      (ignoring os (LinkDel (veth_Name veth)) (node_os s))) = (None, w)" unfolding granted_def by blast
  then have "unikernel_cleanup os ns veth s = (None, s\<lparr>node_os := w\<rparr>)"
    by (simp add: unikernel_cleanup_def)
  then show ?thesis by blast
qed

definition hidden :: "(error + ip \<times> ip) \<Rightarrow> 's \<Rightarrow> bool" where
  "hidden r s \<longleftrightarrow> r = Inr (None, None)"

lemma overwritten_hidden:
  assumes "\<exists>e s1. act s = Some (Inl e, s1)" and "\<And>s. \<exists>s2. cleanup s = (None, s2)"
  shows "go_post hidden (go_try_overwritten act cleanup (None, None) k s)"
proof -
  from assms(1) obtain e s1 where act: "act s = Some (Inl e, s1)" by blast
  from assms(2) [of s1] obtain s2 where "cleanup s1 = (None, s2)" by blast
  with act show ?thesis by (simp add: go_try_overwritten_def hidden_def)
qed

lemma configure_unikernel_hidden:
  assumes os: "granting os" and tap: "\<And>w. \<exists>e w'. os (LinkAddTap ''tap0'') w = (Some e, w')"
  shows "go_post hidden (configure_unikernel os ns veth pm a k s)"
  unfolding configure_unikernel_def Let_def
proof (rule granted_stage_post, goal_cases)
  case 1
  show ?case
    unfolding addPeerLinkNetworkByNsName_def [abs_def] execInsideNsByName_def
    by (intro granted_after granted_namespace granted_seq granted_call [OF os]; auto)
next
  case (2 w)
  show ?case
  proof (rule overwritten_hidden, goal_cases)
    case 1
    show ?case
      using setup_refused_in_namespace [OF os tap, of ns "node_env s" "veth_PeerName veth" a w]
      by (auto simp: on_os_def)
  next
    case (2 s')
    show ?case using unikernel_cleanup_granted [OF os, of ns veth s'] by (auto simp: free_after_def)
  qed
qed

lemma unikernel_deploy_hidden:
  assumes os: "granting os" and tap: "\<And>w. \<exists>e w'. os (LinkAddTap ''tap0'') w = (Some e, w')"
    and ok: "net_ok b4 b6 (node_env s)"
  shows "go_post hidden (UnikernelDeployNetwork os hash pid sname inst pm s)"
proof -
  obtain veth w where veth: "createVethsPairAndAttachToBridge os hash (instance_name sname inst) (mtusize (node_env s)) s =
      Some (Inr veth, s\<lparr>node_os := w\<rparr>)" using veth_granted [OF os] by blast
  have address: "go_post hidden (assign_unikernel_address os ns veth sname pm (s\<lparr>node_os := w\<rparr>))" for ns w
    using net_okD(1) [OF ok]
  proof (cases rule: pool4.alloc_cases)
    case (empty err)
    then show ?thesis
      unfolding assign_unikernel_address_def
      by (intro overwritten_hidden) (simp add: on_env_def, use unikernel_cleanup_granted [OF os] in blast)
  next
    case (got a env')
    then show ?thesis
      by (simp add: assign_unikernel_address_def go_try_overwritten_def [of "on_env _"] on_env_def
          configure_unikernel_hidden [OF os tap])
  qed
  show ?thesis
    unfolding UnikernelDeployNetwork_def Let_def
    by (simp add: go_try_def [of "createVethsPairAndAttachToBridge os hash (instance_name sname inst) (mtusize (node_env s))"] veth)
      (intro granted_stage_post granted_call [OF os], use address in simp_all)
qed

text \<open>
  A unikernel deployment whose tap device the system refuses ends without an error and without
  an address, and no service is registered: the caller cannot tell it from a success. All addresses
  stay available.
\<close>

theorem unikernel_deployment_hides_failure:
  assumes "granting os" and "\<And>w. \<exists>e w'. os (LinkAddTap ''tap0'') w = (Some e, w')"
    and "net_ok b4 b6 (node_env s)"
  shows "\<exists>s'. UnikernelDeployNetwork os hash pid sname inst pm s = Some (Inr (None, None), s') \<and>
    deployedServices (node_env s') = deployedServices (node_env s) \<and>
    available4 b4 (node_env s') = available4 b4 (node_env s)"
proof -
  from unikernel_deploy_hidden [OF assms, of hash pid sname inst pm] obtain s' where
    d: "UnikernelDeployNetwork os hash pid sname inst pm s = Some (Inr (None, None), s')"
    by (auto simp: go_post_def hidden_def split: option.splits)
  from go_postD [OF unikernel_deploy_post [OF assms(3)] d] d show ?thesis
    by (auto simp: unikernel_post_def same_network_def)
qed

theorem unikernel_deployment_hides_failure_witness:
  "\<exists>s'. UnikernelDeployNetwork (failing_os (\<lambda>c. c = LinkAddTap ''tap0'')) (\<lambda>n k. take k n) 7 ''a.b.c.d'' 0 ''''
      sample_node = Some (Inr (None, None), s') \<and>
    deployedServices (node_env s') = deployedServices (node_env sample_node)"
proof -
  have "granting (failing_os (\<lambda>c. c = LinkAddTap ''tap0''))"
    by (simp add: granting_def granted_def failing_os_def)
  moreover have "\<exists>e w'. failing_os (\<lambda>c. c = LinkAddTap ''tap0'') (LinkAddTap ''tap0'') w = (Some e, w')" for w
    by (simp add: failing_os_def)
  ultimately show ?thesis
    using unikernel_deployment_hides_failure [OF _ _ sample_node_ok] by blast
qed

end
