(* ===== verification/NameHash.thy ===== *)
theory NameHash
  imports DeploymentProgress
begin

text \<open>
  \<open>NameUniqueHash\<close> of \<open>network/NetUtils.go\<close> and the link names that the environment builds from it.
  The SHA-1 of the time and the name is the parameter \<open>sha1\<close>; the base64 encoding of Go's
  \<open>encoding/base64\<close> is modelled. The loop that doubles the hash would not end on an empty one, so it is a
  partial function.
\<close>

section \<open>Base64\<close>

definition b64_alphabet :: string where
  "b64_alphabet = ''ABCDEFGHIJKLMNOPQRSTUVWXYZabcdefghijklmnopqrstuvwxyz0123456789-_''"

definition b64_char :: "nat \<Rightarrow> char" where
  "b64_char n = b64_alphabet ! n"

text \<open>The four digits of three bytes.\<close>

definition b64_digits :: "byte \<Rightarrow> byte \<Rightarrow> byte \<Rightarrow> string" where
  "b64_digits a b c =
     (let v = (unat a * 256 + unat b) * 256 + unat c
      in map b64_char [v div 262144, v div 4096 mod 64, v div 64 mod 64, v mod 64])"

fun URLEncoding_EncodeToString :: "byte list \<Rightarrow> string" where
  "URLEncoding_EncodeToString [] = ''''"
| "URLEncoding_EncodeToString [a] = take 2 (b64_digits a 0 0) @ ''==''"
| "URLEncoding_EncodeToString [a, b] = take 3 (b64_digits a b 0) @ ''=''"
| "URLEncoding_EncodeToString (a # b # c # rest) = b64_digits a b c @ URLEncoding_EncodeToString rest"

lemma length_b64_digits [simp]: "length (b64_digits a b c) = 4"
  by (simp add: b64_digits_def Let_def)

lemma length_base64: "length (URLEncoding_EncodeToString xs) = 4 * ((length xs + 2) div 3)"
proof (induction xs rule: URLEncoding_EncodeToString.induct)
  case (4 a b c rest)
  have "(length (a # b # c # rest) + 2) div 3 = Suc ((length rest + 2) div 3)" by simp
  with 4 show ?case by simp
qed simp_all

section \<open>The hash of a name\<close>

partial_function (option) double_until :: "int \<Rightarrow> byte list \<Rightarrow> byte list option" where
  "double_until len hashed =
     (if len > int (length hashed) then double_until len (hashed @ hashed) else Some hashed)"

definition NameUniqueHash :: "(string \<Rightarrow> byte list) \<Rightarrow> string \<Rightarrow> string \<Rightarrow> int \<Rightarrow> string option" where
  "NameUniqueHash sha1 now name len =
     do {
       hashed \<leftarrow> double_until len (sha1 (now @ '','' @ name));
       let hashedAndEncoded = URLEncoding_EncodeToString hashed;
       (if 0 \<le> len \<and> len \<le> int (length hashedAndEncoded) then Some (take (nat len) hashedAndEncoded) else None)
     }"

lemma double_until_ends:
  "xs \<noteq> [] \<Longrightarrow> \<exists>ys. double_until len xs = Some ys \<and> len \<le> int (length ys) \<and> length xs \<le> length ys"
proof (induction "nat (len - int (length xs))" arbitrary: xs rule: less_induct)
  case less
  show ?case
  proof (cases "len > int (length xs)")
    case True
    have "nat (len - int (length (xs @ xs))) < nat (len - int (length xs))"
      using True less.prems by (cases xs) auto
    from less.hyps [OF this] less.prems obtain ys where
      "double_until len (xs @ xs) = Some ys" "len \<le> int (length ys)" "length (xs @ xs) \<le> length ys" by auto
    with True show ?thesis by (subst double_until.simps) auto
  next
    case False
    then show ?thesis by (subst double_until.simps) auto
  qed
qed

lemma NameUniqueHash_length:
  assumes "length (sha1 (now @ '','' @ name)) = 20" "0 \<le> len"
  shows "\<exists>h. NameUniqueHash sha1 now name len = Some h \<and> int (length h) = len"
proof -
  from assms(1) have "sha1 (now @ '','' @ name) \<noteq> []" by auto
  from double_until_ends [OF this, of len] obtain ys where
    ys: "double_until len (sha1 (now @ '','' @ name)) = Some ys" "len \<le> int (length ys)" by blast
  have "length ys \<le> length (URLEncoding_EncodeToString ys)" unfolding length_base64 by linarith
  with ys assms(2) show ?thesis by (simp add: NameUniqueHash_def)
qed

section \<open>Link names\<close>

lemma length_itoa: "0 < k \<Longrightarrow> n < 10 ^ k \<Longrightarrow> length (itoa n) \<le> k"
proof (induction n arbitrary: k rule: itoa.induct)
  case (1 n)
  show ?case
  proof (cases "n < 10")
    case True
    with 1 show ?thesis by (subst itoa.simps) simp
  next
    case False
    with 1(3) obtain j where j: "k = Suc j" "0 < j"
      by (cases k; cases "k - 1") auto
    then have "n div 10 < 10 ^ j" using 1(3) by auto
    from 1(1) [OF False j(2) this] False j(1) show ?thesis by (subst itoa.simps) simp
  qed
qed

lemma itoa_inj: "itoa m = itoa n \<Longrightarrow> m = n"
  by (metis dec_val_itoa)

lemma go_try_InrE:
  assumes "go_try act c k s = Some (Inr x, s')"
  obtains y t where "act s = Some (Inr y, t)" "k y t = Some (Inr x, s')"
  using assms by (auto simp: go_try_def split: option.splits sum.splits prod.splits)

text \<open>The names of a pair that was created, with the hash of this program.\<close>

definition program_hash :: "(string \<Rightarrow> byte list) \<Rightarrow> string \<Rightarrow> string \<Rightarrow> nat \<Rightarrow> string" where
  "program_hash sha1 now name n = the (NameUniqueHash sha1 now name (int n))"

lemma created_names:
  assumes "createVethsPairAndAttachToBridge os hash sname mtu s = Some (Inr veth, s')"
  shows "veth_Name veth = ''veth00'' @ Itoa (nextVethNumber (node_env s)) @ hash sname 4"
    "veth_PeerName veth = ''veth01'' @ Itoa (nextVethNumber (node_env s)) @ hash sname 4"
proof -
  define v where "v = \<lparr>veth_Name = ''veth'' @ ''00'' @ Itoa (nextVethNumber (node_env s)) @ hash sname 4,
    veth_PeerName = ''veth'' @ ''01'' @ Itoa (nextVethNumber (node_env s)) @ hash sname 4, veth_MTU = mtu\<rparr>"
  from assms obtain act1 act2 act3 act4 where
    "go_try act1 id (\<lambda>_ :: unit. go_try act2 id (\<lambda>_ :: unit. go_try act3 id (\<lambda>_ :: unit.
      go_try act4 id (\<lambda>_ :: unit. go_return v)))) s = Some (Inr veth, s')"
    unfolding createVethsPairAndAttachToBridge_def Let_def v_def by blast
  then have "veth = v" by (elim go_try_InrE) simp
  then show "veth_Name veth = ''veth00'' @ Itoa (nextVethNumber (node_env s)) @ hash sname 4"
    "veth_PeerName veth = ''veth01'' @ Itoa (nextVethNumber (node_env s)) @ hash sname 4"
    by (simp_all add: v_def)
qed


lemma new_environment_veth: "new_environment h proxyname cfg = Some env \<Longrightarrow> nextVethNumber env = 0"
  by (auto simp: new_environment_def bind_eq_Some_conv)


end
