(* ===== verification/EnvironmentTable.thy ===== *)
theory EnvironmentTable
  imports AddressPool TableQueries
begin

text \<open>
  What the environment guarantees of its translation table and of the namespace of its thread: every
  table operation returns and keeps the invariant of the node, an update replaces the entry of its
  namespace address, lookups return entries of the service, and a function run inside a namespace
  leaves the thread in the namespace it came from.
\<close>

section \<open>The invariant of a node\<close>

definition table_ok :: "TableManager \<Rightarrow> bool" where
  "table_ok t \<longleftrightarrow> (\<forall>e \<in># table_entries t. isValid e)"

definition node_ok :: "'w node \<Rightarrow> bool" where
  "node_ok s \<longleftrightarrow> query_ok (node_mqtt s) \<and> events_ok (event_bus (node_mqtt s)) \<and>
     table_ok (env_table (node_env s))"

lemma table_ok_set: "table_ok t \<longleftrightarrow> (\<forall>e \<in> set (translationTable t). isValid e)"
  by (simp add: table_ok_def table_entries_def)

lemma RemoveByNsip_ok: "table_ok t \<Longrightarrow> \<exists>r t'. RemoveByNsip k t = Some (r, t') \<and> table_ok t'"
  using tab.remove_key_subset [of k t]
  by (cases rule: tab.remove_key_cases [where k = k and t = t])
    (auto simp: table_ok_def dest: in_diffD)

lemma RemoveByJobName_ok: "table_ok t \<Longrightarrow> \<exists>r t'. RemoveByJobName j t = Some (r, t') \<and> table_ok t'"
  using tab.remove_job_all [of j t] by (auto simp: table_ok_def)

lemma TableManager_Add_ok: "table_ok t \<Longrightarrow> table_ok (snd (TableManager_Add e t))"
  using tab.all_valid_add [of e t] by (cases "TableManager_Add e t") (simp add: table_ok_def)

section \<open>Updating an entry\<close>

text \<open>How an update changes the table, and what it leaves of the environment.\<close>

definition table_only :: "Environment \<Rightarrow> Environment \<Rightarrow> bool" where
  "table_only env env' \<longleftrightarrow> (\<exists>t. env' = env\<lparr>env_table := t\<rparr>)"

lemma table_only_refl [simp]: "table_only env env"
  unfolding table_only_def by (rule exI [of _ "env_table env"]) simp

lemma table_only_set [simp]: "table_only env (env\<lparr>env_table := t\<rparr>)"
  unfolding table_only_def by blast

lemma table_only_trans: "table_only a b \<Longrightarrow> table_only b c \<Longrightarrow> table_only a c"
  by (auto simp: table_only_def)

lemma AddTableQueryEntry_ok:
  assumes "table_ok (env_table env)"
  shows "\<exists>env'. AddTableQueryEntry e env = Some env' \<and> table_ok (env_table env') \<and> table_only env env'"
proof -
  from RemoveByNsip_ok [OF assms, of "Nsip e"] obtain r t where
    "RemoveByNsip (Nsip e) (env_table env) = Some (r, t)" "table_ok t" by blast
  with TableManager_Add_ok [of t e] show ?thesis
    by (auto simp: AddTableQueryEntry_def split: prod.splits)
qed

lemma AddTableQueryEntries_ok:
  "table_ok (env_table env) \<Longrightarrow>
    \<exists>env'. AddTableQueryEntries es env = Some env' \<and> table_ok (env_table env') \<and> table_only env env'"
proof (induction es arbitrary: env)
  case Nil
  then show ?case by simp
next
  case (Cons e es)
  from AddTableQueryEntry_ok [OF Cons.prems, of e] obtain env1 where
    env1: "AddTableQueryEntry e env = Some env1" "table_ok (env_table env1)" "table_only env env1" by blast
  from Cons.IH [OF env1(2)] env1 show ?case by (auto intro: table_only_trans)
qed

text \<open>The namespace address is a key of the table: at most one entry matches it.\<close>

definition unique_nsip :: "ip \<Rightarrow> TableManager \<Rightarrow> bool" where
  "unique_nsip k t \<longleftrightarrow> size (filter_mset (nsip_matches k) (table_entries t)) \<le> 1"

lemma filter_mset_empty_find:
  "filter_mset (nsip_matches k) (table_entries t) = {#} \<Longrightarrow> \<forall>e \<in> set (translationTable t). \<not> nsip_matches k e"
  by (simp add: table_entries_def)

lemma find_snoc: "\<forall>x \<in> set xs. \<not> P x \<Longrightarrow> P y \<Longrightarrow> List.find P (xs @ [y]) = Some y"
  by (induction xs) auto

text \<open>
  C25: An update replaces the entry of its namespace address. When that address was the key of at
  most one entry it is the key of exactly the new entry afterwards, and lookups by the address find
  it; an update that fails the validation still deletes the old entry and adds none.
\<close>

theorem table_update_replaces:
  assumes "unique_nsip (Nsip e) (env_table env)"
  shows "\<exists>env'. AddTableQueryEntry e env = Some env' \<and>
    unique_nsip (Nsip e) (env_table env') \<and>
    GetTableEntryByNsIP (Nsip e) env' = (if isValid e then Some e else None) \<and>
    filter_mset (\<lambda>x. \<not> nsip_matches (Nsip e) x) (table_entries (env_table env')) =
      filter_mset (\<lambda>x. \<not> nsip_matches (Nsip e) x) (table_entries (env_table env))"
proof -
  let ?k = "Nsip e" and ?t = "env_table env"
  obtain r t where rm: "RemoveByNsip ?k ?t = Some (r, t)"
    by (cases rule: tab.remove_key_cases [where k = ?k and t = ?t]) auto
  have none: "filter_mset (nsip_matches ?k) (table_entries t) = {#}"
    by (rule tab.remove_unique_key [OF _ rm]) (use assms in \<open>simp add: unique_nsip_def\<close>)
  have rest: "filter_mset (\<lambda>x. \<not> nsip_matches ?k x) (table_entries t) =
      filter_mset (\<lambda>x. \<not> nsip_matches ?k x) (table_entries ?t)"
    by (cases rule: tab.remove_key_cases [where k = ?k and t = ?t])
      (use rm in \<open>auto simp: filter_diff_mset\<close>)
  have self: "nsip_matches ?k e" by (simp add: nsip_matches_def)
  show ?thesis
  proof (cases "isValid e")
    case True
    let ?t' = "t\<lparr>translationTable := translationTable t @ [e]\<rparr>"
    have "AddTableQueryEntry e env = Some (env\<lparr>env_table := ?t'\<rparr>)"
      using True rm by (simp add: AddTableQueryEntry_def TableManager_Add_def)
    moreover have "table_entries ?t' = add_mset e (table_entries t)" by (simp add: table_entries_def)
    moreover have "SearchByNsIP ?k ?t' = Some e"
      using filter_mset_empty_find [OF none] self by (simp add: SearchByNsIP_def find_snoc)
    ultimately show ?thesis using True none rest self
      by (simp add: unique_nsip_def GetTableEntryByNsIP_def)
  next
    case False
    then have "AddTableQueryEntry e env = Some (env\<lparr>env_table := t\<rparr>)"
      using rm by (simp add: AddTableQueryEntry_def TableManager_Add_def)
    moreover have "size (filter_mset (nsip_matches ?k) (table_entries t)) \<le> 1" unfolding none by simp
    ultimately show ?thesis using False rest filter_mset_empty_find [OF none]
      by (simp add: unique_nsip_def GetTableEntryByNsIP_def SearchByNsIP_None)
  qed
qed


lemma new_environment_table:
  "new_environment h proxyname cfg = Some env \<Longrightarrow> env_table env = NewTableManager"
  by (auto simp: new_environment_def bind_eq_Some_conv)

definition sample_entry :: TableEntry where
  "sample_entry = \<lparr>JobName = ''app.ns.srv.ns'', Appname = ''app'', Appns = ''ns'', Servicename = ''srv'',
     Servicenamespace = ''ns'', Instancenumber = 0, Cluster = 0, Nodeip = IPv4 192 168 0 7, Nodeport = 50103,
     Nsip = IPv4 10 19 2 12, Nsipv6 = Some [0xfd, 0, 0, 0, 0, 0, 0, 0, 0, 0, 0, 0, 0, 0, 0, 0x12],
     ServiceIPs = [\<lparr>IpType = RoundRobin, Address = IPv4 10 30 255 255, Address_v6 = None\<rparr>,
                   \<lparr>IpType = InstanceNumber, Address = IPv4 10 30 255 254, Address_v6 = None\<rparr>]\<rparr>"

lemma sample_entry_valid: "isValid sample_entry"
  by (simp add: isValid_def sample_entry_def name_matches_def name_char_def Let_def IPv4_def)

theorem table_update_replaces_witness:
  "\<exists>env'. AddTableQueryEntry sample_entry sample_env = Some env' \<and>
    GetTableEntryByNsIP (IPv4 10 19 2 12) env' = Some sample_entry"
proof -
  have "unique_nsip (Nsip sample_entry) (env_table sample_env)"
    using new_environment_table [OF sample_env_new] by (simp add: unique_nsip_def table_entries_def NewTableManager_def)
  from table_update_replaces [OF this] sample_entry_valid show ?thesis
    by (auto simp: sample_entry_def)
qed

section \<open>Lookups, refreshes and removals\<close>

text \<open>What the response handler leaves of the client.\<close>

definition same_jobs :: "NetMqttClient \<Rightarrow> NetMqttClient \<Rightarrow> bool" where
  "same_jobs s s' \<longleftrightarrow> event_bus s' = event_bus s \<and> runningHandlers s' = runningHandlers s \<and>
     timers s' = timers s \<and> topics s' = topics s \<and> job_updates s' = job_updates s"

lemma same_jobs_refl [simp]: "same_jobs s s"
  by (simp add: same_jobs_def)

lemma same_jobs_trans [trans]: "same_jobs a b \<Longrightarrow> same_jobs b c \<Longrightarrow> same_jobs a c"
  by (simp add: same_jobs_def)

lemma same_jobs_broker [simp]: "same_jobs s (s\<lparr>broker := b\<rparr>)"
  by (simp add: same_jobs_def)

lemma notify_channels_frame:
  "notify_channels r cs s = Some s' \<Longrightarrow> same_jobs s s' \<and> broker s' = broker s"
proof (induction r cs s rule: notify_channels.induct)
  case (2 r c cs s)
  then show ?case by (auto simp: Let_def bind_eq_Some_conv same_jobs_def split: if_splits)
qed simp

lemma notify_key_frame:
  "notify_key r key s = Some s' \<Longrightarrow> same_jobs s s' \<and> broker s' = broker s"
  by (auto simp: notify_key_def bind_eq_Some_conv same_jobs_def split: option.splits dest: notify_channels_frame)

lemma notify_keys_frame:
  "notify_keys r keys s = Some s' \<Longrightarrow> same_jobs s s' \<and> broker s' = broker s"
  by (induction keys arbitrary: s) (auto simp: bind_eq_Some_conv same_jobs_def dest!: notify_key_frame)

lemma handle_messages_frame:
  "handle_messages msgs s = Some s' \<Longrightarrow> same_jobs s s' \<and> broker s' = broker s"
  by (induction msgs arbitrary: s)
    (auto simp: bind_eq_Some_conv TablequeryResultMqttHandler_def same_jobs_def dest!: notify_keys_frame)

lemma handle_messages_ok: "query_ok s \<Longrightarrow> \<exists>s'. handle_messages msgs s = Some s' \<and> query_ok s'"
proof (induction msgs arbitrary: s)
  case Nil
  then show ?case by simp
next
  case (Cons r msgs)
  from Cons.prems obtain s1 where "TablequeryResultMqttHandler r s = Some s1" "query_ok s1"
    by (rule handler_spec)
  with Cons.IH show ?case by simp
qed

lemma table_query_ok:
  assumes "query_ok client"
  shows "\<exists>r client'. tableQueryRequestBlocking sip sname force msgs client = Some (r, client') \<and>
    query_ok client' \<and> same_jobs client client' \<and>
    set (broker client) \<subseteq> set (broker client')"
proof -
  obtain b c1 where b: "query_begin sip sname force client = (b, c1)" by (cases "query_begin sip sname force client")
  have c1: "query_ok c1" "same_jobs client c1"
    "set (broker client) \<subseteq> set (broker c1)"
    using query_begin_ok [OF assms, of sip sname force] b
    by (auto simp: query_begin_def Let_def PublishToBroker_def same_jobs_def split: option.splits if_splits)
  show ?thesis
  proof (cases b)
    case (Inl e)
    with b c1 show ?thesis by (simp add: tableQueryRequestBlocking_def)
  next
    case (Inr c)
    from handle_messages_ok [OF c1(1), of msgs] obtain c2 where
      c2: "handle_messages msgs c1 = Some c2" "query_ok c2" by blast
    have "same_jobs c2 (snd (query_end c c2))" "broker (snd (query_end c c2)) = broker c2"
      by (simp_all add: query_end_def same_jobs_def split: list.splits)
    with b c1 c2 Inr query_end_ok [OF c2(2), of c] handle_messages_frame [OF c2(1)] show ?thesis
      by (cases "query_end c c2") (auto simp: tableQueryRequestBlocking_def intro: same_jobs_trans)
  qed
qed

lemma interest_ok:
  "query_ok client \<Longrightarrow> events_ok (event_bus client) \<Longrightarrow>
    query_ok (MqttRegisterInterest j client) \<and> events_ok (event_bus (MqttRegisterInterest j client))"
  using query_ok_cong [of "MqttRegisterInterest j client" client]
  by (simp add: MqttRegisterInterest_def RegisterTopic_def Let_def)

text \<open>A lookup of a service.\<close>

lemma service_lookup_ok:
  assumes "node_ok s"
  shows "\<exists>es s'. GetTableEntryByServiceIP a msgs s = Some (es, s') \<and> node_ok s' \<and>
    (\<forall>e \<in> set es. e \<in> set (translationTable (env_table (node_env s'))) \<and> serves a e) \<and>
    table_only (node_env s) (node_env s') \<and> node_os s' = node_os s"
proof (cases "SearchByServiceIP a (env_table (node_env s))")
  case (Cons e es)
  from assms have "events_ok (event_bus (node_mqtt s))" by (simp add: node_ok_def)
  from Emit_ok [OF this] obtain bus where
    bus: "Emit \<lparr>Event_EventType = TableQuery, EventTarget = JobName e, EventMessage = ''''\<rparr> (event_bus (node_mqtt s)) = Some bus"
    "events_ok bus" by blast
  have "query_ok ((node_mqtt s)\<lparr>event_bus := bus\<rparr>)"
    using assms query_ok_cong [of "(node_mqtt s)\<lparr>event_bus := bus\<rparr>" "node_mqtt s"] by (simp add: node_ok_def)
  moreover have "\<forall>x \<in> set (e # es). x \<in> set (translationTable (env_table (node_env s))) \<and> serves a x"
    using set_SearchByServiceIP [of a "env_table (node_env s)"] Cons by auto
  ultimately show ?thesis using Cons bus assms by (simp add: GetTableEntryByServiceIP_def node_ok_def)
next
  case Nil
  from assms have q: "query_ok (node_mqtt s)" and ev: "events_ok (event_bus (node_mqtt s))"
    and t: "table_ok (env_table (node_env s))" by (simp_all add: node_ok_def)
  from table_query_ok [OF q, of "IP_String a" "''''" False msgs] obtain r client where
    query: "tableQueryByIP a False msgs (node_mqtt s) = Some (parse_result r, client)"
    "query_ok client" "event_bus client = event_bus (node_mqtt s)"
    by (auto simp: tableQueryByIP_def TableQueryByIpRequestBlocking_def same_jobs_def)
  show ?thesis
  proof (cases "parse_result r")
    case (Inl err)
    with Nil query t ev show ?thesis by (simp add: GetTableEntryByServiceIP_def node_ok_def)
  next
    case (Inr entryList)
    let ?client = "case entryList of [] \<Rightarrow> client | e # _ \<Rightarrow> MqttRegisterInterest (JobName e) client"
    have "query_ok ?client \<and> events_ok (event_bus ?client)"
      using query ev interest_ok [of client] by (simp split: list.splits)
    then have "query_ok (MqttRegisterInterest (IP_String a) ?client) \<and>
        events_ok (event_bus (MqttRegisterInterest (IP_String a) ?client))" using interest_ok by blast
    moreover from AddTableQueryEntries_ok [OF t, of entryList] obtain env' where
      "AddTableQueryEntries entryList (node_env s) = Some env'" "table_ok (env_table env')"
      "table_only (node_env s) env'" by blast
    ultimately show ?thesis
      using Nil query Inr set_SearchByServiceIP [of a "env_table env'"]
      by (simp add: GetTableEntryByServiceIP_def node_ok_def)
  qed
qed

lemma refresh_ok:
  assumes "node_ok s"
  shows "\<exists>s'. RefreshServiceTable jobname msgs s = Some s' \<and> node_ok s' \<and>
    table_only (node_env s) (node_env s') \<and> set (broker (node_mqtt s)) \<subseteq> set (broker (node_mqtt s'))"
proof -
  from assms have q: "query_ok (node_mqtt s)" and ev: "events_ok (event_bus (node_mqtt s))"
    and t: "table_ok (env_table (node_env s))" by (simp_all add: node_ok_def)
  from table_query_ok [OF q, of "''''" jobname True msgs] obtain r client where
    query: "tableQueryByJobName jobname True msgs (node_mqtt s) = Some (parse_result r, client)"
    "query_ok client" "event_bus client = event_bus (node_mqtt s)"
    "set (broker (node_mqtt s)) \<subseteq> set (broker client)"
    by (auto simp: tableQueryByJobName_def TableQueryByJobNameRequestBlocking_def same_jobs_def)
  show ?thesis
  proof (cases "parse_result r")
    case (Inl err)
    with query t ev show ?thesis by (simp add: RefreshServiceTable_def node_ok_def)
  next
    case (Inr entryList)
    from RemoveByJobName_ok [OF t, of jobname] obtain r' t' where
      t': "RemoveByJobName jobname (env_table (node_env s)) = Some (r', t')" "table_ok t'" by blast
    from AddTableQueryEntries_ok [of "(node_env s)\<lparr>env_table := t'\<rparr>" entryList] t'(2) obtain env' where
      "AddTableQueryEntries entryList ((node_env s)\<lparr>env_table := t'\<rparr>) = Some env'" "table_ok (env_table env')"
      "table_only ((node_env s)\<lparr>env_table := t'\<rparr>) env'" by auto
    with query Inr t' ev show ?thesis
      by (auto simp: RefreshServiceTable_def node_ok_def table_only_def)
  qed
qed

text \<open>
  C26: Looking up a service always returns. The entries it returns are in the table afterwards, have
  passed the validation and carry the address; a known address leaves the table and the pools alone
  and sends no query; without a usable answer to the query nothing is returned or changed.
\<close>

theorem service_lookup:
  assumes "node_ok s"
  shows "\<exists>es s'. GetTableEntryByServiceIP a msgs s = Some (es, s') \<and> node_ok s' \<and>
    (\<forall>e \<in> set es. serves a e \<and> isValid e \<and> e \<in> set (translationTable (env_table (node_env s')))) \<and>
    (SearchByServiceIP a (env_table (node_env s)) \<noteq> [] \<longrightarrow>
       es = SearchByServiceIP a (env_table (node_env s)) \<and> node_env s' = node_env s \<and>
       broker (node_mqtt s') = broker (node_mqtt s)) \<and>
    (SearchByServiceIP a (env_table (node_env s)) = [] \<longrightarrow>
       (\<exists>err. map_option fst (tableQueryByIP a False msgs (node_mqtt s)) = Some (Inl err)) \<longrightarrow>
       es = [] \<and> node_env s' = node_env s)"
proof -
  from service_lookup_ok [OF assms, of a msgs] obtain es s' where
    r: "GetTableEntryByServiceIP a msgs s = Some (es, s')" "node_ok s'"
    "\<forall>e \<in> set es. e \<in> set (translationTable (env_table (node_env s'))) \<and> serves a e" by blast
  have "table_ok (env_table (node_env s'))" using r(2) by (simp add: node_ok_def)
  then have "\<forall>e \<in> set es. isValid e" using r(3) by (auto simp: table_ok_set)
  moreover have "es = SearchByServiceIP a (env_table (node_env s)) \<and> node_env s' = node_env s \<and>
      broker (node_mqtt s') = broker (node_mqtt s)" if "SearchByServiceIP a (env_table (node_env s)) \<noteq> []"
    using r(1) that by (auto simp: GetTableEntryByServiceIP_def neq_Nil_conv bind_eq_Some_conv)
  moreover have "es = [] \<and> node_env s' = node_env s" if "SearchByServiceIP a (env_table (node_env s)) = []"
      "\<exists>err. map_option fst (tableQueryByIP a False msgs (node_mqtt s)) = Some (Inl err)"
    using r(1) that by (auto simp: GetTableEntryByServiceIP_def)
  ultimately show ?thesis using r by blast
qed

lemma sample_node_query_ok:
  assumes "new_environment h proxyname cfg = Some env" "InitNetMqttClient clientid None = Some client"
  shows "node_ok \<lparr>node_env = env, node_os = w, node_mqtt = client\<rparr>"
proof -
  have "query_ok client" "event_bus client = NewEvents"
    using assms(2) by (auto simp: InitNetMqttClient_def intro: query_ok_init)
  then show ?thesis
    using new_environment_table [OF assms(1)]
    by (simp add: node_ok_def events_ok_New table_ok_set NewTableManager_def)
qed

definition sample_mqtt_client :: NetMqttClient where
  "sample_mqtt_client = the (InitNetMqttClient ''n1'' None)"

lemma sample_mqtt_client_init: "InitNetMqttClient ''n1'' None = Some sample_mqtt_client"
  by (simp add: sample_mqtt_client_def InitNetMqttClient_def)

definition log_node :: "os_call list node" where
  "log_node = \<lparr>node_env = sample_env, node_os = [], node_mqtt = sample_mqtt_client\<rparr>"

lemma log_node_ok: "node_ok log_node"
  unfolding log_node_def by (rule sample_node_query_ok [OF sample_env_new sample_mqtt_client_init])

theorem service_lookup_witness:
  "\<exists>es s'. GetTableEntryByServiceIP (IPv4 10 30 0 5) [] log_node = Some (es, s') \<and> node_ok s'"
  using service_lookup [OF log_node_ok] by blast

section \<open>The addresses in the table\<close>

text \<open>
  The representation of addresses: every address of an entry that came from a response is nil or
  has sixteen bytes.
\<close>

definition address_wf :: "ip \<Rightarrow> bool" where
  "address_wf a \<longleftrightarrow> (case a of None \<Rightarrow> True | Some x \<Rightarrow> length x = 16)"

definition entry_wf :: "TableEntry \<Rightarrow> bool" where
  "entry_wf e \<longleftrightarrow> address_wf (Nodeip e) \<and> address_wf (Nsip e) \<and> address_wf (Nsipv6 e) \<and>
     (\<forall>x \<in> set (ServiceIPs e). address_wf (Address x) \<and> address_wf (Address_v6 x))"

definition entries_wf :: "TableManager \<Rightarrow> bool" where
  "entries_wf t \<longleftrightarrow> (\<forall>e \<in># table_entries t. entry_wf e)"

lemma ParseIP_wf: "address_wf (ParseIP s)"
  using ParseIP_length by (auto simp: address_wf_def split: option.splits)

lemma responseParser_wf: "responseParser r = Inr es \<Longrightarrow> \<forall>e \<in> set es. entry_wf e"
  by (auto simp: responseParser_def Let_def entry_wf_def ParseIP_wf toServiceIP_def split: if_splits)

lemma RemoveByNsip_wf: "entries_wf t \<Longrightarrow> RemoveByNsip k t = Some (r, t') \<Longrightarrow> entries_wf t'"
  using tab.remove_key_subset [of k t r t'] by (auto simp: entries_wf_def dest: mset_subset_eqD)

lemma RemoveByJobName_wf: "entries_wf t \<Longrightarrow> RemoveByJobName j t = Some (r, t') \<Longrightarrow> entries_wf t'"
  using tab.remove_job_all [of j t] by (auto simp: entries_wf_def)

lemma Add_wf: "entries_wf t \<Longrightarrow> entry_wf e \<Longrightarrow> entries_wf (snd (TableManager_Add e t))"
  by (simp add: TableManager_Add_def entries_wf_def table_entries_def)

lemma AddTableQueryEntry_remove:
  "AddTableQueryEntry e env = Some env' \<longleftrightarrow>
    (\<exists>r t. RemoveByNsip (Nsip e) (env_table env) = Some (r, t) \<and>
      env' = env\<lparr>env_table := snd (TableManager_Add e t)\<rparr>)"
  by (cases "RemoveByNsip (Nsip e) (env_table env)")
    (auto simp: AddTableQueryEntry_def split_beta)

lemma AddTableQueryEntry_wf:
  "entries_wf (env_table env) \<Longrightarrow> entry_wf e \<Longrightarrow> AddTableQueryEntry e env = Some env' \<Longrightarrow>
    entries_wf (env_table env')"
  by (auto simp: AddTableQueryEntry_remove intro!: Add_wf dest: RemoveByNsip_wf)

lemma AddTableQueryEntries_wf:
  "entries_wf (env_table env) \<Longrightarrow> \<forall>e \<in> set es. entry_wf e \<Longrightarrow> AddTableQueryEntries es env = Some env' \<Longrightarrow>
    entries_wf (env_table env')"
proof (induction es arbitrary: env)
  case Nil
  then show ?case by simp
next
  case (Cons e es)
  then obtain env1 where "AddTableQueryEntry e env = Some env1" "AddTableQueryEntries es env1 = Some env'"
    by (auto simp: bind_eq_Some_conv)
  with Cons AddTableQueryEntry_wf show ?case by auto
qed

lemma parse_result_wf: "parse_result r = Inr es \<Longrightarrow> \<forall>e \<in> set es. entry_wf e"
  by (auto simp: parse_result_def split: sum.splits dest: responseParser_wf)

lemma table_query_wf:
  "tableQueryByIP a force msgs client = Some (Inr es, client') \<Longrightarrow> \<forall>e \<in> set es. entry_wf e"
  "tableQueryByJobName j force msgs client = Some (Inr es, client') \<Longrightarrow> \<forall>e \<in> set es. entry_wf e"
  by (auto simp: tableQueryByIP_def tableQueryByJobName_def dest!: sym [of _ "parse_result _"] parse_result_wf)

text \<open>The operations on the table of a node, in any order.\<close>

datatype table_use =
    Lookup ip "TableQueryResponse list"
  | Refresh string "TableQueryResponse list"
  | RemoveService string
  | RemoveNsIP string

fun table_use_step :: "table_use \<Rightarrow> 'w node \<Rightarrow> 'w node option" where
  "table_use_step (Lookup a msgs) s = map_option snd (GetTableEntryByServiceIP a msgs s)"
| "table_use_step (Refresh j msgs) s = RefreshServiceTable j msgs s"
| "table_use_step (RemoveService j) s =
     map_option (\<lambda>env. s\<lparr>node_env := env\<rparr>) (RemoveServiceEntries j (node_env s))"
| "table_use_step (RemoveNsIP nsip) s =
     map_option (\<lambda>env. s\<lparr>node_env := env\<rparr>) (RemoveNsIPEntries nsip (node_env s))"

fun table_use_run :: "table_use list \<Rightarrow> 'w node \<Rightarrow> 'w node option" where
  "table_use_run [] s = Some s"
| "table_use_run (x # xs) s = do { s1 \<leftarrow> table_use_step x s; table_use_run xs s1 }"

lemma remove_entries_ok:
  assumes "node_ok s"
  shows "\<exists>env'. RemoveServiceEntries j (node_env s) = Some env' \<and> node_ok (s\<lparr>node_env := env'\<rparr>)"
    "\<exists>env'. RemoveNsIPEntries nsip (node_env s) = Some env' \<and> node_ok (s\<lparr>node_env := env'\<rparr>)"
  using assms RemoveByJobName_ok [of "env_table (node_env s)" j]
    RemoveByNsip_ok [of "env_table (node_env s)" "Some (map of_char nsip)"]
  by (auto simp: node_ok_def RemoveServiceEntries_def RemoveNsIPEntries_def)

lemma table_use_step_ok:
  assumes "node_ok s" shows "\<exists>s'. table_use_step x s = Some s' \<and> node_ok s'"
proof (cases x)
  case (Lookup a msgs)
  with service_lookup_ok [OF assms, of a msgs] show ?thesis by auto
next
  case (Refresh j msgs)
  with refresh_ok [OF assms, of j msgs] show ?thesis by auto
next
  case (RemoveService j)
  with remove_entries_ok(1) [OF assms, of j] show ?thesis by auto
next
  case (RemoveNsIP nsip)
  with remove_entries_ok(2) [OF assms, of nsip] show ?thesis by auto
qed

lemma table_use_step_wf:
  assumes "entries_wf (env_table (node_env s))" "table_use_step x s = Some s'"
  shows "entries_wf (env_table (node_env s'))"
proof (cases x)
  case (Lookup a msgs)
  show ?thesis
  proof (cases "SearchByServiceIP a (env_table (node_env s))")
    case (Cons e es)
    with Lookup assms show ?thesis by (auto simp: GetTableEntryByServiceIP_def bind_eq_Some_conv)
  next
    case Nil
    with Lookup assms(2) obtain r client where
      q: "tableQueryByIP a False msgs (node_mqtt s) = Some (r, client)"
      by (auto simp: GetTableEntryByServiceIP_def bind_eq_Some_conv)
    show ?thesis
    proof (cases r)
      case (Inl err)
      with q Nil Lookup assms show ?thesis by (auto simp: GetTableEntryByServiceIP_def)
    next
      case (Inr es)
      with q Nil Lookup assms(2) obtain env where
        "AddTableQueryEntries es (node_env s) = Some env" "env_table (node_env s') = env_table env"
        by (auto simp: GetTableEntryByServiceIP_def bind_eq_Some_conv)
      with AddTableQueryEntries_wf [OF assms(1), of es env] table_query_wf(1) q Inr show ?thesis by auto
    qed
  qed
next
  case (Refresh j msgs)
  with assms obtain r client where q: "tableQueryByJobName j True msgs (node_mqtt s) = Some (r, client)"
    by (auto simp: RefreshServiceTable_def bind_eq_Some_conv)
  show ?thesis
  proof (cases r)
    case (Inl err)
    with q Refresh assms show ?thesis by (auto simp: RefreshServiceTable_def)
  next
    case (Inr es)
    with q Refresh assms(2) obtain e t env where t: "RemoveByJobName j (env_table (node_env s)) = Some (e, t)"
      "AddTableQueryEntries es ((node_env s)\<lparr>env_table := t\<rparr>) = Some env" "env_table (node_env s') = env_table env"
      by (auto simp: RefreshServiceTable_def bind_eq_Some_conv)
    have "entries_wf (env_table ((node_env s)\<lparr>env_table := t\<rparr>))" using RemoveByJobName_wf [OF assms(1) t(1)] by simp
    from AddTableQueryEntries_wf [OF this _ t(2)] table_query_wf(2) q Inr t(3) show ?thesis by auto
  qed
next
  case (RemoveService j)
  with assms show ?thesis
    by (auto simp: RemoveServiceEntries_def bind_eq_Some_conv dest: RemoveByJobName_wf)
next
  case (RemoveNsIP nsip)
  with assms show ?thesis
    by (auto simp: RemoveNsIPEntries_def bind_eq_Some_conv dest: RemoveByNsip_wf)
qed

lemma table_use_run_ok:
  "node_ok s \<Longrightarrow> entries_wf (env_table (node_env s)) \<Longrightarrow>
    \<exists>s'. table_use_run xs s = Some s' \<and> node_ok s' \<and> entries_wf (env_table (node_env s'))"
proof (induction xs arbitrary: s)
  case Nil
  then show ?case by simp
next
  case (Cons x xs)
  from table_use_step_ok [OF Cons.prems(1)] obtain s1 where "table_use_step x s = Some s1" "node_ok s1" by blast
  with Cons.IH [of s1] table_use_step_wf [OF Cons.prems(2)] show ?case by auto
qed

text \<open>
  C14: Whatever services are looked up, refreshed and removed on a new node, and whatever responses
  arrive meanwhile, no operation panics, every entry of the table has passed the validation, and
  every address in it is nil or has sixteen bytes.
\<close>

theorem node_table_well_formed:
  assumes "new_environment h proxyname cfg = Some env" and "InitNetMqttClient clientid None = Some client"
  shows "\<exists>s. table_use_run ops \<lparr>node_env = env, node_os = w, node_mqtt = client\<rparr> = Some s \<and>
    (\<forall>e \<in> set (translationTable (env_table (node_env s))). isValid e \<and> entry_wf e)"
proof -
  let ?s = "\<lparr>node_env = env, node_os = w, node_mqtt = client\<rparr>"
  have "entries_wf (env_table (node_env ?s))"
    using new_environment_table [OF assms(1)] by (simp add: entries_wf_def table_entries_def NewTableManager_def)
  from table_use_run_ok [OF sample_node_query_ok [OF assms] this, of ops] show ?thesis
    by (auto simp: node_ok_def table_ok_set entries_wf_def table_entries_def)
qed

theorem node_table_well_formed_witness:
  "\<exists>s. table_use_run [Refresh ''a.b.c.d'' [], Lookup (IPv4 10 30 0 5) [sample_response], RemoveNsIP ''10.19.2.12'']
      \<lparr>node_env = sample_env, node_os = (), node_mqtt = sample_mqtt_client\<rparr> = Some s \<and>
    (\<forall>e \<in> set (translationTable (env_table (node_env s))). isValid e \<and> entry_wf e)"
  by (rule node_table_well_formed [OF sample_env_new sample_mqtt_client_init])

section \<open>What a refresh and a removal do\<close>

text \<open>Entries whose namespace addresses are new to the table are appended in order.\<close>

fun new_to :: "TableEntry list \<Rightarrow> TableEntry list \<Rightarrow> bool" where
  "new_to old [] = True"
| "new_to old (e # es) \<longleftrightarrow> isValid e \<and> (\<forall>x \<in> set old. \<not> nsip_matches (Nsip e) x) \<and> new_to (old @ [e]) es"

lemma new_to_cong: "set old = set old' \<Longrightarrow> new_to old es = new_to old' es"
proof (induction es arbitrary: old old')
  case Nil
  then show ?case by simp
next
  case (Cons e es)
  from Cons.IH [of "old @ [e]" "old' @ [e]"] Cons.prems show ?case by simp
qed

lemma AddTableQueryEntries_new:
  "new_to (translationTable (env_table env)) es \<Longrightarrow>
    AddTableQueryEntries es env = Some (env\<lparr>env_table := (env_table env)\<lparr>translationTable :=
      translationTable (env_table env) @ es\<rparr>\<rparr>)"
proof (induction es arbitrary: env)
  case Nil
  then show ?case by simp
next
  case (Cons e es)
  let ?t = "env_table env"
  let ?env = "env\<lparr>env_table := ?t\<lparr>translationTable := translationTable ?t @ [e]\<rparr>\<rparr>"
  have "RemoveByNsip (Nsip e) ?t = Some (Some ''entry not found'', ?t)"
    using Cons.prems by (cases rule: RemoveByNsip_cases [of ?t "Nsip e"]) auto
  then have "AddTableQueryEntry e env = Some ?env"
    using Cons.prems by (simp add: AddTableQueryEntry_def TableManager_Add_def)
  moreover have "AddTableQueryEntries es ?env = Some (env\<lparr>env_table := ?t\<lparr>translationTable :=
      translationTable ?t @ e # es\<rparr>\<rparr>)"
    using Cons.IH [of ?env] Cons.prems by simp
  ultimately show ?case by simp
qed

text \<open>
  C24: A refresh of a job replaces its entries by those of the response: when these are valid and
  have namespace addresses that no other entry has, the table holds afterwards exactly the entries
  of the other jobs and the entries of the response, with their multiplicities.
\<close>

theorem refresh_replaces_job:
  assumes "tableQueryByJobName jobname True msgs (node_mqtt s) = Some (Inr es, client)"
    and "new_to (filter (\<lambda>e. JobName e \<noteq> jobname) (translationTable (env_table (node_env s)))) es"
  shows "\<exists>s'. RefreshServiceTable jobname msgs s = Some s' \<and>
    table_entries (env_table (node_env s')) =
      filter_mset (\<lambda>e. JobName e \<noteq> jobname) (table_entries (env_table (node_env s))) + mset es"
proof -
  let ?t = "env_table (node_env s)"
  obtain t where t: "RemoveByJobName jobname ?t = Some (None, t)"
    "table_entries t = filter_mset (\<lambda>e. JobName e \<noteq> jobname) (table_entries ?t)"
    using tab.remove_job_all by blast
  then have "set (translationTable t) = set (filter (\<lambda>e. JobName e \<noteq> jobname) (translationTable ?t))"
    by (metis mset_filter set_mset_mset table_entries_def)
  with assms(2) have "new_to (translationTable t) es" using new_to_cong by blast
  from AddTableQueryEntries_new [of "(node_env s)\<lparr>env_table := t\<rparr>" es] this assms(1) t show ?thesis
    by (simp add: RefreshServiceTable_def table_entries_def)
qed

lemma sample_query:
  "tableQueryByJobName ''app.ns.srv.ns'' True [sample_response] sample_mqtt_client =
    Some (Inr [], snd (the (tableQueryByJobName ''app.ns.srv.ns'' True [sample_response] sample_mqtt_client)))"
  by (simp add: tableQueryByJobName_def TableQueryByJobNameRequestBlocking_def tableQueryRequestBlocking_def
      query_begin_def sample_mqtt_client_def InitNetMqttClient_def PublishToBroker_def make_chan_def
      TablequeryResultMqttHandler_def querykeys_def sample_response_def notify_key_def chan_full_def chan_send_def
      query_end_def parse_result_def responseParser_def MqttIsInterestRegistered_def Slice_Exists_def
      Slice_Find_def findLocked_def NewSlice_def first_index_def Let_def)

theorem refresh_replaces_job_witness:
  "\<exists>s'. RefreshServiceTable ''app.ns.srv.ns'' [sample_response]
      (log_node\<lparr>node_env := sample_env\<lparr>env_table := \<lparr>translationTable = [sample_entry]\<rparr>\<rparr>\<rparr>) = Some s' \<and>
    table_entries (env_table (node_env s')) = {#}"
proof -
  let ?s = "log_node\<lparr>node_env := sample_env\<lparr>env_table := \<lparr>translationTable = [sample_entry]\<rparr>\<rparr>\<rparr>"
  have "tableQueryByJobName ''app.ns.srv.ns'' True [sample_response] (node_mqtt ?s) =
      Some (Inr [], snd (the (tableQueryByJobName ''app.ns.srv.ns'' True [sample_response] sample_mqtt_client)))"
    using sample_query by (simp add: log_node_def)
  from refresh_replaces_job [OF this] show ?thesis
    by (simp add: table_entries_def sample_entry_def)
qed

lemma isValid_addresses: "isValid e \<Longrightarrow> Nodeip e \<noteq> None \<and> Nsip e \<noteq> None \<and> Nsipv6 e \<noteq> None"
  by (simp add: isValid_def split: if_splits)

text \<open>
  Removing the entries of a namespace address given as text does nothing unless the text happens
  to be four or sixteen characters long: the characters are taken as the bytes of an address, and no
  entry of a well-formed table has such an address.
\<close>

theorem remove_by_text_is_noop:
  assumes "\<forall>e \<in> set (translationTable (env_table env)). isValid e \<and> entry_wf e"
    and "length nsip \<noteq> 4" and "length nsip \<noteq> 16"
  shows "RemoveNsIPEntries nsip env = Some env"
proof -
  let ?k = "Some (map of_char nsip) :: ip"
  have "\<not> IP_Equal a ?k" if "address_wf a" "a \<noteq> None" for a
    using that assms(2,3) by (auto simp: address_wf_def IP_Equal_def ip_bytes_def Let_def)
  then have "\<forall>e \<in> set (translationTable (env_table env)). \<not> nsip_matches ?k e"
    using assms(1) unfolding nsip_matches_def entry_wf_def by (blast dest: isValid_addresses)
  then have "RemoveByNsip ?k (env_table env) = Some (Some ''entry not found'', env_table env)"
    by (cases rule: RemoveByNsip_cases [of "env_table env" ?k]) auto
  then show ?thesis by (simp add: RemoveNsIPEntries_def)
qed

theorem remove_by_text_is_noop_witness:
  "RemoveNsIPEntries ''10.19.2.12'' (sample_env\<lparr>env_table := \<lparr>translationTable = [sample_entry]\<rparr>\<rparr>) =
    Some (sample_env\<lparr>env_table := \<lparr>translationTable = [sample_entry]\<rparr>\<rparr>)"
  by (rule remove_by_text_is_noop)
    (simp_all add: sample_entry_valid, simp add: sample_entry_def entry_wf_def address_wf_def IPv4_def v4InV6Prefix_def)

section \<open>Namespaces\<close>

text \<open>
  The documented effect of the namespace requests on the namespace the thread is in and on the one
  that \<open>netns.Get\<close> saved: getting saves the current one, restoring goes back to the saved one, only
  the two \<open>Set\<close> requests change the current one, and only getting changes the saved one.
\<close>

definition namespaces_documented :: "'w os \<Rightarrow> ('w \<Rightarrow> 'n) \<Rightarrow> ('w \<Rightarrow> 'n) \<Rightarrow> bool" where
  "namespaces_documented os current saved \<longleftrightarrow>
     (\<forall>c w. c \<noteq> NsGet \<longrightarrow> saved (snd (os c w)) = saved w) \<and>
     (\<forall>c w. (\<forall>pid name. c \<noteq> NsSetPid pid \<and> c \<noteq> NsSetName name) \<longrightarrow> c \<noteq> NsRestore \<longrightarrow>
        current (snd (os c w)) = current w) \<and>
     (\<forall>w. saved (snd (os NsGet w)) = current w) \<and>
     (\<forall>w. current (snd (os NsRestore w)) = saved w)"

lemma exec_in_namespace_restores:
  assumes doc: "namespaces_documented os current saved"
    and calls: "\<forall>pid name. get_ns \<noteq> NsSetPid pid \<and> get_ns \<noteq> NsSetName name" "get_ns \<noteq> NsRestore"
      "get_ns \<noteq> NsGet" "set_ns \<noteq> NsGet"
    and f: "\<And>w. saved (snd (f w)) = saved w"
  shows "current (snd (exec_in_namespace os get_ns set_ns f w)) = current w"
proof -
  have sv: "saved (snd (os c w)) = saved w" if "c \<noteq> NsGet" for c w
    using doc that unfolding namespaces_documented_def by blast
  have cur: "current (snd (os c w)) = current w"
    if "\<forall>pid name. c \<noteq> NsSetPid pid \<and> c \<noteq> NsSetName name" "c \<noteq> NsRestore" for c w
    using doc that unfolding namespaces_documented_def by blast
  have get: "saved (snd (os NsGet w)) = current w" "current (snd (os NsRestore w)) = saved w" for w
    using doc unfolding namespaces_documented_def by blast+
  obtain r1 w1 where w1: "os NsGet w = (r1, w1)" by (cases "os NsGet w")
  obtain r2 w2 where w2: "os get_ns w1 = (r2, w2)" by (cases "os get_ns w1")
  obtain r3 w3 where w3: "os set_ns w2 = (r3, w3)" by (cases "os set_ns w2")
  obtain r4 w4 where w4: "f w3 = (r4, w4)" by (cases "f w3")
  have "current w1 = current w" using cur [of NsGet w] w1 by simp
  moreover have "saved w1 = current w" using get(1) [of w] w1 by simp
  moreover have "current w2 = current w1" using cur [OF calls(1,2), of w1] w2 by simp
  moreover have "saved w2 = saved w1" "saved w3 = saved w2" "saved w4 = saved w3"
    using sv [OF calls(3), of w1] sv [OF calls(4), of w2] f [of w3] w2 w3 w4 by simp_all
  ultimately show ?thesis
    using w1 w2 w3 w4 get(2) cur [of NsClose]
    by (cases r1; cases r2; cases r3) (simp_all add: exec_in_namespace_def ignoring_def)
qed

lemma saved_seq:
  "(\<And>c w. c \<in> set cs \<Longrightarrow> saved (snd (os c w)) = saved w) \<Longrightarrow> saved (snd (os_seq os cs w)) = saved w"
proof (induction cs arbitrary: w)
  case Nil
  then show ?case by simp
next
  case (Cons c cs)
  have c: "saved (snd (os c w)) = saved w" by (rule Cons.prems) simp
  have cs: "saved (snd (os_seq os cs w')) = saved w'" for w' by (rule Cons.IH, rule Cons.prems) simp
  show ?case
  proof (cases "os c w")
    case (Pair r w')
    with c cs [of w'] show ?thesis by (cases r) simp_all
  qed
qed

text \<open>
  C30: Whatever fails while a function runs inside the namespace of a container, named by its process
  or by its name, the thread is back in the namespace it came from afterwards; so it is after each
  of the steps that configure a container from inside its namespace.
\<close>

theorem namespace_restored:
  assumes doc: "namespaces_documented os current saved"
    and "\<And>w. saved (snd (f w)) = saved w"
  shows "current (snd (execInsideNs os pid f w)) = current w \<and>
    current (snd (execInsideNsByName os name f w)) = current w \<and>
    current (snd (addPeerLinkNetwork os pid addr v w)) = current w \<and>
    current (snd (disableDAD os pid v w)) = current w \<and>
    current (snd (setContainerRoutes os env pid v w)) = current w \<and>
    current (snd (setIPv6ContainerRoutes os env pid v w)) = current w"
proof -
  have ins: "current (snd (execInsideNs os pid f w)) = current w"
    "current (snd (execInsideNsByName os name f w)) = current w"
    if "\<And>w. saved (snd (f w)) = saved w" for f pid name w
    unfolding execInsideNs_def execInsideNsByName_def
    by (rule exec_in_namespace_restores [OF doc], use that in simp_all)+
  have sv: "saved (snd (os_seq os cs w)) = saved w" if "NsGet \<notin> set cs" for cs w
  proof (rule saved_seq)
    fix c w assume "c \<in> set cs"
    with that have "c \<noteq> NsGet" by blast
    then show "saved (snd (os c w)) = saved w" using doc unfolding namespaces_documented_def by blast
  qed
  have "current (snd (addPeerLinkNetwork os pid addr v w)) = current w"
  proof (cases "os (ParseAddr addr) w")
    case (Pair r w1)
    have "current (snd (os (ParseAddr addr) w)) = current w"
      using doc unfolding namespaces_documented_def by blast
    with Pair have "current w1 = current w" by simp
    moreover have "current (snd (execInsideNs os pid (os_seq os [LinkByName v, AddrAdd v addr, LinkSetUp v]) w1)) = current w1"
      by (intro ins sv) simp
    ultimately show ?thesis using Pair by (cases r) (simp_all add: addPeerLinkNetwork_def)
  qed
  moreover have "current (snd (disableDAD os pid v w)) = current w"
    unfolding disableDAD_def by (intro ins sv) simp
  moreover have "current (snd (setContainerRoutes os env pid v w)) = current w"
    unfolding setContainerRoutes_def by (intro ins sv) simp
  moreover have "current (snd (setIPv6ContainerRoutes os env pid v w)) = current w"
    unfolding setIPv6ContainerRoutes_def by (intro ins sv) simp
  ultimately show ?thesis using ins assms(2) by blast
qed

text \<open>A system whose state is the current and the saved namespace; it knows the process 7 only.\<close>

definition ns_os :: "(nat \<times> nat) os" where
  "ns_os c w =
     (case c of
        NsGet \<Rightarrow> (None, (fst w, fst w))
      | NsGetFromPid pid \<Rightarrow> (if pid = 7 then None else Some ''no such process'', w)
      | NsSetPid pid \<Rightarrow> (None, (nat pid, snd w))
      | NsSetName name \<Rightarrow> (None, (0, snd w))
      | NsRestore \<Rightarrow> (None, (snd w, snd w))
      | Exec args \<Rightarrow> (Some ''exit status 1'', w)
      | _ \<Rightarrow> (None, w))"

theorem namespace_restored_witness:
  "execInsideNs ns_os 7 (\<lambda>w. (Some (if fst w = 7 then ''inside'' else ''outside''), w)) (1, 1) = (Some ''inside'', 1, 1) \<and>
    fst (snd (disableDAD ns_os 7 ''v'' (1, 1))) = 1"
proof -
  have doc: "namespaces_documented ns_os fst snd"
    by (simp add: namespaces_documented_def ns_os_def split: os_call.splits)
  have "fst (snd (disableDAD ns_os 7 ''v'' (1, 1))) = fst (1 :: nat, 1 :: nat)"
    using namespace_restored [OF doc, of "\<lambda>w. (None :: error option, w)" 7 "(1, 1)" "''n''" "''a''" "''v''" sample_env]
    by simp
  moreover have "execInsideNs ns_os 7 (\<lambda>w. (Some (if fst w = 7 then ''inside'' else ''outside''), w)) (1, 1) = (Some ''inside'', 1, 1)"
    by (simp add: execInsideNs_def exec_in_namespace_def ns_os_def ignoring_def)
  ultimately show ?thesis by simp
qed

end
