(* ===== verification/ProxyTunnel.thy ===== *)
theory ProxyTunnel
  imports ProxyCache Packets TableCache "HOL-Library.AList"
begin

text \<open>
  \<open>proxy/ProxyTunnel.go\<close>: the proxy between the containers of a node and the other nodes. Packets
  from the bridge whose destination is a service address are rewritten to the namespace address of
  an instance and sent to its node over UDP; packets from other nodes are rewritten back.

  The environment is the Go interface \<open>EnvironmentManager\<close>, a record of its methods over a state of
  their own. UDP sockets and the TUN device are the record \<open>netio\<close>; a connection is the handle that
  dialling returns. \<open>intn\<close> is \<open>rand.Intn\<close>, \<open>now\<close> and \<open>now'\<close> are the Unix times read by the lookup in
  the cache and by the insertion.
\<close>

section \<open>State\<close>

record 'e EnvironmentManager =
  em_GetTableEntryByServiceIP :: "ip \<Rightarrow> 'e \<Rightarrow> (TableEntry list \<times> 'e) option"
  em_GetTableEntryByNsIP :: "ip \<Rightarrow> 'e \<Rightarrow> TableEntry option"
  em_GetTableEntryByInstanceIP :: "ip \<Rightarrow> 'e \<Rightarrow> TableEntry option"

record 'u netio =
  io_ResolveUDPAddr :: "string \<Rightarrow> 'u \<Rightarrow> error option \<times> 'u"
  io_DialUDP :: "string \<Rightarrow> 'u \<Rightarrow> (error + nat) \<times> 'u"
  io_SetWriteBuffer :: "nat \<Rightarrow> nat \<Rightarrow> 'u \<Rightarrow> error option \<times> 'u"
  io_WriteMsgUDP :: "nat \<Rightarrow> byte list \<Rightarrow> 'u \<Rightarrow> error option \<times> 'u"
  io_Close :: "nat \<Rightarrow> 'u \<Rightarrow> 'u"
  io_WriteTun :: "byte list \<Rightarrow> 'u \<Rightarrow> error option \<times> 'u"

record incomingMessage =
  incoming_content :: "byte list"
  from_IP :: ip
  from_Port :: int

record outgoingMessage =
  outgoing_content :: "byte list"

record ('e, 'u, 'd) GoProxyTunnel =
  environment :: 'e
  incomingChannel :: "incomingMessage list"
  connectionBuffer :: "(string \<times> nat) list"
  outgoingChannel :: "outgoingMessage list"
  HostTUNDeviceName :: string
  tunNetIPv6 :: string
  tunNetIP :: string
  tun_mtusize :: string
  ProxyIpSubnetwork :: IPNet
  ProxyIPv6Subnetwork :: IPNet
  localIP :: ip
  proxycache :: ProxyCache
  TunnelPort :: int
  isListening :: bool
  defragger :: 'd
  io_state :: 'u

definition BUFFER_SIZE :: nat where "BUFFER_SIZE = 64 * 1024"

text \<open>The capacity of the two packet channels.\<close>

definition channel_size :: nat where "channel_size = 1000"

section \<open>Translation\<close>

definition in_subnetwork :: "IPNet \<Rightarrow> ip \<Rightarrow> bool" where
  "in_subnetwork n a \<longleftrightarrow> IP_Equal (IP_Mask (net_IP n) (net_Mask n)) (IP_Mask a (net_Mask n))"

definition semanticRoutingSubnetwork :: "('e, 'u, 'd) GoProxyTunnel \<Rightarrow> NetworkLayerPacket \<Rightarrow> bool" where
  "semanticRoutingSubnetwork proxy p =
     (let b = False;
          b = (if GetProtocolVersion p = 4 then in_subnetwork (ProxyIpSubnetwork proxy) (GetDestIP p) else b);
          b = (if GetProtocolVersion p = 6 then in_subnetwork (ProxyIPv6Subnetwork proxy) (GetDestIP p) else b)
      in b)"

definition src_port :: "TransportLayerProtocol option \<Rightarrow> int" where
  "src_port prot = (case prot of None \<Rightarrow> -1 | Some t \<Rightarrow> uint (GetSourcePort t))"

definition dst_port :: "TransportLayerProtocol option \<Rightarrow> int" where
  "dst_port prot = (case prot of None \<Rightarrow> -1 | Some t \<Rightarrow> uint (GetDestPort t))"

text \<open>The last instance address of the sender's entry; the empty address when it has none.\<close>

definition convertToInstanceIp :: "'e EnvironmentManager \<Rightarrow> NetworkLayerPacket \<Rightarrow> 'e \<Rightarrow> error + ip" where
  "convertToInstanceIp em p e =
     (case em_GetTableEntryByNsIP em (GetSrcIP p) e of
        None \<Rightarrow> Inl (''unable to find instance IP for service: '' @ IP_String (GetSrcIP p) @ '' '')
      | Some instanceTableEntry \<Rightarrow>
          Inr (foldl (\<lambda>instanceIP sip.
            if IpType sip = InstanceNumber
            then (if GetProtocolVersion p = 4 then Address sip else Address_v6 sip)
            else instanceIP) (Some []) (ServiceIPs instanceTableEntry)))"

text \<open>The conversion of a packet: the one in the cache while its instance exists, or a new one.\<close>

definition must_choose :: "ConversionEntry option \<Rightarrow> TableEntry list \<Rightarrow> bool" where
  "must_choose found tableEntryList =
     (case found of
        None \<Rightarrow> True
      | Some entry \<Rightarrow> dstport entry < 1 \<or> \<not> IsNamespaceStillValid (dstip entry) tableEntryList)"

definition choose_conversion ::
  "(nat \<Rightarrow> nat) \<Rightarrow> int \<Rightarrow> int \<Rightarrow> TableEntry list \<Rightarrow> ip \<Rightarrow> NetworkLayerPacket \<Rightarrow> int \<Rightarrow> int \<Rightarrow> ProxyCache \<Rightarrow>
    (ConversionEntry \<times> ProxyCache) option" where
  "choose_conversion intn now now' tableEntryList instanceIP p sport dport c =
     do {
       (found, c) \<leftarrow> RetrieveByServiceIP now (GetSrcIP p) instanceIP sport (GetDestIP p) dport c;
       (if must_choose found tableEntryList then
          do {
            let i = intn (length tableEntryList);
            tableEntry \<leftarrow> (if i < length tableEntryList then Some (tableEntryList ! i) else None);
            let entryDstIP = (if GetProtocolVersion p = 4 then Nsip tableEntry else Nsipv6 tableEntry);
            let entry = \<lparr>srcip = GetSrcIP p, dstip = entryDstIP, dstServiceIp = GetDestIP p,
                         srcInstanceIp = instanceIP, srcport = sport, dstport = dport\<rparr>;
            c \<leftarrow> ProxyCache_Add now' entry c;
            Some (entry, c)
          }
        else Some (the found, c))
     }"

text \<open>
  The packet to send, \<open>None\<close> for nil, and the given packet as the caller sees it afterwards: its
  addresses have been rewritten.
\<close>

definition outgoingProxy ::
  "'e EnvironmentManager \<Rightarrow> ('d, 'z) gopacket_scheme \<Rightarrow> (nat \<Rightarrow> nat) \<Rightarrow> int \<Rightarrow> int \<Rightarrow> NetworkLayerPacket \<Rightarrow>
    TransportLayerProtocol option \<Rightarrow> ('e, 'u, 'd) GoProxyTunnel \<Rightarrow>
    ((Packet option \<times> NetworkLayerPacket) \<times> ('e, 'u, 'd) GoProxyTunnel) option" where
  "outgoingProxy em lib intn now now' p prot proxy =
     (if semanticRoutingSubnetwork proxy p then
        do {
          (tableEntryList, e) \<leftarrow> em_GetTableEntryByServiceIP em (GetDestIP p) (environment proxy);
          let proxy = proxy\<lparr>environment := e\<rparr>;
          (if length tableEntryList < 1 then Some ((None, p), proxy)
           else
             (case convertToInstanceIp em p e of
                Inl err \<Rightarrow> Some ((None, p), proxy)
              | Inr instanceIP \<Rightarrow>
                  do {
                    (entry, c) \<leftarrow> choose_conversion intn now now' tableEntryList instanceIP p
                                    (src_port prot) (dst_port prot) (proxycache proxy);
                    (pkt, p') \<leftarrow> SerializePacket lib p (dstip entry) (srcInstanceIp entry) prot;
                    Some ((pkt, p'), proxy\<lparr>proxycache := c\<rparr>)
                  }))
        }
      else Some ((None, p), proxy))"

definition ingoingProxy ::
  "('d, 'z) gopacket_scheme \<Rightarrow> int \<Rightarrow> NetworkLayerPacket \<Rightarrow> TransportLayerProtocol option \<Rightarrow>
    ('e, 'u, 'd) GoProxyTunnel \<Rightarrow>
    ((Packet option \<times> NetworkLayerPacket) \<times> ('e, 'u, 'd) GoProxyTunnel) option" where
  "ingoingProxy lib now p prot proxy =
     do {
       (found, c) \<leftarrow> RetrieveByInstanceIp now (GetDestIP p) (dst_port prot) (src_port prot) (proxycache proxy);
       let proxy = proxy\<lparr>proxycache := c\<rparr>;
       (case found of
          None \<Rightarrow> Some ((None, p), proxy)
        | Some entry \<Rightarrow>
            do {
              (pkt, p') \<leftarrow> SerializePacket lib p (srcip entry) (dstServiceIp entry) prot;
              Some ((pkt, p'), proxy)
            })
     }"

section \<open>Forwarding\<close>

definition locateRemoteAddress :: "'e EnvironmentManager \<Rightarrow> ip \<Rightarrow> 'e \<Rightarrow> ip \<times> int" where
  "locateRemoteAddress em nsIP e =
     (case em_GetTableEntryByNsIP em nsIP e of
        Some tableElement \<Rightarrow> (Nodeip tableElement, Nodeport tableElement)
      | None \<Rightarrow> (nsIP, -1))"

definition createUDPChannel :: "'u netio \<Rightarrow> string \<Rightarrow> 'u \<Rightarrow> (error + nat) \<times> 'u" where
  "createUDPChannel io hoststring u =
     (case io_ResolveUDPAddr io hoststring u of
        (Some err, u) \<Rightarrow> (Inl err, u)
      | (None, u) \<Rightarrow>
          (case io_DialUDP io hoststring u of
             (Inl err, u) \<Rightarrow> (Inl err, u)
           | (Inr connection, u) \<Rightarrow>
               (case io_SetWriteBuffer io connection BUFFER_SIZE u of
                  (Some err, u) \<Rightarrow> (Inl err, u)
                | (None, u) \<Rightarrow> (Inr connection, u))))"

definition buffer_connection :: "string \<Rightarrow> nat \<Rightarrow> 'u \<Rightarrow> ('e, 'u, 'd) GoProxyTunnel \<Rightarrow> ('e, 'u, 'd) GoProxyTunnel" where
  "buffer_connection hoststring connection u proxy =
     proxy\<lparr>connectionBuffer := AList.update hoststring connection (connectionBuffer proxy), io_state := u\<rparr>"

text \<open>The buffered connection to a node, or a new one.\<close>

definition get_connection :: "'u netio \<Rightarrow> string \<Rightarrow> ('e, 'u, 'd) GoProxyTunnel \<Rightarrow>
    nat option \<times> ('e, 'u, 'd) GoProxyTunnel" where
  "get_connection io hoststring proxy =
     (case map_of (connectionBuffer proxy) hoststring of
        Some con \<Rightarrow> (Some con, proxy)
      | None \<Rightarrow>
          (case createUDPChannel io hoststring (io_state proxy) of
             (Inl err, u) \<Rightarrow> (None, proxy\<lparr>io_state := u\<rparr>)
           | (Inr connection, u) \<Rightarrow>
               (let u = snd (io_SetWriteBuffer io connection BUFFER_SIZE u)
                in (Some connection, buffer_connection hoststring connection u proxy))))"

text \<open>
  A send on a packet channel: the message that still waits when the channel is full.
\<close>

definition send_incoming :: "incomingMessage \<Rightarrow> ('e, 'u, 'd) GoProxyTunnel \<Rightarrow>
    incomingMessage option \<times> ('e, 'u, 'd) GoProxyTunnel" where
  "send_incoming msg proxy =
     (if length (incomingChannel proxy) < channel_size
      then (None, proxy\<lparr>incomingChannel := incomingChannel proxy @ [msg]\<rparr>)
      else (Some msg, proxy))"

definition hoststring_of :: "ip \<Rightarrow> int \<Rightarrow> string" where
  "hoststring_of dstHost dstPort = IP_String dstHost @ '':'' @ Itoa dstPort"

function forward :: "'u netio \<Rightarrow> ('d, 'z) gopacket_scheme \<Rightarrow> ip \<Rightarrow> int \<Rightarrow> Packet \<Rightarrow> int \<Rightarrow>
    ('e, 'u, 'd) GoProxyTunnel \<Rightarrow> incomingMessage option \<times> ('e, 'u, 'd) GoProxyTunnel" where
  "forward io lib dstHost dstPort packet attemptNumber proxy =
     (if attemptNumber > 10 then (None, proxy)
      else
        let packetBytes = packetToByte lib packet in
        if IP_Equal dstHost (localIP proxy) then
          send_incoming \<lparr>incoming_content = packetBytes, from_IP = localIP proxy, from_Port = 0\<rparr> proxy
        else
          let hoststring = hoststring_of dstHost dstPort in
          (case get_connection io hoststring proxy of
             (None, proxy) \<Rightarrow> (None, proxy)
           | (Some con, proxy) \<Rightarrow>
               (case io_WriteMsgUDP io con packetBytes (io_state proxy) of
                  (None, u) \<Rightarrow> (None, proxy\<lparr>io_state := u\<rparr>)
                | (Some err, u) \<Rightarrow>
                    (case createUDPChannel io hoststring (io_Close io con u) of
                       (Inl err, u) \<Rightarrow> (None, proxy\<lparr>io_state := u\<rparr>)
                     | (Inr connection, u) \<Rightarrow>
                         forward io lib dstHost dstPort packet (attemptNumber + 1)
                           (buffer_connection hoststring connection u proxy)))))"
  by pat_completeness auto
termination
  by (relation "measure (\<lambda>(io, lib, dstHost, dstPort, packet, attemptNumber, proxy). nat (11 - attemptNumber))")
    auto

declare forward.simps [simp del]

section \<open>Messages\<close>

text \<open>
  One round of each handler loop; \<open>None\<close> is a panic, which ends the process. The first component of
  the outgoing round is a message that waits for room in the incoming channel.
\<close>

definition handle_outgoing ::
  "'e EnvironmentManager \<Rightarrow> 'u netio \<Rightarrow> ('d, 'z) gopacket_scheme \<Rightarrow> (nat \<Rightarrow> nat) \<Rightarrow> int \<Rightarrow> int \<Rightarrow> outgoingMessage \<Rightarrow>
    ('e, 'u, 'd) GoProxyTunnel \<Rightarrow> (incomingMessage option \<times> ('e, 'u, 'd) GoProxyTunnel) option" where
  "handle_outgoing em io lib intn now now' msg proxy =
     do {
       (decoded, d) \<leftarrow> decodePacket lib (outgoing_content msg) (defragger proxy);
       let proxy = proxy\<lparr>defragger := d\<rparr>;
       (case decoded of
          None \<Rightarrow> Some (None, proxy)
        | Some (p, None) \<Rightarrow> Some (None, proxy)
        | Some (p, Some prot) \<Rightarrow>
            do {
              ((newPacket, p'), proxy) \<leftarrow> outgoingProxy em lib intn now now' p (Some prot) proxy;
              (case newPacket of
                 None \<Rightarrow> Some (None, proxy)
               | Some pkt \<Rightarrow>
                   (case locateRemoteAddress em (GetDestIP p') (environment proxy) of
                      (dstHost, dstPort) \<Rightarrow> Some (forward io lib dstHost dstPort pkt 0 proxy)))
            })
     }"

definition handle_ingoing ::
  "'u netio \<Rightarrow> ('d, 'z) gopacket_scheme \<Rightarrow> int \<Rightarrow> incomingMessage \<Rightarrow>
    ('e, 'u, 'd) GoProxyTunnel \<Rightarrow> ('e, 'u, 'd) GoProxyTunnel option" where
  "handle_ingoing io lib now msg proxy =
     do {
       (decoded, d) \<leftarrow> decodePacket lib (incoming_content msg) (defragger proxy);
       let proxy = proxy\<lparr>defragger := d\<rparr>;
       (case decoded of
          None \<Rightarrow> Some proxy
        | Some (p, None) \<Rightarrow> Some proxy
        | Some (p, Some prot) \<Rightarrow>
            do {
              ((newPacket, p'), proxy) \<leftarrow> ingoingProxy lib now p (Some prot) proxy;
              let packetBytes = (case newPacket of
                                   None \<Rightarrow> incoming_content msg
                                 | Some pkt \<Rightarrow> packetToByte lib pkt);
              Some (proxy\<lparr>io_state := snd (io_WriteTun io packetBytes (io_state proxy))\<rparr>)
            })
     }"

end
