(* ===== verification/ProxyTranslation.thy ===== *)
theory ProxyTranslation
  imports ProxyTunnel
begin

text \<open>
  What the proxy does to a packet: to which instance it translates, how long a flow stays with its
  instance, how replies are translated back, and which packets are dropped.
\<close>

section \<open>Choosing the conversion\<close>

definition new_conversion :: "TableEntry \<Rightarrow> ip \<Rightarrow> NetworkLayerPacket \<Rightarrow> int \<Rightarrow> int \<Rightarrow> ConversionEntry" where
  "new_conversion x instanceIP p sport dport =
     \<lparr>srcip = GetSrcIP p, dstip = (if GetProtocolVersion p = 4 then Nsip x else Nsipv6 x),
      dstServiceIp = GetDestIP p, srcInstanceIp = instanceIP, srcport = sport, dstport = dport\<rparr>"

text \<open>The conversion in the cache that a packet of this flow would find.\<close>

definition same_flow :: "NetworkLayerPacket \<Rightarrow> ip \<Rightarrow> ConversionEntry \<Rightarrow> bool" where
  "same_flow p instanceIP f \<longleftrightarrow> IP_Equal (dstServiceIp f) (GetDestIP p) \<and> IP_Equal (srcip f) (GetSrcIP p) \<and>
     IP_Equal (srcInstanceIp f) instanceIP"

definition cached :: "NetworkLayerPacket \<Rightarrow> ip \<Rightarrow> TableEntry list \<Rightarrow> ConversionEntry \<Rightarrow> bool" where
  "cached p instanceIP es f \<longleftrightarrow> same_flow p instanceIP f \<and> (\<exists>x \<in> set es. nsip_matches (dstip f) x)"

lemma choose_conversion_spec:
  assumes "cache_ok c" "port_ok sport" "1 \<le> dport" "intn (length es) < length es"
  obtains (cached) f c' where "flow c sport dport = Some f" "cached p inst es f"
      "choose_conversion intn now now' es inst p sport dport c = Some (f, c')" "cache_ok c'"
      "\<And>q d. port_ok q \<Longrightarrow> 1 \<le> d \<Longrightarrow> flow c' q d = flow c q d"
  | (new) x c' where "\<not> (\<exists>f. flow c sport dport = Some f \<and> cached p inst es f)"
      "x = es ! intn (length es)" "x \<in> set es"
      "choose_conversion intn now now' es inst p sport dport c = Some (new_conversion x inst p sport dport, c')"
      "cache_ok c'" "flow c' sport dport = Some (new_conversion x inst p sport dport)"
      "\<And>q d. port_ok q \<Longrightarrow> 1 \<le> d \<Longrightarrow> q \<noteq> sport \<Longrightarrow> flow c' q d = flow c q d"
proof -
  let ?test = "\<lambda>f. IP_Equal (dstServiceIp f) (GetDestIP p) \<and> IP_Equal (srcip f) (GetSrcIP p) \<and>
    IP_Equal (srcInstanceIp f) inst"
  let ?found = "case flow c sport dport of None \<Rightarrow> None | Some f \<Rightarrow> if ?test f then Some f else None"
  from fc.find_law [OF assms(1-3), of now ?test] obtain c1 where
    c1: "RetrieveByServiceIP now (GetSrcIP p) inst sport (GetDestIP p) dport c = Some (?found, c1)" "cache_ok c1"
    "\<And>q d. port_ok q \<Longrightarrow> 1 \<le> d \<Longrightarrow> flow c1 q d = flow c q d"
    unfolding RetrieveByServiceIP_find by blast
  show ?thesis
  proof (cases "must_choose ?found es")
    case False
    then obtain f where f: "flow c sport dport = Some f" "?found = Some f" "?test f"
      "IsNamespaceStillValid (dstip f) es"
      by (auto simp: must_choose_def split: option.splits if_splits)
    then have "cached p inst es f" by (simp add: cached_def same_flow_def IsNamespaceStillValid_iff)
    with f c1 False cached [of f c1] show ?thesis by (simp add: choose_conversion_def)
  next
    case True
    have no: "\<not> (\<exists>f. flow c sport dport = Some f \<and> cached p inst es f)"
    proof
      assume "\<exists>f. flow c sport dport = Some f \<and> cached p inst es f"
      then obtain f where f: "flow c sport dport = Some f" "cached p inst es f" by blast
      have "dstport f = dport" by (rule flow_ports [OF assms(1-3) f(1)])
      with f True assms(3) show False
        by (simp add: must_choose_def cached_def same_flow_def IsNamespaceStillValid_iff)
    qed
    let ?x = "es ! intn (length es)"
    let ?f = "new_conversion ?x inst p sport dport"
    have ports: "port_ok (srcport ?f)" "1 \<le> dstport ?f" using assms by (simp_all add: new_conversion_def)
    from fc.add_law [OF c1(2) ports, of now'] obtain c2 where
      c2: "ProxyCache_Add now' ?f c1 = Some c2" "cache_ok c2" "flow c2 (srcport ?f) (dstport ?f) = Some ?f"
      "\<forall>q d. port_ok q \<longrightarrow> 1 \<le> d \<longrightarrow> q \<noteq> srcport ?f \<longrightarrow> flow c2 q d = flow c1 q d" by blast
    have chosen: "choose_conversion intn now now' es inst p sport dport c = Some (?f, c2)"
      using c1(1) True assms(4) c2(1) by (simp add: choose_conversion_def new_conversion_def Let_def)
    show ?thesis
      using no refl _ chosen
    proof (rule new)
      show "?x \<in> set es" using assms(4) by simp
    qed (use c2 c1(3) in \<open>simp_all add: new_conversion_def\<close>)
  qed
qed

section \<open>Outgoing packets\<close>

lemma outgoing_chosen:
  assumes "semanticRoutingSubnetwork proxy p"
    and "em_GetTableEntryByServiceIP em (GetDestIP p) (environment proxy) = Some (es, e)" and "es \<noteq> []"
    and "convertToInstanceIp em p e = Inr inst"
    and "choose_conversion intn now now' es inst p (uint (GetSourcePort t)) (uint (GetDestPort t))
      (proxycache proxy) = Some (f, c)"
  shows "outgoingProxy em lib intn now now' p (Some t) proxy =
    Some ((serializeIPHeader lib (set_addresses (dstip f) (srcInstanceIp f) p) t (transport_payload t),
      set_addresses (dstip f) (srcInstanceIp f) p), proxy\<lparr>environment := e, proxycache := c\<rparr>)"
  using assms by (simp add: outgoingProxy_def src_port_def dst_port_def SerializePacket_Some Suc_le_eq)

lemma port_ok_uint [simp]: "port_ok (uint (w :: 16 word))"
  using uint_range_size [of w] by (simp add: port_ok_def word_size)

lemma port_positive: "w \<noteq> 0 \<Longrightarrow> 1 \<le> uint (w :: 16 word)"
proof -
  assume "w \<noteq> 0"
  then have "uint w \<noteq> 0" by (simp add: uint_0_iff)
  moreover have "0 \<le> uint w" by simp
  ultimately show "1 \<le> uint w" by linarith
qed

text \<open>A translated packet, whichever way its conversion was found.\<close>

lemma outgoing_spec:
  assumes "semanticRoutingSubnetwork proxy p"
    and "em_GetTableEntryByServiceIP em (GetDestIP p) (environment proxy) = Some (es, e)" and "es \<noteq> []"
    and "convertToInstanceIp em p e = Inr inst"
    and "cache_ok (proxycache proxy)" and "GetDestPort t \<noteq> 0" and "intn (length es) < length es"
  shows "\<exists>f c. outgoingProxy em lib intn now now' p (Some t) proxy =
      Some ((serializeIPHeader lib (set_addresses (dstip f) (srcInstanceIp f) p) t (transport_payload t),
        set_addresses (dstip f) (srcInstanceIp f) p), proxy\<lparr>environment := e, proxycache := c\<rparr>) \<and>
    cache_ok c \<and> (\<exists>x \<in> set es. nsip_matches (dstip f) x) \<and> same_flow p inst f \<and>
    flow c (uint (GetSourcePort t)) (uint (GetDestPort t)) = Some f \<and>
    (if \<exists>g. flow (proxycache proxy) (uint (GetSourcePort t)) (uint (GetDestPort t)) = Some g \<and> cached p inst es g
     then flow (proxycache proxy) (uint (GetSourcePort t)) (uint (GetDestPort t)) = Some f
     else dstip f = (if GetProtocolVersion p = 4 then Nsip (es ! intn (length es)) else Nsipv6 (es ! intn (length es))))"
proof -
  have d: "1 \<le> uint (GetDestPort t)" using assms(6) by (rule port_positive)
  show ?thesis
    using assms(5) port_ok_uint [of "GetSourcePort t"] d assms(7)
  proof (cases rule: choose_conversion_spec [where intn = intn and p = p and inst = inst and now = now and now' = now'])
    case (cached f c')
    from outgoing_chosen [OF assms(1-4) cached(3), of lib] cached d show ?thesis
      by (intro exI [of _ f] exI [of _ c']) (auto simp: cached_def)
  next
    case (new x c')
    have "nsip_matches (dstip (new_conversion x inst p (uint (GetSourcePort t)) (uint (GetDestPort t)))) x"
      by (simp add: nsip_matches_def new_conversion_def)
    moreover have "same_flow p inst (new_conversion x inst p (uint (GetSourcePort t)) (uint (GetDestPort t)))"
      by (simp add: same_flow_def new_conversion_def)
    moreover note outgoing_chosen [OF assms(1-4) new(4), of lib]
    ultimately show ?thesis using new d
      by (intro exI [of _ "new_conversion x inst p (uint (GetSourcePort t)) (uint (GetDestPort t))"] exI [of _ c'])
        (auto simp: new_conversion_def)
  qed
qed

text \<open>What a packet needs to be translated.\<close>

definition translatable ::
  "'e EnvironmentManager \<Rightarrow> NetworkLayerPacket \<Rightarrow> TransportLayerProtocol \<Rightarrow> ('e, 'u, 'd) GoProxyTunnel \<Rightarrow>
    TableEntry list \<Rightarrow> 'e \<Rightarrow> ip \<Rightarrow> bool" where
  "translatable em p t proxy es e inst \<longleftrightarrow>
     semanticRoutingSubnetwork proxy p \<and>
     em_GetTableEntryByServiceIP em (GetDestIP p) (environment proxy) = Some (es, e) \<and> es \<noteq> [] \<and>
     convertToInstanceIp em p e = Inr inst \<and> cache_ok (proxycache proxy) \<and> GetDestPort t \<noteq> 0"

text \<open>
  C3: A packet to a service address is sent to an instance of the service. When the address is in
  the service subnetwork, is known to some entries and the sender has an entry, the packet goes to
  the namespace address of one of these entries, its source becomes the instance address of the
  sender, and the flow is in the cache: the conversion it already had while that instance is among
  the entries, and otherwise a new one for the entry that the random choice picks.
\<close>

theorem outgoing_translation:
  assumes "translatable em p t proxy es e inst" and "intn (length es) < length es"
  shows "\<exists>f c. outgoingProxy em lib intn now now' p (Some t) proxy =
      Some ((serializeIPHeader lib (set_addresses (dstip f) (srcInstanceIp f) p) t (transport_payload t),
        set_addresses (dstip f) (srcInstanceIp f) p), proxy\<lparr>environment := e, proxycache := c\<rparr>) \<and>
    cache_ok c \<and> (\<exists>x \<in> set es. nsip_matches (dstip f) x) \<and> same_flow p inst f \<and>
    flow c (uint (GetSourcePort t)) (uint (GetDestPort t)) = Some f \<and>
    (if \<exists>g. flow (proxycache proxy) (uint (GetSourcePort t)) (uint (GetDestPort t)) = Some g \<and> cached p inst es g
     then flow (proxycache proxy) (uint (GetSourcePort t)) (uint (GetDestPort t)) = Some f
     else dstip f = (if GetProtocolVersion p = 4 then Nsip (es ! intn (length es)) else Nsipv6 (es ! intn (length es))))"
  using assms unfolding translatable_def by (intro outgoing_spec) blast+

lemma outgoing_not_semantic:
  "\<not> semanticRoutingSubnetwork proxy p \<Longrightarrow> outgoingProxy em lib intn now now' p prot proxy = Some ((None, p), proxy)"
  by (simp add: outgoingProxy_def)

text \<open>
  A packet that the proxy does not translate is dropped and leaves no trace in the cache: its
  destination is outside the service subnetworks, or no entry has the service address, or the
  sender has no entry.
\<close>

theorem outgoing_drops:
  assumes "\<not> semanticRoutingSubnetwork proxy p \<or>
    (\<exists>e. em_GetTableEntryByServiceIP em (GetDestIP p) (environment proxy) = Some ([], e)) \<or>
    (\<exists>es e. em_GetTableEntryByServiceIP em (GetDestIP p) (environment proxy) = Some (es, e) \<and>
      em_GetTableEntryByNsIP em (GetSrcIP p) e = None)"
  shows "\<exists>proxy'. outgoingProxy em lib intn now now' p prot proxy = Some ((None, p), proxy') \<and>
    proxycache proxy' = proxycache proxy"
  using assms by (auto simp: outgoingProxy_def convertToInstanceIp_def Let_def)

section \<open>Ingoing packets\<close>

lemma ingoing_spec:
  assumes "cache_ok (proxycache proxy)" and "GetSourcePort u \<noteq> 0"
  shows "\<exists>c. cache_ok c \<and> (\<forall>q d. port_ok q \<longrightarrow> 1 \<le> d \<longrightarrow> flow c q d = flow (proxycache proxy) q d) \<and>
    ingoingProxy lib now q (Some u) proxy = Some
      (case flow (proxycache proxy) (uint (GetDestPort u)) (uint (GetSourcePort u)) of
         None \<Rightarrow> ((None, q), proxy\<lparr>proxycache := c\<rparr>)
       | Some f \<Rightarrow>
           if IP_Equal (srcip f) (GetDestIP q)
           then ((serializeIPHeader lib (set_addresses (srcip f) (dstServiceIp f) q) u (transport_payload u),
                  set_addresses (srcip f) (dstServiceIp f) q), proxy\<lparr>proxycache := c\<rparr>)
           else ((None, q), proxy\<lparr>proxycache := c\<rparr>))"
proof -
  let ?c = "proxycache proxy" and ?sp = "uint (GetDestPort u)" and ?dp = "uint (GetSourcePort u)"
  from fc.find_law [OF assms(1) port_ok_uint port_positive [OF assms(2)], of now "GetDestPort u"
      "\<lambda>f. IP_Equal (srcip f) (GetDestIP q)"] obtain c where
    "RetrieveByInstanceIp now (GetDestIP q) ?sp ?dp ?c =
      Some (case flow ?c ?sp ?dp of None \<Rightarrow> None | Some f \<Rightarrow> if IP_Equal (srcip f) (GetDestIP q) then Some f else None, c)"
    "cache_ok c" "\<forall>q d. port_ok q \<longrightarrow> 1 \<le> d \<longrightarrow> flow c q d = flow ?c q d"
    unfolding RetrieveByInstanceIp_find by blast
  then show ?thesis
    by (intro exI [of _ c])
      (auto simp: ingoingProxy_def src_port_def dst_port_def SerializePacket_Some split: option.splits)
qed

text \<open>The reply to a packet: back to its sender, with the ports exchanged.\<close>

definition reply_to :: "NetworkLayerPacket \<Rightarrow> TransportLayerProtocol \<Rightarrow> NetworkLayerPacket \<Rightarrow> TransportLayerProtocol \<Rightarrow> bool" where
  "reply_to p t q u \<longleftrightarrow> IP_Equal (GetDestIP q) (GetSrcIP p) \<and>
     GetDestPort u = GetSourcePort t \<and> GetSourcePort u = GetDestPort t"

lemma outgoing_translatable:
  assumes "translatable em p t proxy es e inst" and "intn (length es) < length es"
  obtains f c where "outgoingProxy em lib intn now now' p (Some t) proxy =
      Some ((serializeIPHeader lib (set_addresses (dstip f) (srcInstanceIp f) p) t (transport_payload t),
        set_addresses (dstip f) (srcInstanceIp f) p), proxy\<lparr>environment := e, proxycache := c\<rparr>)"
    "cache_ok c" "\<exists>x \<in> set es. nsip_matches (dstip f) x" "same_flow p inst f"
    "flow c (uint (GetSourcePort t)) (uint (GetDestPort t)) = Some f"
    "\<And>g. flow (proxycache proxy) (uint (GetSourcePort t)) (uint (GetDestPort t)) = Some g \<Longrightarrow>
      cached p inst es g \<Longrightarrow> f = g"
proof -
  from assms(1) have a: "semanticRoutingSubnetwork proxy p"
    "em_GetTableEntryByServiceIP em (GetDestIP p) (environment proxy) = Some (es, e)" "es \<noteq> []"
    "convertToInstanceIp em p e = Inr inst" "cache_ok (proxycache proxy)" "GetDestPort t \<noteq> 0"
    by (simp_all add: translatable_def)
  from outgoing_spec [where intn = intn, OF a assms(2), of lib now now'] show thesis
    by (elim exE conjE) (rule that, auto split: if_splits)
qed

text \<open>
  C4: A reply is translated back. After a packet to a service address was translated, any packet to
  its sender with the ports exchanged is rewritten, while the flow is in the cache, to go to the
  sender and to come from the service address, whichever instance address it carries as its source.
\<close>

theorem reply_translation:
  assumes "translatable em p t proxy es e inst" and "intn (length es) < length es"
    and "outgoingProxy em lib intn now now' p (Some t) proxy = Some (r, proxy1)"
    and "cache_ok (proxycache proxy2)"
    and "flow (proxycache proxy2) (uint (GetSourcePort t)) (uint (GetDestPort t)) =
      flow (proxycache proxy1) (uint (GetSourcePort t)) (uint (GetDestPort t))"
    and "reply_to p t q u"
  shows "\<exists>q' proxy3. ingoingProxy lib now'' q (Some u) proxy2 =
      Some ((serializeIPHeader lib q' u (transport_payload u), q'), proxy3) \<and>
    IP_Equal (GetDestIP q') (GetSrcIP p) \<and> IP_Equal (GetSrcIP q') (GetDestIP p)"
proof -
  from assms(1,2) obtain f c where
    o: "outgoingProxy em lib intn now now' p (Some t) proxy =
      Some ((serializeIPHeader lib (set_addresses (dstip f) (srcInstanceIp f) p) t (transport_payload t),
        set_addresses (dstip f) (srcInstanceIp f) p), proxy\<lparr>environment := e, proxycache := c\<rparr>)"
    "same_flow p inst f" "flow c (uint (GetSourcePort t)) (uint (GetDestPort t)) = Some f"
    by (rule outgoing_translatable)
  with assms(3,5,6) have f: "flow (proxycache proxy2) (uint (GetDestPort u)) (uint (GetSourcePort u)) = Some f"
    by (auto simp: reply_to_def)
  have "IP_Equal (srcip f) (GetSrcIP p)" "IP_Equal (dstServiceIp f) (GetDestIP p)"
    using o(2) by (simp_all add: same_flow_def)
  moreover have "IP_Equal (srcip f) (GetDestIP q)"
    using calculation(1) assms(6) IP_Equal_trans IP_Equal_sym by (metis reply_to_def)
  moreover have "GetSourcePort u \<noteq> 0" using assms(1,6) by (simp add: translatable_def reply_to_def)
  from ingoing_spec [OF assms(4) this, of lib now'' q] obtain c' where
    "ingoingProxy lib now'' q (Some u) proxy2 = Some
      (if IP_Equal (srcip f) (GetDestIP q)
       then ((serializeIPHeader lib (set_addresses (srcip f) (dstServiceIp f) q) u (transport_payload u),
              set_addresses (srcip f) (dstServiceIp f) q), proxy2\<lparr>proxycache := c'\<rparr>)
       else ((None, q), proxy2\<lparr>proxycache := c'\<rparr>))" by (auto simp: f)
  ultimately show ?thesis by auto
qed

text \<open>
  C9: A flow stays with its instance. While its conversion is in the cache and the instance it was
  sent to is still among the entries of the service, a later packet with the same addresses and
  ports goes to the same address, whatever the random choice would pick.
\<close>

theorem flow_affinity:
  assumes "translatable em p t proxy es e inst" and "intn (length es) < length es"
    and "outgoingProxy em lib intn now now' p (Some t) proxy = Some ((pkt, p'), proxy1)"
    and "translatable em q u proxy2 es' e' inst'" and "intn' (length es') < length es'"
    and "flow (proxycache proxy2) (uint (GetSourcePort t)) (uint (GetDestPort t)) =
      flow (proxycache proxy1) (uint (GetSourcePort t)) (uint (GetDestPort t))"
    and "IP_Equal (GetSrcIP q) (GetSrcIP p)" and "IP_Equal (GetDestIP q) (GetDestIP p)"
    and "GetSourcePort u = GetSourcePort t" and "GetDestPort u = GetDestPort t" and "IP_Equal inst' inst"
    and "\<exists>x \<in> set es'. nsip_matches (GetDestIP p') x"
  shows "\<exists>pkt2 q' proxy3. outgoingProxy em lib intn' nowa nowb q (Some u) proxy2 = Some ((pkt2, q'), proxy3) \<and>
    GetDestIP q' = GetDestIP p' \<and> GetSrcIP q' = GetSrcIP p'"
proof -
  from assms(1,2) obtain f c where
    o: "outgoingProxy em lib intn now now' p (Some t) proxy =
      Some ((serializeIPHeader lib (set_addresses (dstip f) (srcInstanceIp f) p) t (transport_payload t),
        set_addresses (dstip f) (srcInstanceIp f) p), proxy\<lparr>environment := e, proxycache := c\<rparr>)"
    "same_flow p inst f" "flow c (uint (GetSourcePort t)) (uint (GetDestPort t)) = Some f"
    by (rule outgoing_translatable)
  from o(1) assms(3) have p': "p' = set_addresses (dstip f) (srcInstanceIp f) p" "proxycache proxy1 = c" by simp_all
  have same: "same_flow q inst' f"
    using o(2) assms(7,8,11) unfolding same_flow_def by (meson IP_Equal_sym IP_Equal_trans)
  have "flow (proxycache proxy2) (uint (GetSourcePort u)) (uint (GetDestPort u)) = Some f"
    using o(3) assms(6,9,10) p' by simp
  moreover have "cached q inst' es' f" using same assms(12) p' by (simp add: cached_def)
  ultimately obtain c' where "outgoingProxy em lib intn' nowa nowb q (Some u) proxy2 =
      Some ((serializeIPHeader lib (set_addresses (dstip f) (srcInstanceIp f) q) u (transport_payload u),
        set_addresses (dstip f) (srcInstanceIp f) q), proxy2\<lparr>environment := e', proxycache := c'\<rparr>)"
    using outgoing_translatable [where intn = intn', OF assms(4,5), of lib nowa nowb] by metis
  with p' show ?thesis by simp
qed


section \<open>A concrete proxy\<close>

text \<open>A manager that knows one instance of every service and one sender.\<close>

definition sample_instance :: TableEntry where
  "sample_instance = \<lparr>JobName = ''a.a.b.b'', Appname = ''a'', Appns = ''a'', Servicename = ''b'',
     Servicenamespace = ''b'', Instancenumber = 0, Cluster = 0, Nodeip = IPv4 10 0 0 1, Nodeport = 50103,
     Nsip = IPv4 10 19 2 12, Nsipv6 = Some [0xfd, 0, 0, 0, 0, 0, 0, 0, 0, 0, 0, 0, 0, 0, 0, 0x12],
     ServiceIPs = [\<lparr>IpType = Closest, Address = IPv4 10 30 255 255, Address_v6 = None\<rparr>]\<rparr>"

definition sample_sender :: TableEntry where
  "sample_sender = \<lparr>JobName = ''a.a.c.b'', Appname = ''a'', Appns = ''a'', Servicename = ''c'',
     Servicenamespace = ''b'', Instancenumber = 0, Cluster = 0, Nodeip = IPv4 10 0 0 2, Nodeport = 50103,
     Nsip = IPv4 10 19 1 15, Nsipv6 = Some [0xfc, 0, 0, 0, 0, 0, 0, 0, 0, 0, 0, 0, 0, 0, 0, 1],
     ServiceIPs = [\<lparr>IpType = InstanceNumber, Address = IPv4 10 30 255 253, Address_v6 = None\<rparr>]\<rparr>"

definition sample_manager :: "unit EnvironmentManager" where
  "sample_manager = \<lparr>em_GetTableEntryByServiceIP = (\<lambda>a e. Some ([sample_instance], e)),
     em_GetTableEntryByNsIP = (\<lambda>a e. Some sample_sender), em_GetTableEntryByInstanceIP = (\<lambda>a e. None)\<rparr>"

definition sample_proxy :: "(unit, unit, unit) GoProxyTunnel" where
  "sample_proxy = \<lparr>environment = (), incomingChannel = [], connectionBuffer = [], outgoingChannel = [],
     HostTUNDeviceName = ''goProxyTun'', tunNetIPv6 = ''fdfe::1337'', tunNetIP = ''10.19.1.254'',
     tun_mtusize = ''1450'', ProxyIpSubnetwork = \<lparr>net_IP = IPv4 10 30 0 0, net_Mask = [255, 255, 0, 0]\<rparr>,
     ProxyIPv6Subnetwork = \<lparr>net_IP = None, net_Mask = []\<rparr>, localIP = IPv4 10 0 0 2,
     proxycache = NewProxyCache, TunnelPort = 50103, isListening = True, defragger = (), io_state = ()\<rparr>"

definition sample_packet :: "byte \<Rightarrow> NetworkLayerPacket" where
  "sample_packet host = IPv4Packet (sample_header\<lparr>hdr_SrcIP := IPv4 10 19 1 host\<rparr>)"

lemma sample_translatable_again:
  "cache_ok c \<Longrightarrow> translatable sample_manager (sample_packet host) sample_tcp (sample_proxy\<lparr>proxycache := c\<rparr>)
    [sample_instance] () (IPv4 10 30 255 253)"
  by (simp add: translatable_def semanticRoutingSubnetwork_def sample_packet_def GetProtocolVersion_def
      sample_header_def sample_proxy_def in_subnetwork_def IP_Mask_def GetDestIP_def IPv4_def v4InV6Prefix_def
      ip_bytes_def sample_manager_def convertToInstanceIp_def sample_sender_def sample_tcp_def Let_def)

lemma sample_translatable:
  "translatable sample_manager (sample_packet host) sample_tcp sample_proxy [sample_instance] () (IPv4 10 30 255 253)"
proof -
  have "sample_proxy\<lparr>proxycache := NewProxyCache\<rparr> = sample_proxy" by (simp add: sample_proxy_def)
  with sample_translatable_again [OF cache_ok_New, of host] show ?thesis by simp
qed

definition sample_intn :: "nat \<Rightarrow> nat" where
  "sample_intn n = 0"

definition sample_reply :: NetworkLayerPacket where
  "sample_reply = IPv4Packet (sample_header\<lparr>hdr_SrcIP := IPv4 10 30 0 9, hdr_DstIP := IPv4 10 19 1 15\<rparr>)"

definition sample_reply_tcp :: TransportLayerProtocol where
  "sample_reply_tcp = TCPLayer \<lparr>l4_SrcPort = 666, l4_DstPort = 777, l4_Payload = [], l4_Other = []\<rparr>"

lemma sample_reply_to: "reply_to (sample_packet 15) sample_tcp sample_reply sample_reply_tcp"
  by (simp add: reply_to_def sample_packet_def sample_reply_def sample_tcp_def sample_reply_tcp_def
      GetDestIP_def GetSrcIP_def)

lemma sample_intn_less: "sample_intn (length [x]) < length [x]"
  by (simp add: sample_intn_def)

text \<open>The first packet of a flow and the state after it.\<close>

lemma sample_outgoing:
  obtains pkt p' c where
    "outgoingProxy sample_manager sample_lib sample_intn 5 5 (sample_packet host) (Some sample_tcp) sample_proxy =
      Some ((pkt, p'), sample_proxy\<lparr>proxycache := c\<rparr>)"
    "cache_ok c" "nsip_matches (GetDestIP p') sample_instance"
proof -
  have less: "sample_intn (length [sample_instance]) < length [sample_instance]" by (rule sample_intn_less)
  obtain f :: ConversionEntry and c where o:
    "outgoingProxy sample_manager sample_lib sample_intn 5 5 (sample_packet host) (Some sample_tcp) sample_proxy =
      Some ((serializeIPHeader sample_lib (set_addresses (dstip f) (srcInstanceIp f) (sample_packet host)) sample_tcp
        (transport_payload sample_tcp), set_addresses (dstip f) (srcInstanceIp f) (sample_packet host)),
        sample_proxy\<lparr>environment := (), proxycache := c\<rparr>)"
    "cache_ok c" "\<exists>x \<in> set [sample_instance]. nsip_matches (dstip f) x"
    by (rule outgoing_translatable [where intn = sample_intn and lib = sample_lib and now = 5 and now' = 5,
      OF sample_translatable [of host] less])
  have same: "sample_proxy\<lparr>environment := (), proxycache := c\<rparr> = sample_proxy\<lparr>proxycache := c\<rparr>"
    by (simp add: sample_proxy_def)
  have "nsip_matches (GetDestIP (set_addresses (dstip f) (srcInstanceIp f) (sample_packet host))) sample_instance"
    using o(3) by simp
  with o(1) [unfolded same] o(2) show thesis by (rule that)
qed

theorem outgoing_translation_witness:
  "\<exists>(f :: ConversionEntry) c. outgoingProxy sample_manager sample_lib sample_intn 5 5 (sample_packet 15) (Some sample_tcp) sample_proxy =
      Some ((serializeIPHeader sample_lib (set_addresses (dstip f) (srcInstanceIp f) (sample_packet 15)) sample_tcp
        (transport_payload sample_tcp),
        set_addresses (dstip f) (srcInstanceIp f) (sample_packet 15)), sample_proxy\<lparr>environment := (), proxycache := c\<rparr>) \<and>
    (\<exists>x \<in> set [sample_instance]. nsip_matches (dstip f) x)"
  using outgoing_translation [where intn = sample_intn and lib = sample_lib and now = 5 and now' = 5,
      OF sample_translatable [of 15] sample_intn_less]
  by (elim exE conjE) (intro exI conjI, assumption+)

theorem outgoing_drops_witness:
  "\<exists>proxy'. outgoingProxy sample_manager sample_lib sample_intn 5 5 sample_reply (Some sample_reply_tcp) sample_proxy =
      Some ((None, sample_reply), proxy') \<and> proxycache proxy' = NewProxyCache"
proof -
  have "\<not> semanticRoutingSubnetwork sample_proxy sample_reply"
    by (simp add: semanticRoutingSubnetwork_def sample_reply_def GetProtocolVersion_def sample_header_def
        sample_proxy_def in_subnetwork_def IP_Mask_def GetDestIP_def IPv4_def v4InV6Prefix_def ip_bytes_def
        IP_Equal_def Let_def)
  then have "\<exists>proxy'. outgoingProxy sample_manager sample_lib sample_intn 5 5 sample_reply (Some sample_reply_tcp) sample_proxy =
      Some ((None, sample_reply), proxy') \<and> proxycache proxy' = proxycache sample_proxy"
    by (intro outgoing_drops disjI1)
  then show ?thesis by (simp add: sample_proxy_def)
qed

theorem reply_translation_witness:
  "\<exists>r proxy1 q' proxy3. outgoingProxy sample_manager sample_lib sample_intn 5 5 (sample_packet 15) (Some sample_tcp)
      sample_proxy = Some (r, proxy1) \<and>
    ingoingProxy sample_lib 6 sample_reply (Some sample_reply_tcp) proxy1 =
      Some ((serializeIPHeader sample_lib q' sample_reply_tcp [], q'), proxy3) \<and>
    IP_Equal (GetDestIP q') (IPv4 10 19 1 15) \<and> IP_Equal (GetSrcIP q') (IPv4 10 30 255 255)"
proof -
  obtain pkt p' c where o: "outgoingProxy sample_manager sample_lib sample_intn 5 5 (sample_packet 15) (Some sample_tcp)
      sample_proxy = Some ((pkt, p'), sample_proxy\<lparr>proxycache := c\<rparr>)" "cache_ok c" by (rule sample_outgoing)
  have c: "cache_ok (proxycache (sample_proxy\<lparr>proxycache := c\<rparr>))" using o(2) by simp
  have "transport_payload sample_reply_tcp = []" "GetSrcIP (sample_packet 15) = IPv4 10 19 1 15"
    "GetDestIP (sample_packet 15) = IPv4 10 30 255 255"
    by (simp_all add: transport_payload_def sample_reply_tcp_def sample_packet_def GetSrcIP_def GetDestIP_def
        sample_header_def)
  with reply_translation [where intn = sample_intn and now'' = 6, OF sample_translatable sample_intn_less o(1) c refl sample_reply_to] o(1)
  show ?thesis by auto
qed

theorem flow_affinity_witness:
  "\<exists>pkt p' proxy1 pkt2 q' proxy3.
    outgoingProxy sample_manager sample_lib sample_intn 5 5 (sample_packet 15) (Some sample_tcp) sample_proxy =
      Some ((pkt, p'), proxy1) \<and>
    outgoingProxy sample_manager sample_lib sample_intn 9 9 (sample_packet 15) (Some sample_tcp) proxy1 =
      Some ((pkt2, q'), proxy3) \<and> GetDestIP q' = GetDestIP p' \<and> GetSrcIP q' = GetSrcIP p'"
proof -
  obtain pkt p' c where o: "outgoingProxy sample_manager sample_lib sample_intn 5 5 (sample_packet 15) (Some sample_tcp)
      sample_proxy = Some ((pkt, p'), sample_proxy\<lparr>proxycache := c\<rparr>)" "cache_ok c"
      "nsip_matches (GetDestIP p') sample_instance" by (rule sample_outgoing)
  have m: "\<exists>x \<in> set [sample_instance]. nsip_matches (GetDestIP p') x" using o(3) by simp
  from flow_affinity [where intn = sample_intn and intn' = sample_intn and nowa = 9 and nowb = 9, OF sample_translatable sample_intn_less o(1)
      sample_translatable_again [OF o(2)] sample_intn_less refl IP_Equal_refl IP_Equal_refl refl refl IP_Equal_refl m] o(1)
  show ?thesis by blast
qed


end
