(* ===== verification/ProxyListen.thy ===== *)
theory ProxyListen
  imports ProxyTunnel
begin

text \<open>
  The goroutines that feed one packet channel of the proxy: a reader (\<open>ifaceread\<close>, \<open>udpread\<close>) and the
  listener that takes its errors and the stop message (\<open>tunOutgoingListen\<close>, \<open>tunIngoingListen\<close>). Only
  the packet channel has a buffer; the sender on any other channel waits for its receiver. The
  handlers of the packets are in \<open>ProxyTunnel\<close>.
\<close>

section \<open>Goroutines\<close>

datatype reader =
    Reading
  | SendingError error
  | SendingPacket "byte list"

datatype listener =
    Selecting
  | Reporting error
  | Finishing
  | Returned

record listening =
  the_reader :: reader
  the_listener :: listener
  packets :: "byte list list"
  listening_flag :: bool

text \<open>The state when a listener has started its reader and enters its loop.\<close>

definition start_listening :: listening where
  "start_listening = \<lparr>the_reader = Reading, the_listener = Selecting, packets = [], listening_flag = True\<rparr>"

text \<open>
  What happens next. The last three concern the outside of the proxy: a receiver on the error
  channel, a sender on the stop channel, a receiver on the finish channel.
\<close>

datatype listen_event =
    ReadPacket "byte list"
  | ReadError error
  | QueuePacket
  | HandlePacket
  | HandOverError
  | ErrorReceived
  | StopSent bool
  | FinishReceived

definition reader_step :: "listen_event \<Rightarrow> listening \<Rightarrow> listening option" where
  "reader_step ev s =
     (case (the_reader s, ev) of
        (Reading, ReadPacket b) \<Rightarrow> Some (s\<lparr>the_reader := SendingPacket b\<rparr>)
      | (Reading, ReadError e) \<Rightarrow> Some (s\<lparr>the_reader := SendingError e\<rparr>)
      | (SendingPacket b, QueuePacket) \<Rightarrow>
          (if length (packets s) < channel_size
           then Some (s\<lparr>the_reader := Reading, packets := packets s @ [b]\<rparr>) else None)
      | (SendingError e, HandOverError) \<Rightarrow>
          (if the_listener s = Selecting
           then Some (s\<lparr>the_reader := Reading, the_listener := Reporting e\<rparr>) else None)
      | _ \<Rightarrow> None)"

text \<open>A stop message \<open>false\<close> is taken and ignored.\<close>

definition listener_step :: "listen_event \<Rightarrow> listening \<Rightarrow> listening option" where
  "listener_step ev s =
     (case (the_listener s, ev) of
        (Selecting, StopSent stopmsg) \<Rightarrow>
          Some (if stopmsg then s\<lparr>the_listener := Finishing, listening_flag := False\<rparr> else s)
      | (Reporting e, ErrorReceived) \<Rightarrow> Some (s\<lparr>the_listener := Selecting\<rparr>)
      | (Finishing, FinishReceived) \<Rightarrow> Some (s\<lparr>the_listener := Returned\<rparr>)
      | _ \<Rightarrow> None)"

definition listen_step :: "listen_event \<Rightarrow> listening \<Rightarrow> listening option" where
  "listen_step ev s =
     (case ev of
        HandlePacket \<Rightarrow> (case packets s of [] \<Rightarrow> None | b # rest \<Rightarrow> Some (s\<lparr>packets := rest\<rparr>))
      | ErrorReceived \<Rightarrow> listener_step ev s
      | StopSent stopmsg \<Rightarrow> listener_step ev s
      | FinishReceived \<Rightarrow> listener_step ev s
      | _ \<Rightarrow> reader_step ev s)"

fun listen_run :: "listen_event list \<Rightarrow> listening \<Rightarrow> listening option" where
  "listen_run [] s = Some s"
| "listen_run (ev # evs) s = do { s \<leftarrow> listen_step ev s; listen_run evs s }"

section \<open>Errors nobody receives\<close>

fun is_error :: "listen_event \<Rightarrow> bool" where
  "is_error (ReadError e) = True"
| "is_error _ = False"

fun is_read :: "listen_event \<Rightarrow> bool" where
  "is_read (ReadError e) = True"
| "is_read (ReadPacket b) = True"
| "is_read _ = False"

text \<open>How many errors the two goroutines hold, and can hold when nobody receives them.\<close>

definition reader_errors :: "reader \<Rightarrow> nat" where
  "reader_errors r = (case r of SendingError e \<Rightarrow> 1 | _ \<Rightarrow> 0)"

definition listener_errors :: "listener \<Rightarrow> nat" where
  "listener_errors l = (case l of Reporting e \<Rightarrow> 1 | _ \<Rightarrow> 0)"

definition held_errors :: "listening \<Rightarrow> nat" where
  "held_errors s = reader_errors (the_reader s) + listener_errors (the_listener s)"

lemma held_le: "held_errors s \<le> 2"
  by (cases "the_reader s"; cases "the_listener s") (simp_all add: held_errors_def reader_errors_def listener_errors_def)

lemma listen_step_held:
  "listen_step ev s = Some s' \<Longrightarrow> ev \<noteq> ErrorReceived \<Longrightarrow>
    held_errors s' = held_errors s + (if is_error ev then 1 else 0)"
  by (cases ev; cases "the_reader s"; cases "the_listener s")
    (auto simp: listen_step_def reader_step_def listener_step_def held_errors_def reader_errors_def listener_errors_def
      split: list.splits if_splits)

lemma listen_run_held:
  "listen_run evs s = Some s' \<Longrightarrow> ErrorReceived \<notin> set evs \<Longrightarrow>
    held_errors s' = held_errors s + length (filter is_error evs)"
proof (induction evs arbitrary: s)
  case Nil
  then show ?case by simp
next
  case (Cons ev evs)
  from Cons.prems obtain s1 where s1: "listen_step ev s = Some s1" "listen_run evs s1 = Some s'"
    by (auto simp: bind_eq_Some_conv)
  with Cons.IH [OF s1(2)] listen_step_held [OF s1(1)] Cons.prems(2) show ?case by auto
qed

lemma full_no_read: "held_errors s = 2 \<Longrightarrow> listen_step ev s = Some s' \<Longrightarrow> \<not> is_read ev"
  by (cases ev; cases "the_reader s"; cases "the_listener s")
    (auto simp: listen_step_def reader_step_def held_errors_def reader_errors_def listener_errors_def)

lemma full_run_no_read:
  "held_errors s = 2 \<Longrightarrow> listen_run evs s = Some s' \<Longrightarrow> ErrorReceived \<notin> set evs \<Longrightarrow> filter is_read evs = []"
proof (induction evs arbitrary: s)
  case Nil
  then show ?case by simp
next
  case (Cons ev evs)
  from Cons.prems(2) obtain s1 where s1: "listen_step ev s = Some s1" "listen_run evs s1 = Some s'"
    by (auto simp: bind_eq_Some_conv)
  have ev: "\<not> is_read ev" using full_no_read [OF Cons.prems(1) s1(1)] .
  have "held_errors s1 = 2" using listen_step_held [OF s1(1)] Cons.prems(1,3) held_le [of s1] by (auto split: if_splits)
  with Cons.IH [OF _ s1(2)] ev Cons.prems(3) show ?case by simp
qed

lemma listen_run_append: "listen_run (xs @ ys) s = do { s \<leftarrow> listen_run xs s; listen_run ys s }"
  by (induction xs arbitrary: s) (simp_all split: bind_splits)

text \<open>
  C35: No code of the node receives from the error channel of the proxy, and then two failed reads stop
  a reader for good: after the second, in every further run, it neither reads a packet nor an error,
  so that the channel gets no more packets. There is no third error.
\<close>

theorem two_errors_stop_reader:
  assumes "listen_run (before @ after) start_listening = Some s" and "ErrorReceived \<notin> set (before @ after)"
  shows "length (filter is_error (before @ after)) \<le> 2 \<and>
    (length (filter is_error before) = 2 \<longrightarrow> filter is_read after = [])"
proof -
  have zero: "held_errors start_listening = 0"
    by (simp add: start_listening_def held_errors_def reader_errors_def listener_errors_def)
  from listen_run_held [OF assms] held_le [of s] have 1: "length (filter is_error (before @ after)) \<le> 2"
    unfolding zero by simp
  from assms(1) obtain s1 where s1: "listen_run before start_listening = Some s1" "listen_run after s1 = Some s"
    unfolding listen_run_append by (auto simp: bind_eq_Some_conv)
  from listen_run_held [OF s1(1)] assms(2) zero have "held_errors s1 = length (filter is_error before)" by simp
  with full_run_no_read [OF _ s1(2)] assms(2) 1 show ?thesis by auto
qed

theorem two_errors_stop_reader_witness:
  "\<exists>s. listen_run [ReadError ''a'', HandOverError, ReadPacket [0x45], QueuePacket, ReadError ''b'', HandlePacket]
      start_listening = Some s \<and>
    length (filter is_error [ReadError ''a'', HandOverError, ReadPacket [0x45], QueuePacket, ReadError ''b'', HandlePacket]) \<le> 2"
proof -
  let ?before = "[ReadError ''a'', HandOverError, ReadPacket [0x45], QueuePacket, ReadError ''b'']"
  obtain s where "listen_run (?before @ [HandlePacket]) start_listening = Some s"
    by (simp add: listen_step_def reader_step_def start_listening_def channel_size_def)
  with two_errors_stop_reader [OF this] show ?thesis by auto
qed

end
