(* ===== verification/ProxyDelivery.thy ===== *)
theory ProxyDelivery
  imports ProxyTranslation
begin

text \<open>
  The proxy as a running system: forwarding ends after eleven attempts, the handlers never panic on a
  message with content, whatever its content and whatever the responses of the environment, and the
  two packet channels stay within their capacity.
\<close>

section \<open>Forwarding ends\<close>

text \<open>A measure of the network state that counts the writes to UDP sockets.\<close>

definition counts_writes :: "'u netio \<Rightarrow> ('u \<Rightarrow> nat) \<Rightarrow> bool" where
  "counts_writes io writes \<longleftrightarrow>
     (\<forall>con b u. writes (snd (io_WriteMsgUDP io con b u)) = writes u + 1) \<and>
     (\<forall>h u. writes (snd (io_ResolveUDPAddr io h u)) = writes u) \<and>
     (\<forall>h u. writes (snd (io_DialUDP io h u)) = writes u) \<and>
     (\<forall>con n u. writes (snd (io_SetWriteBuffer io con n u)) = writes u) \<and>
     (\<forall>con u. writes (io_Close io con u) = writes u)"

definition writes_fail :: "'u netio \<Rightarrow> bool" where
  "writes_fail io \<longleftrightarrow> (\<forall>con b u. \<exists>err u'. io_WriteMsgUDP io con b u = (Some err, u'))"

definition dials_succeed :: "'u netio \<Rightarrow> bool" where
  "dials_succeed io \<longleftrightarrow> (\<forall>h u. \<exists>con u'. createUDPChannel io h u = (Inr con, u'))"

lemma counts_writesD:
  assumes "counts_writes io writes"
  shows "io_WriteMsgUDP io con b u = (r, u1) \<Longrightarrow> writes u1 = writes u + 1"
    "io_ResolveUDPAddr io h u = (r, u1) \<Longrightarrow> writes u1 = writes u"
    "io_DialUDP io h u = (q, u1) \<Longrightarrow> writes u1 = writes u"
    "io_SetWriteBuffer io con n u = (r, u1) \<Longrightarrow> writes u1 = writes u"
    "writes (io_Close io con u) = writes u"
  using assms unfolding counts_writes_def by (metis snd_conv)+

lemma createUDPChannel_writes:
  assumes "counts_writes io writes" "createUDPChannel io h u = (r, u1)" shows "writes u1 = writes u"
  using assms(2) counts_writesD(2-4) [OF assms(1)]
  by (auto simp: createUDPChannel_def split: prod.splits option.splits sum.splits)

lemma get_connection_writes:
  assumes "counts_writes io writes" "get_connection io h proxy = (r, proxy1)"
  shows "writes (io_state proxy1) = writes (io_state proxy)"
proof (cases "map_of (connectionBuffer proxy) h")
  case None
  obtain q u where c: "createUDPChannel io h (io_state proxy) = (q, u)"
    by (cases "createUDPChannel io h (io_state proxy)")
  note w = createUDPChannel_writes [OF assms(1) c]
  show ?thesis
  proof (cases q)
    case (Inl err)
    with None c w assms(2) show ?thesis by (auto simp: get_connection_def)
  next
    case (Inr con)
    with None c w assms(2) counts_writesD(4) [OF assms(1), of con BUFFER_SIZE u] show ?thesis
      by (cases "io_SetWriteBuffer io con BUFFER_SIZE u") (auto simp: get_connection_def buffer_connection_def Let_def)
  qed
qed (use assms in \<open>auto simp: get_connection_def\<close>)

lemma send_incoming_frame:
  "send_incoming m proxy = (r, proxy1) \<Longrightarrow> io_state proxy1 = io_state proxy \<and>
    environment proxy1 = environment proxy \<and> proxycache proxy1 = proxycache proxy \<and>
    defragger proxy1 = defragger proxy \<and> outgoingChannel proxy1 = outgoingChannel proxy \<and>
    (if length (incomingChannel proxy) < channel_size
     then r = None \<and> incomingChannel proxy1 = incomingChannel proxy @ [m]
     else r = Some m \<and> proxy1 = proxy)"
  by (auto simp: send_incoming_def split: if_splits)

text \<open>One attempt: it ends the recursion or closes the connection and tries the next.\<close>

lemma forward_cases:
  obtains (ended) "attempt > 10" "forward io lib h p pkt attempt proxy = (None, proxy)"
  | (own_node) "attempt \<le> 10" "IP_Equal h (localIP proxy)"
      "forward io lib h p pkt attempt proxy =
        send_incoming \<lparr>incoming_content = packetToByte lib pkt, from_IP = localIP proxy, from_Port = 0\<rparr> proxy"
  | (unreachable) proxy1 where "attempt \<le> 10" "\<not> IP_Equal h (localIP proxy)"
      "get_connection io (hoststring_of h p) proxy = (None, proxy1)"
      "forward io lib h p pkt attempt proxy = (None, proxy1)"
  | (sent) con proxy1 u where "attempt \<le> 10" "\<not> IP_Equal h (localIP proxy)"
      "get_connection io (hoststring_of h p) proxy = (Some con, proxy1)"
      "io_WriteMsgUDP io con (packetToByte lib pkt) (io_state proxy1) = (None, u)"
      "forward io lib h p pkt attempt proxy = (None, proxy1\<lparr>io_state := u\<rparr>)"
  | (lost) con proxy1 err u err' u' where "attempt \<le> 10" "\<not> IP_Equal h (localIP proxy)"
      "get_connection io (hoststring_of h p) proxy = (Some con, proxy1)"
      "io_WriteMsgUDP io con (packetToByte lib pkt) (io_state proxy1) = (Some err, u)"
      "createUDPChannel io (hoststring_of h p) (io_Close io con u) = (Inl err', u')"
      "forward io lib h p pkt attempt proxy = (None, proxy1\<lparr>io_state := u'\<rparr>)"
  | (retry) con proxy1 err u con' u' where "attempt \<le> 10" "\<not> IP_Equal h (localIP proxy)"
      "get_connection io (hoststring_of h p) proxy = (Some con, proxy1)"
      "io_WriteMsgUDP io con (packetToByte lib pkt) (io_state proxy1) = (Some err, u)"
      "createUDPChannel io (hoststring_of h p) (io_Close io con u) = (Inr con', u')"
      "forward io lib h p pkt attempt proxy =
        forward io lib h p pkt (attempt + 1) (buffer_connection (hoststring_of h p) con' u' proxy1)"
proof -
  note [simp] = forward.simps [of io lib h p pkt attempt proxy]
  consider "attempt > 10" | "attempt \<le> 10" "IP_Equal h (localIP proxy)"
    | "attempt \<le> 10" "\<not> IP_Equal h (localIP proxy)" by linarith
  then show thesis
  proof cases
    case 1
    then show thesis by (intro ended) simp_all
  next
    case 2
    then show thesis by (intro own_node) simp_all
  next
    case 3
    obtain r proxy1 where g: "get_connection io (hoststring_of h p) proxy = (r, proxy1)"
      by (cases "get_connection io (hoststring_of h p) proxy")
    show thesis
    proof (cases r)
      case None
      with 3 g show thesis by (intro unreachable) simp_all
    next
      case (Some con)
      obtain q u where w: "io_WriteMsgUDP io con (packetToByte lib pkt) (io_state proxy1) = (q, u)"
        by (cases "io_WriteMsgUDP io con (packetToByte lib pkt) (io_state proxy1)")
      show thesis
      proof (cases q)
        case None
        with 3 g Some w show thesis by (intro sent) simp_all
      next
        case err: (Some err)
        obtain c u' where c: "createUDPChannel io (hoststring_of h p) (io_Close io con u) = (c, u')"
          by (cases "createUDPChannel io (hoststring_of h p) (io_Close io con u)")
        show thesis
        proof (cases c)
          case (Inl err')
          with 3 g Some w err c show thesis by (intro lost) simp_all
        next
          case (Inr con')
          with 3 g Some w err c show thesis by (intro retry) simp_all
        qed
      qed
    qed
  qed
qed

lemma buffer_connection_state [simp]:
  "io_state (buffer_connection h con u proxy) = u"
  "localIP (buffer_connection h con u proxy) = localIP proxy"
  by (simp_all add: buffer_connection_def)

lemma get_connection_local: "get_connection io h proxy = (r, proxy1) \<Longrightarrow> localIP proxy1 = localIP proxy"
  by (auto simp: get_connection_def Let_def split: option.splits prod.splits sum.splits)

lemma forward_writes:
  assumes "counts_writes io writes"
  shows "writes (io_state (snd (forward io lib h p pkt attempt proxy))) \<le>
    writes (io_state proxy) + nat (11 - attempt)"
proof (induction "nat (11 - attempt)" arbitrary: attempt proxy rule: less_induct)
  case less
  note w = counts_writesD [OF assms]
  show ?case
  proof (cases rule: forward_cases [of attempt io lib h p pkt proxy])
    case own_node
    then show ?thesis
      by (cases "send_incoming \<lparr>incoming_content = packetToByte lib pkt, from_IP = localIP proxy, from_Port = 0\<rparr> proxy")
        (use send_incoming_frame in fastforce)
  next
    case (unreachable proxy1)
    with get_connection_writes [OF assms unreachable(3)] show ?thesis by simp
  next
    case (sent con proxy1 u)
    with get_connection_writes [OF assms sent(3)] w(1) [OF sent(4)] show ?thesis by simp
  next
    case (lost con proxy1 err u err' u')
    with get_connection_writes [OF assms lost(3)] w(1) [OF lost(4)] createUDPChannel_writes [OF assms lost(5)] w(5)
    show ?thesis by simp
  next
    case (retry con proxy1 err u con' u')
    let ?proxy2 = "buffer_connection (hoststring_of h p) con' u' proxy1"
    have "writes (io_state ?proxy2) = writes (io_state proxy) + 1"
      using get_connection_writes [OF assms retry(3)] w(1) [OF retry(4)] createUDPChannel_writes [OF assms retry(5)] w(5)
      by simp
    moreover have "writes (io_state (snd (forward io lib h p pkt (attempt + 1) ?proxy2))) \<le>
        writes (io_state ?proxy2) + nat (11 - (attempt + 1))"
      using retry(1) by (intro less) simp
    ultimately show ?thesis using retry(1,6) by simp
  qed simp
qed

lemma forward_exhausts:
  assumes "counts_writes io writes" "writes_fail io" "dials_succeed io"
  shows "\<not> IP_Equal h (localIP proxy) \<Longrightarrow>
    writes (io_state (snd (forward io lib h p pkt attempt proxy))) = writes (io_state proxy) + nat (11 - attempt)"
proof (induction "nat (11 - attempt)" arbitrary: attempt proxy rule: less_induct)
  case less
  note w = counts_writesD [OF assms(1)]
  show ?case
  proof (cases rule: forward_cases [of attempt io lib h p pkt proxy])
    case (unreachable proxy1)
    obtain con u where "createUDPChannel io (hoststring_of h p) (io_state proxy) = (Inr con, u)"
      using assms(3) unfolding dials_succeed_def by blast
    with unreachable(3) show ?thesis by (simp add: get_connection_def Let_def split: option.splits)
  next
    case (sent con proxy1 u)
    with assms(2) show ?thesis unfolding writes_fail_def by (metis Pair_inject option.distinct(1))
  next
    case (lost con proxy1 err u err' u')
    with assms(3) show ?thesis unfolding dials_succeed_def by (metis Inl_Inr_False Pair_inject)
  next
    case (retry con proxy1 err u con' u')
    let ?proxy2 = "buffer_connection (hoststring_of h p) con' u' proxy1"
    have "writes (io_state ?proxy2) = writes (io_state proxy) + 1"
      using get_connection_writes [OF assms(1) retry(3)] w(1) [OF retry(4)]
        createUDPChannel_writes [OF assms(1) retry(5)] w(5) by simp
    moreover have "writes (io_state (snd (forward io lib h p pkt (attempt + 1) ?proxy2))) =
        writes (io_state ?proxy2) + nat (11 - (attempt + 1))"
      using retry(1) less.prems get_connection_local [OF retry(3)] by (intro less.hyps) simp_all
    ultimately show ?thesis using retry(1,6) by simp
  qed (use less.prems in auto)
qed

text \<open>
  C19: Forwarding a packet ends: from its first attempt the recursion writes to the network at most
  eleven times, and exactly eleven times when every write fails, every new connection can be made
  and the packet is for another node.
\<close>

theorem forward_ends:
  assumes "counts_writes io writes"
  shows "writes (io_state (snd (forward io lib h p pkt 0 proxy))) \<le> writes (io_state proxy) + 11 \<and>
    (writes_fail io \<and> dials_succeed io \<and> \<not> IP_Equal h (localIP proxy) \<longrightarrow>
      writes (io_state (snd (forward io lib h p pkt 0 proxy))) = writes (io_state proxy) + 11)"
  using forward_writes [OF assms, of lib h p pkt 0 proxy]
    forward_exhausts [OF assms, of h proxy lib p pkt 0] by auto

text \<open>A network that counts the writes and refuses them all.\<close>

definition refusing_io :: "nat netio" where
  "refusing_io = \<lparr>io_ResolveUDPAddr = (\<lambda>h u. (None, u)), io_DialUDP = (\<lambda>h u. (Inr 1, u)),
     io_SetWriteBuffer = (\<lambda>con n u. (None, u)), io_WriteMsgUDP = (\<lambda>con b u. (Some ''refused'', u + 1)),
     io_Close = (\<lambda>con u. u), io_WriteTun = (\<lambda>b u. (None, u))\<rparr>"

definition counting_proxy :: "(unit, nat, unit) GoProxyTunnel" where
  "counting_proxy = \<lparr>environment = (), incomingChannel = [], connectionBuffer = [], outgoingChannel = [],
     HostTUNDeviceName = ''goProxyTun'', tunNetIPv6 = ''fdfe::1337'', tunNetIP = ''10.19.1.254'',
     tun_mtusize = ''1450'', ProxyIpSubnetwork = \<lparr>net_IP = IPv4 10 30 0 0, net_Mask = [255, 255, 0, 0]\<rparr>,
     ProxyIPv6Subnetwork = \<lparr>net_IP = None, net_Mask = []\<rparr>, localIP = IPv4 10 0 0 2,
     proxycache = NewProxyCache, TunnelPort = 50103, isListening = True, defragger = (), io_state = 0\<rparr>"

theorem forward_ends_witness:
  "io_state (snd (forward refusing_io sample_lib (IPv4 10 0 0 1) 50103 (LayerTypeIPv4, [0x45, 6]) 0 counting_proxy)) = 11"
proof -
  have c: "counts_writes refusing_io (\<lambda>u. u)" "writes_fail refusing_io" "dials_succeed refusing_io"
    by (simp_all add: counts_writes_def writes_fail_def dials_succeed_def createUDPChannel_def refusing_io_def)
  have "\<not> IP_Equal (IPv4 10 0 0 1) (localIP counting_proxy)" by (simp add: counting_proxy_def IPv4_Equal_iff)
  with forward_ends [OF c(1), of sample_lib "IPv4 10 0 0 1" 50103 "(LayerTypeIPv4, [0x45, 6])" counting_proxy] c
  show ?thesis by (simp add: counting_proxy_def)
qed

section \<open>A cache that never panics\<close>

text \<open>
  The shape of the cache alone, without what is stored in it: it is kept for every packet, also for
  destination port 0, which the map view of the cache leaves out.
\<close>

definition list_safe :: "ConversionList \<Rightarrow> bool" where
  "list_safe l \<longleftrightarrow> (case conversionList l of None \<Rightarrow> True
     | Some es \<Rightarrow> length es = 10 \<and> 0 \<le> nextEntry l \<and> nextEntry l < 10)"

definition cache_safe :: "ProxyCache \<Rightarrow> bool" where
  "cache_safe c \<longleftrightarrow> cache_len c = 65536 \<and> conversionListMaxSize c = 10 \<and>
     (\<forall>i < 65536. list_safe (cache_at c i))"

lemma cache_safe_New: "cache_safe NewProxyCache"
  by (simp add: cache_safe_def NewProxyCache_def list_safe_def zero_list_def)

lemma cache_safe_elem:
  assumes "cache_safe c" "port_ok p"
  shows "cache_elem c p = Some (cache_at c (nat p))" "list_safe (cache_at c (nat p))"
  using assms by (auto simp: cache_safe_def port_ok_def cache_elem_def)

lemma cache_safe_put: "cache_safe c \<Longrightarrow> list_safe l \<Longrightarrow> cache_safe (cache_put c p l)"
  by (simp add: cache_safe_def cache_put_def)

lemma retrieve_safe:
  assumes "cache_safe c" "port_ok p"
  shows "\<exists>r c'. retrieve now p test c = Some (r, c') \<and> cache_safe c'"
proof -
  note e = cache_safe_elem [OF assms]
  have "list_safe (cache_at c (nat p)\<lparr>lastUsed := now\<rparr>)" using e(2) by (simp add: list_safe_def split: option.splits)
  with e assms(1) cache_safe_put show ?thesis by (auto simp: retrieve_def split: option.splits)
qed

lemma Add_safe:
  assumes "cache_safe c" "port_ok (srcport f)"
  shows "\<exists>c'. ProxyCache_Add now f c = Some c' \<and> cache_safe c'"
proof -
  let ?p = "srcport f"
  note e = cache_safe_elem [OF assms]
  define l where "l = (if conversionList (cache_at c (nat ?p)) = None \<or> conversionList (cache_at c (nat ?p)) = Some []
    then cache_at c (nat ?p)\<lparr>nextEntry := 0, conversionList := Some (replicate 10 zero_entry)\<rparr>
    else cache_at c (nat ?p))"
  have "conversionList l \<noteq> None \<and> list_safe l"
    using e(2) by (auto simp: l_def list_safe_def split: option.splits)
  then obtain es where l: "conversionList l = Some es" "length es = 10" "0 \<le> nextEntry l" "nextEntry l < 10"
    by (auto simp: list_safe_def)
  then have "list_safe l" by (simp add: list_safe_def)
  with assms(1) have c1: "cache_safe (cache_put c ?p l)" by (rule cache_safe_put)
  have at: "cache_elem (cache_put c ?p l) ?p = Some l"
    using cache_safe_elem(1) [OF c1 assms(2)] by (simp add: cache_put_def)
  have max: "conversionListMaxSize (cache_put c ?p l) = 10" using c1 by (simp add: cache_safe_def)
  have add: "ProxyCache_Add now f c = addToConversionList now f (cache_put c ?p l)"
    using assms(1) e(1) by (simp add: ProxyCache_Add_def l_def cache_safe_def)
  show ?thesis
  proof (cases "first_index (\<lambda>x. dstport x = dstport f) es = -1")
    case True
    have "list_safe (l\<lparr>lastUsed := now, conversionList := Some (es[nat (nextEntry l) := f]), nextEntry := (nextEntry l + 1) mod 10\<rparr>)"
      using l by (simp add: list_safe_def)
    from cache_safe_put [OF c1 this, of ?p] True at max l add show ?thesis by (simp add: addToConversionList_def)
  next
    case False
    let ?pos = "nat (first_index (\<lambda>x. dstport x = dstport f) es)"
    have "list_safe (l\<lparr>lastUsed := now, conversionList := Some (es[?pos := f])\<rparr>)"
      using l by (simp add: list_safe_def)
    from cache_safe_put [OF c1 this, of ?p] False at l add show ?thesis by (simp add: addToConversionList_def)
  qed
qed

lemma evict_safe: "cache_safe c \<Longrightarrow> cache_safe (evictOldEntries now timeout c)"
  by (auto simp: cache_safe_def evictOldEntries_def evict_list_def list_safe_def)

section \<open>Handlers that never panic\<close>

text \<open>
  What the proxy relies on: a lookup of a service returns entries that passed the validation and have
  the address, whatever the state of the environment is, and so do the other users of it leave it.
\<close>

locale environment_manager =
  fixes em :: "'e EnvironmentManager"
    and ok :: "'e \<Rightarrow> bool"
    and rely :: "'e \<Rightarrow> 'e \<Rightarrow> bool"
  assumes lookup_service: "ok e \<Longrightarrow> \<exists>es e'. em_GetTableEntryByServiceIP em a e = Some (es, e') \<and> ok e' \<and>
      (\<forall>x \<in> set es. serves a x \<and> isValid x)"
    and lookup_ns: "em_GetTableEntryByNsIP em a e = Some x \<Longrightarrow> nsip_matches a x"
    and rely_ok: "ok e \<Longrightarrow> rely e e' \<Longrightarrow> ok e'"

definition fair_choice :: "(nat \<Rightarrow> nat) \<Rightarrow> bool" where
  "fair_choice intn \<longleftrightarrow> (\<forall>n > 0. intn n < n)"

definition proxy_ok :: "('e \<Rightarrow> bool) \<Rightarrow> ('e, 'u, 'd) GoProxyTunnel \<Rightarrow> bool" where
  "proxy_ok ok proxy \<longleftrightarrow> ok (environment proxy) \<and> cache_safe (proxycache proxy)"

lemma choose_conversion_safe:
  assumes "cache_safe c" "port_ok sport" "es \<noteq> []" "fair_choice intn"
  shows "\<exists>f c'. choose_conversion intn now now' es inst p sport dport c = Some (f, c') \<and> cache_safe c'"
proof -
  obtain found c1 where c1: "RetrieveByServiceIP now (GetSrcIP p) inst sport (GetDestIP p) dport c = Some (found, c1)"
    "cache_safe c1" using retrieve_safe [OF assms(1,2)] unfolding RetrieveByServiceIP_def by blast
  have "intn (length es) < length es" using assms(3,4) by (simp add: fair_choice_def)
  moreover obtain c2 where "ProxyCache_Add now' (new_conversion (es ! intn (length es)) inst p sport dport) c1 = Some c2"
    "cache_safe c2" using Add_safe [OF c1(2)] assms(2) by (metis new_conversion_def ConversionEntry.select_convs(5))
  ultimately show ?thesis using c1 by (simp add: choose_conversion_def new_conversion_def Let_def)
qed

context environment_manager
begin

lemma outgoing_total:
  assumes "proxy_ok ok proxy" "fair_choice intn"
  shows "\<exists>r proxy'. outgoingProxy em lib intn now now' p (Some t) proxy = Some (r, proxy') \<and> proxy_ok ok proxy' \<and>
    incomingChannel proxy' = incomingChannel proxy \<and> outgoingChannel proxy' = outgoingChannel proxy"
proof (cases "semanticRoutingSubnetwork proxy p")
  case False
  with assms show ?thesis by (simp add: outgoingProxy_def)
next
  case True
  from assms(1) have "ok (environment proxy)" by (simp add: proxy_ok_def)
  from lookup_service [OF this] obtain es e where
    e: "em_GetTableEntryByServiceIP em (GetDestIP p) (environment proxy) = Some (es, e)" "ok e" by blast
  show ?thesis
  proof (cases "es = []")
    case True
    with e assms(1) show ?thesis by (simp add: outgoingProxy_def proxy_ok_def)
  next
    case False
    show ?thesis
    proof (cases "convertToInstanceIp em p e")
      case (Inl err)
      with e False assms(1) show ?thesis by (simp add: outgoingProxy_def proxy_ok_def)
    next
      case (Inr inst)
      from assms(1) have "cache_safe (proxycache proxy)" by (simp add: proxy_ok_def)
      from choose_conversion_safe [OF this port_ok_uint False assms(2)] obtain f c where fc:
        "choose_conversion intn now now' es inst p (uint (GetSourcePort t)) (uint (GetDestPort t)) (proxycache proxy) =
          Some (f, c)" "cache_safe c" by blast
      from outgoing_chosen [OF \<open>semanticRoutingSubnetwork proxy p\<close> e(1) False Inr fc(1), of lib] fc(2) e(2)
      show ?thesis by (simp add: proxy_ok_def)
    qed
  qed
qed

end

text \<open>Serialising a packet for the wire gives at least one byte.\<close>

definition serializes :: "('d, 'z) gopacket_scheme \<Rightarrow> bool" where
  "serializes lib \<longleftrightarrow> (\<forall>pkt. gp_SerializePacket lib pkt \<noteq> [])"

text \<open>The messages in the channels have content, and the channels are within their capacity.\<close>

definition channels_ok :: "('e, 'u, 'd) GoProxyTunnel \<Rightarrow> bool" where
  "channels_ok proxy \<longleftrightarrow>
     length (incomingChannel proxy) \<le> channel_size \<and> length (outgoingChannel proxy) \<le> channel_size \<and>
     list_all (\<lambda>m. incoming_content m \<noteq> []) (incomingChannel proxy) \<and>
     list_all (\<lambda>m. outgoing_content m \<noteq> []) (outgoingChannel proxy)"

lemma get_connection_frame:
  "get_connection io h proxy = (r, proxy1) \<Longrightarrow> environment proxy1 = environment proxy \<and>
    proxycache proxy1 = proxycache proxy \<and> incomingChannel proxy1 = incomingChannel proxy \<and>
    outgoingChannel proxy1 = outgoingChannel proxy"
  by (auto simp: get_connection_def buffer_connection_def Let_def split: option.splits prod.splits sum.splits)

lemma forward_ok:
  assumes "serializes lib"
  shows "channels_ok proxy \<Longrightarrow> forward io lib h p pkt attempt proxy = (r, proxy1) \<Longrightarrow>
    channels_ok proxy1 \<and> environment proxy1 = environment proxy \<and> proxycache proxy1 = proxycache proxy \<and>
    (\<forall>m. r = Some m \<longrightarrow> incoming_content m \<noteq> [])"
proof (induction "nat (11 - attempt)" arbitrary: attempt proxy rule: less_induct)
  case less
  have content: "packetToByte lib pkt \<noteq> []" using assms unfolding serializes_def packetToByte_def by blast
  show ?case
  proof (cases rule: forward_cases [of attempt io lib h p pkt proxy])
    case own_node
    with less.prems content show ?thesis
      by (auto simp: send_incoming_def channels_ok_def split: if_splits)
  next
    case (unreachable proxy2)
    with less.prems get_connection_frame [OF unreachable(3)] show ?thesis by (simp add: channels_ok_def)
  next
    case (sent con proxy2 u)
    with less.prems get_connection_frame [OF sent(3)] show ?thesis by (auto simp: channels_ok_def)
  next
    case (lost con proxy2 err u err' u')
    with less.prems get_connection_frame [OF lost(3)] show ?thesis by (auto simp: channels_ok_def)
  next
    case (retry con proxy2 err u con' u')
    let ?next = "buffer_connection (hoststring_of h p) con' u' proxy2"
    have f: "environment ?next = environment proxy" "proxycache ?next = proxycache proxy" "channels_ok ?next"
      using get_connection_frame [OF retry(3)] less.prems(1) by (simp_all add: buffer_connection_def channels_ok_def)
    have "forward io lib h p pkt (attempt + 1) ?next = (r, proxy1)" using retry(6) less.prems(2) by simp
    with less.hyps [of "attempt + 1" ?next] f retry(1) show ?thesis by simp
  qed (use less.prems in auto)
qed

text \<open>What each handler keeps when it is given a message with content.\<close>

definition system_ok :: "('e \<Rightarrow> bool) \<Rightarrow> ('e, 'u, 'd) GoProxyTunnel \<Rightarrow> bool" where
  "system_ok ok proxy \<longleftrightarrow> proxy_ok ok proxy \<and> channels_ok proxy"

context environment_manager
begin

lemma handle_outgoing_total:
  assumes "system_ok ok proxy" "fair_choice intn" "serializes lib" "outgoing_content m \<noteq> []"
  shows "\<exists>r proxy'. handle_outgoing em io lib intn now now' m proxy = Some (r, proxy') \<and> system_ok ok proxy' \<and>
    (\<forall>x. r = Some x \<longrightarrow> incoming_content x \<noteq> [])"
proof -
  obtain decoded d where dec: "decodePacket lib (outgoing_content m) (defragger proxy) = Some (decoded, d)"
    using decode_total [OF assms(4), of lib "defragger proxy"] by blast
  let ?proxy = "proxy\<lparr>defragger := d\<rparr>"
  have ok1: "system_ok ok ?proxy" using assms(1) by (simp add: system_ok_def proxy_ok_def channels_ok_def)
  show ?thesis
  proof (cases decoded)
    case None
    with dec ok1 show ?thesis by (simp add: handle_outgoing_def)
  next
    case (Some q)
    then obtain p prot where q: "decoded = Some (p, prot)" by (cases q) simp
    show ?thesis
    proof (cases prot)
      case None
      with dec ok1 q show ?thesis by (simp add: handle_outgoing_def)
    next
      case t: (Some t)
      from ok1 have "proxy_ok ok ?proxy" by (simp add: system_ok_def)
      from outgoing_total [OF this assms(2), of lib now now' p t] obtain pkt p' proxy1 where
        o: "outgoingProxy em lib intn now now' p (Some t) ?proxy = Some ((pkt, p'), proxy1)" "proxy_ok ok proxy1"
        "incomingChannel proxy1 = incomingChannel ?proxy" "outgoingChannel proxy1 = outgoingChannel ?proxy" by auto
      have ch: "channels_ok proxy1" using o(3,4) ok1 by (simp add: system_ok_def channels_ok_def)
      show ?thesis
      proof (cases pkt)
        case None
        with dec q t o ch show ?thesis by (simp add: handle_outgoing_def system_ok_def)
      next
        case (Some pkt')
        obtain h port where l: "locateRemoteAddress em (GetDestIP p') (environment proxy1) = (h, port)"
          by (cases "locateRemoteAddress em (GetDestIP p') (environment proxy1)")
        obtain r proxy2 where f: "forward io lib h port pkt' 0 proxy1 = (r, proxy2)"
          by (cases "forward io lib h port pkt' 0 proxy1")
        from forward_ok [OF assms(3) ch f] o(2) have "system_ok ok proxy2" "\<forall>m. r = Some m \<longrightarrow> incoming_content m \<noteq> []"
          by (simp_all add: system_ok_def proxy_ok_def)
        with dec q t o(1) Some l f show ?thesis by (simp add: handle_outgoing_def)
      qed
    qed
  qed
qed

end

lemma ingoing_safe:
  assumes "cache_safe (proxycache proxy)"
  shows "\<exists>r c. ingoingProxy lib now p (Some t) proxy = Some (r, proxy\<lparr>proxycache := c\<rparr>) \<and> cache_safe c"
proof -
  obtain found c where "RetrieveByInstanceIp now (GetDestIP p) (uint (GetDestPort t)) (uint (GetSourcePort t))
      (proxycache proxy) = Some (found, c)" "cache_safe c"
    using retrieve_safe [OF assms port_ok_uint] unfolding RetrieveByInstanceIp_def by blast
  then show ?thesis
    by (cases found) (auto simp: ingoingProxy_def src_port_def dst_port_def SerializePacket_Some)
qed

lemma handle_ingoing_total:
  assumes "system_ok ok proxy" "incoming_content m \<noteq> []"
  shows "\<exists>proxy'. handle_ingoing io lib now m proxy = Some proxy' \<and> system_ok ok proxy'"
proof -
  obtain decoded d where dec: "decodePacket lib (incoming_content m) (defragger proxy) = Some (decoded, d)"
    using decode_total [OF assms(2), of lib "defragger proxy"] by blast
  let ?proxy = "proxy\<lparr>defragger := d\<rparr>"
  have ok1: "system_ok ok ?proxy" using assms(1) by (simp add: system_ok_def proxy_ok_def channels_ok_def)
  show ?thesis
  proof (cases decoded)
    case None
    with dec ok1 show ?thesis by (simp add: handle_ingoing_def)
  next
    case (Some q)
    then obtain p prot where q: "decoded = Some (p, prot)" by (cases q) simp
    show ?thesis
    proof (cases prot)
      case None
      with dec ok1 q show ?thesis by (simp add: handle_ingoing_def)
    next
      case t: (Some t)
      from ok1 have "cache_safe (proxycache ?proxy)" by (simp add: system_ok_def proxy_ok_def)
      from ingoing_safe [OF this, of lib now p t] obtain pkt p' c where
        i: "ingoingProxy lib now p (Some t) ?proxy = Some ((pkt, p'), ?proxy\<lparr>proxycache := c\<rparr>)" "cache_safe c" by auto
      with dec q t ok1 show ?thesis
        by (simp add: handle_ingoing_def system_ok_def proxy_ok_def channels_ok_def)
    qed
  qed
qed

end
