(* ===== verification/NodeLookups.thy ===== *)
theory NodeLookups
  imports EnvironmentTable
begin

text \<open>
  The lookup of a service and the refresh of a job as goroutines: between two accesses to the shared
  table, to the event bus or to the client the rest of the node may run, above all while a query waits
  for its response. Run without interruption, the steps are the calls of \<open>Environment\<close>.
\<close>

section \<open>Steps\<close>

text \<open>
  Where the goroutine in \<open>GetTableEntryByServiceIP\<close> is: before the search, with entries it found, before the
  query, waiting on a response channel, with the entries of the response, adding them, before the second
  search, with its result, and returning.
\<close>

datatype lookup_pc =
    LSearch
  | LFound "TableEntry list"
  | LQuery
  | LWait nat
  | LLearned "TableEntry list"
  | LAdd "TableEntry list"
  | LInsert TableEntry "TableEntry list"
  | LAgain
  | LRegister "TableEntry list"
  | LReturn "TableEntry list"

definition query_begins :: "string \<Rightarrow> string \<Rightarrow> bool \<Rightarrow> 'w node \<Rightarrow> (error + nat) \<times> 'w node" where
  "query_begins sip sname force s =
     (let (r, client) = query_begin sip sname force (node_mqtt s) in (r, s\<lparr>node_mqtt := client\<rparr>))"

definition query_ends :: "nat \<Rightarrow> 'w node \<Rightarrow> (error + TableEntry list) \<times> 'w node" where
  "query_ends c s =
     (let (r, client) = query_end c (node_mqtt s) in (parse_result r, s\<lparr>node_mqtt := client\<rparr>))"

definition forget_nsip :: "ip \<Rightarrow> 'w node \<Rightarrow> 'w node option" where
  "forget_nsip nsip s =
     do { (_, t) \<leftarrow> RemoveByNsip nsip (env_table (node_env s)); Some (s\<lparr>node_env := (node_env s)\<lparr>env_table := t\<rparr>\<rparr>) }"

definition insert_entry :: "TableEntry \<Rightarrow> 'w node \<Rightarrow> 'w node" where
  "insert_entry e s = s\<lparr>node_env := (node_env s)\<lparr>env_table := snd (TableManager_Add e (env_table (node_env s)))\<rparr>\<rparr>"

definition registers :: "string \<Rightarrow> 'w node \<Rightarrow> 'w node" where
  "registers job s = s\<lparr>node_mqtt := MqttRegisterInterest job (node_mqtt s)\<rparr>"

fun lookup_step :: "ip \<Rightarrow> lookup_pc \<Rightarrow> 'w node \<Rightarrow> (lookup_pc \<times> 'w node) option" where
  "lookup_step a LSearch s =
     Some (case SearchByServiceIP a (env_table (node_env s)) of [] \<Rightarrow> LQuery | table \<Rightarrow> LFound table, s)"
| "lookup_step a (LFound table) s =
     do {
       bus \<leftarrow> Emit \<lparr>Event_EventType = TableQuery, EventTarget = JobName (hd table), EventMessage = ''''\<rparr>
                (event_bus (node_mqtt s));
       Some (LReturn table, s\<lparr>node_mqtt := (node_mqtt s)\<lparr>event_bus := bus\<rparr>\<rparr>)
     }"
| "lookup_step a LQuery s =
     (case query_begins (IP_String a) '''' False s of
        (Inl err, s) \<Rightarrow> Some (LReturn [], s)
      | (Inr c, s) \<Rightarrow> Some (LWait c, s))"
| "lookup_step a (LWait c) s =
     (case query_ends c s of
        (Inl err, s) \<Rightarrow> Some (LReturn [], s)
      | (Inr entryList, s) \<Rightarrow> Some (LLearned entryList, s))"
| "lookup_step a (LLearned entryList) s =
     Some (LAdd entryList, case entryList of [] \<Rightarrow> s | e # _ \<Rightarrow> registers (JobName e) s)"
| "lookup_step a (LAdd []) s = Some (LAgain, s)"
| "lookup_step a (LAdd (e # es)) s = do { s \<leftarrow> forget_nsip (Nsip e) s; Some (LInsert e es, s) }"
| "lookup_step a (LInsert e es) s = Some (LAdd es, insert_entry e s)"
| "lookup_step a LAgain s = Some (LRegister (SearchByServiceIP a (env_table (node_env s))), s)"
| "lookup_step a (LRegister table) s = Some (LReturn table, registers (IP_String a) s)"
| "lookup_step a (LReturn table) s = Some (LReturn table, s)"

text \<open>The refresh of a job, \<open>RefreshServiceTable\<close>.\<close>

datatype refresh_pc =
    RQuery
  | RWait nat
  | RRemove "TableEntry list"
  | RAdd "TableEntry list"
  | RInsert TableEntry "TableEntry list"
  | RReturn

fun refresh_step :: "string \<Rightarrow> refresh_pc \<Rightarrow> 'w node \<Rightarrow> (refresh_pc \<times> 'w node) option" where
  "refresh_step job RQuery s =
     (case query_begins '''' job True s of
        (Inl err, s) \<Rightarrow> Some (RReturn, s)
      | (Inr c, s) \<Rightarrow> Some (RWait c, s))"
| "refresh_step job (RWait c) s =
     (case query_ends c s of
        (Inl err, s) \<Rightarrow> Some (RReturn, s)
      | (Inr entryList, s) \<Rightarrow> Some (RRemove entryList, s))"
| "refresh_step job (RRemove entryList) s =
     do {
       (_, t) \<leftarrow> RemoveByJobName job (env_table (node_env s));
       Some (RAdd entryList, s\<lparr>node_env := (node_env s)\<lparr>env_table := t\<rparr>\<rparr>)
     }"
| "refresh_step job (RAdd []) s = Some (RReturn, s)"
| "refresh_step job (RAdd (e # es)) s = do { s \<leftarrow> forget_nsip (Nsip e) s; Some (RInsert e es, s) }"
| "refresh_step job (RInsert e es) s = Some (RAdd es, insert_entry e s)"
| "refresh_step job RReturn s = Some (RReturn, s)"

section \<open>Running to the end\<close>

text \<open>
  The rest of a call that nothing interrupts, except that the response handler runs on \<open>msgs\<close> while it waits.
\<close>

definition handled :: "TableQueryResponse list \<Rightarrow> 'w node \<Rightarrow> 'w node option" where
  "handled msgs s = do { client \<leftarrow> handle_messages msgs (node_mqtt s); Some (s\<lparr>node_mqtt := client\<rparr>) }"

fun lookup_rank :: "lookup_pc \<Rightarrow> nat" where
  "lookup_rank LSearch = 7" | "lookup_rank (LFound _) = 1" | "lookup_rank LQuery = 6" | "lookup_rank (LWait _) = 5"
| "lookup_rank (LLearned _) = 4" | "lookup_rank (LAdd _) = 3" | "lookup_rank (LInsert _ _) = 3" | "lookup_rank LAgain = 2"
| "lookup_rank (LRegister _) = 1" | "lookup_rank (LReturn _) = 0"

fun lookup_left :: "lookup_pc \<Rightarrow> nat" where
  "lookup_left (LAdd es) = 2 * length es" | "lookup_left (LInsert e es) = Suc (2 * length es)" | "lookup_left _ = 0"

fun while_waiting :: "TableQueryResponse list \<Rightarrow> lookup_pc \<Rightarrow> 'w node \<Rightarrow> 'w node option" where
  "while_waiting msgs (LWait c) s = handled msgs s"
| "while_waiting msgs pc s = Some s"

fun lookup_result :: "lookup_pc \<Rightarrow> TableEntry list option" where
  "lookup_result (LReturn table) = Some table" | "lookup_result _ = None"

lemma lookup_step_decreases:
  "lookup_step a pc s = Some (pc', s') \<Longrightarrow> lookup_result pc = None \<Longrightarrow>
    lookup_rank pc' < lookup_rank pc \<or> lookup_rank pc' = lookup_rank pc \<and> lookup_left pc' < lookup_left pc"
  by (cases "(a, pc, s)" rule: lookup_step.cases)
    (auto simp: bind_eq_Some_conv split: list.splits sum.splits prod.splits)

function lookup_rest :: "ip \<Rightarrow> TableQueryResponse list \<Rightarrow> lookup_pc \<Rightarrow> 'w node \<Rightarrow> (TableEntry list \<times> 'w node) option" where
  "lookup_rest a msgs pc s =
     (case lookup_result pc of
        Some table \<Rightarrow> Some (table, s)
      | None \<Rightarrow> do {
          s \<leftarrow> while_waiting msgs pc s;
          (pc, s) \<leftarrow> lookup_step a pc s;
          lookup_rest a msgs pc s
        })"
  by pat_completeness auto
termination
proof (relation "measures [\<lambda>(a, msgs, pc, s). lookup_rank pc, \<lambda>(a, msgs, pc, s). lookup_left pc]")
  show "((a, msgs, pc', s'), (a, msgs, pc, s0))
      \<in> measures [\<lambda>(a, msgs, pc, s). lookup_rank pc, \<lambda>(a, msgs, pc, s). lookup_left pc]"
    if "lookup_result pc = None" "while_waiting msgs pc s0 = Some s" "lookup_step a pc s = Some r" "(pc', s') = r"
    for a msgs pc pc' r and s0 s s' :: "'w node"
    using lookup_step_decreases [OF _ that(1)] that(3,4) by auto
qed simp

declare lookup_rest.simps [simp del]

lemma lookup_rest_return [simp]: "lookup_rest a msgs (LReturn table) s = Some (table, s)"
  by (simp add: lookup_rest.simps)

lemma lookup_rest_next:
  "lookup_result pc = None \<Longrightarrow> lookup_rest a msgs pc s =
    do { s \<leftarrow> while_waiting msgs pc s; (pc, s) \<leftarrow> lookup_step a pc s; lookup_rest a msgs pc s }"
  by (subst lookup_rest.simps) simp

lemma lookup_rest_add:
  "lookup_rest a msgs (LAdd es) s =
    do { env \<leftarrow> AddTableQueryEntries es (node_env s); lookup_rest a msgs LAgain (s\<lparr>node_env := env\<rparr>) }"
proof (induction es arbitrary: s)
  case Nil
  then show ?case by (simp add: lookup_rest_next)
next
  case (Cons e es)
  then show ?case
    by (cases "RemoveByNsip (Nsip e) (env_table (node_env s))")
      (simp_all add: lookup_rest_next [of "LAdd (e # es)"] lookup_rest_next [of "LInsert e es"]
        forget_nsip_def insert_entry_def AddTableQueryEntry_def split_beta)
qed

lemma lookup_rest_again:
  "lookup_rest a msgs LAgain s =
    Some (SearchByServiceIP a (env_table (node_env s)), registers (IP_String a) s)"
  by (simp add: lookup_rest_next)

lemma query_unfold:
  "tableQueryByIP a False msgs client =
    (case query_begin (IP_String a) '''' False client of
       (Inl err, client) \<Rightarrow> Some (Inl err, client)
     | (Inr c, client) \<Rightarrow> do { client \<leftarrow> handle_messages msgs client;
         let (r, client) = query_end c client in Some (parse_result r, client) })"
  by (cases "query_begin (IP_String a) '''' False client")
    (auto simp: tableQueryByIP_def TableQueryByIpRequestBlocking_def tableQueryRequestBlocking_def parse_result_def
      split: sum.splits prod.splits option.splits Option.bind_splits)

text \<open>Without interruption the steps are the call.\<close>

lemma lookup_uninterrupted: "lookup_rest a msgs LSearch s = GetTableEntryByServiceIP a msgs s"
proof (cases "SearchByServiceIP a (env_table (node_env s))")
  case (Cons e es)
  then show ?thesis
    by (cases "Emit \<lparr>Event_EventType = TableQuery, EventTarget = JobName e, EventMessage = ''''\<rparr> (event_bus (node_mqtt s))")
      (simp_all add: lookup_rest_next GetTableEntryByServiceIP_def)
next
  case Nil
  then have first: "lookup_rest a msgs LSearch s = lookup_rest a msgs LQuery s"
    by (simp add: lookup_rest_next)
  obtain r client where b: "query_begin (IP_String a) '''' False (node_mqtt s) = (r, client)" by fastforce
  show ?thesis
  proof (cases r)
    case (Inl err)
    with Nil first b show ?thesis
      by (simp add: lookup_rest_next query_begins_def GetTableEntryByServiceIP_def query_unfold)
  next
    case (Inr c)
    let ?s = "s\<lparr>node_mqtt := client\<rparr>"
    have q: "lookup_rest a msgs LQuery s = lookup_rest a msgs (LWait c) ?s"
      using b Inr by (simp add: lookup_rest_next query_begins_def)
    show ?thesis
    proof (cases "handle_messages msgs client")
      case None
      with Nil first q b Inr show ?thesis
        by (simp add: lookup_rest_next handled_def GetTableEntryByServiceIP_def query_unfold)
    next
      case (Some client1)
      obtain x client2 where e: "query_end c client1 = (x, client2)" by fastforce
      note simps = lookup_rest_next handled_def GetTableEntryByServiceIP_def query_unfold query_ends_def
      show ?thesis
      proof (cases "parse_result x")
        case (Inl err)
        with Nil first q b Inr Some e show ?thesis by (simp add: simps)
      next
        case (Inr es)
        with Nil first q b \<open>r = Inr c\<close> Some e show ?thesis
          by (simp add: simps lookup_rest_add lookup_rest_again registers_def split: list.splits)
      qed
    qed
  qed
qed

text \<open>The same for a refresh.\<close>

fun refresh_rank :: "refresh_pc \<Rightarrow> nat" where
  "refresh_rank RQuery = 4" | "refresh_rank (RWait _) = 3" | "refresh_rank (RRemove _) = 2"
| "refresh_rank (RAdd _) = 1" | "refresh_rank (RInsert _ _) = 1" | "refresh_rank RReturn = 0"

fun refresh_left :: "refresh_pc \<Rightarrow> nat" where
  "refresh_left (RAdd es) = 2 * length es" | "refresh_left (RInsert e es) = Suc (2 * length es)" | "refresh_left _ = 0"

fun while_refreshing :: "TableQueryResponse list \<Rightarrow> refresh_pc \<Rightarrow> 'w node \<Rightarrow> 'w node option" where
  "while_refreshing msgs (RWait c) s = handled msgs s"
| "while_refreshing msgs pc s = Some s"

lemma refresh_step_decreases:
  "refresh_step job pc s = Some (pc', s') \<Longrightarrow> pc \<noteq> RReturn \<Longrightarrow>
    refresh_rank pc' < refresh_rank pc \<or> refresh_rank pc' = refresh_rank pc \<and> refresh_left pc' < refresh_left pc"
  by (cases "(job, pc, s)" rule: refresh_step.cases)
    (auto simp: bind_eq_Some_conv split: list.splits sum.splits prod.splits)

function refresh_rest :: "string \<Rightarrow> TableQueryResponse list \<Rightarrow> refresh_pc \<Rightarrow> 'w node \<Rightarrow> 'w node option" where
  "refresh_rest job msgs pc s =
     (if pc = RReturn then Some s
      else do {
        s \<leftarrow> while_refreshing msgs pc s;
        (pc, s) \<leftarrow> refresh_step job pc s;
        refresh_rest job msgs pc s
      })"
  by pat_completeness auto
termination
proof (relation "measures [\<lambda>(job, msgs, pc, s). refresh_rank pc, \<lambda>(job, msgs, pc, s). refresh_left pc]")
  show "((job, msgs, pc', s'), (job, msgs, pc, s0))
      \<in> measures [\<lambda>(job, msgs, pc, s). refresh_rank pc, \<lambda>(job, msgs, pc, s). refresh_left pc]"
    if "pc \<noteq> RReturn" "while_refreshing msgs pc s0 = Some s" "refresh_step job pc s = Some r" "(pc', s') = r"
    for job msgs pc pc' r and s0 s s' :: "'w node"
    using refresh_step_decreases [OF _ that(1)] that(3,4) by auto
qed simp

declare refresh_rest.simps [simp del]

lemma refresh_rest_return [simp]: "refresh_rest job msgs RReturn s = Some s"
  by (simp add: refresh_rest.simps)

lemma refresh_rest_next:
  "pc \<noteq> RReturn \<Longrightarrow> refresh_rest job msgs pc s =
    do { s \<leftarrow> while_refreshing msgs pc s; (pc, s) \<leftarrow> refresh_step job pc s; refresh_rest job msgs pc s }"
  by (subst refresh_rest.simps) simp

lemma refresh_rest_add:
  "refresh_rest job msgs (RAdd es) s =
    do { env \<leftarrow> AddTableQueryEntries es (node_env s); Some (s\<lparr>node_env := env\<rparr>) }"
proof (induction es arbitrary: s)
  case Nil
  then show ?case by (simp add: refresh_rest_next)
next
  case (Cons e es)
  then show ?case
    by (cases "RemoveByNsip (Nsip e) (env_table (node_env s))")
      (simp_all add: refresh_rest_next [of "RAdd (e # es)"] refresh_rest_next [of "RInsert e es"]
        forget_nsip_def insert_entry_def AddTableQueryEntry_def split_beta)
qed

lemma job_query_unfold:
  "tableQueryByJobName job True msgs client =
    (case query_begin '''' job True client of
       (Inl err, client) \<Rightarrow> Some (Inl err, client)
     | (Inr c, client) \<Rightarrow> do { client \<leftarrow> handle_messages msgs client;
         let (r, client) = query_end c client in Some (parse_result r, client) })"
  by (cases "query_begin '''' job True client")
    (auto simp: tableQueryByJobName_def TableQueryByJobNameRequestBlocking_def tableQueryRequestBlocking_def
      parse_result_def split: sum.splits prod.splits option.splits Option.bind_splits)

lemma refresh_uninterrupted: "refresh_rest job msgs RQuery s = RefreshServiceTable job msgs s"
proof -
  obtain r client where b: "query_begin '''' job True (node_mqtt s) = (r, client)" by fastforce
  note simps = refresh_rest_next handled_def RefreshServiceTable_def job_query_unfold query_begins_def query_ends_def
  show ?thesis
  proof (cases r)
    case (Inl err)
    with b show ?thesis by (simp add: simps)
  next
    case (Inr c)
    show ?thesis
    proof (cases "handle_messages msgs client")
      case None
      with b Inr show ?thesis by (simp add: simps)
    next
      case (Some client1)
      obtain x client2 where e: "query_end c client1 = (x, client2)" by fastforce
      show ?thesis
      proof (cases "parse_result x")
        case (Inl err)
        with b \<open>r = Inr c\<close> Some e show ?thesis by (simp add: simps)
      next
        case (Inr es)
        with b \<open>r = Inr c\<close> Some e show ?thesis
          by (cases "RemoveByJobName job (env_table (node_env s))") (auto simp: simps refresh_rest_add)
      qed
    qed
  qed
qed

section \<open>What the steps keep\<close>

text \<open>The entries a lookup has found are entries of the service.\<close>

fun lookup_found :: "ip \<Rightarrow> lookup_pc \<Rightarrow> bool" where
  "lookup_found a (LFound es) \<longleftrightarrow> (\<forall>x \<in> set es. serves a x \<and> isValid x)"
| "lookup_found a (LRegister es) \<longleftrightarrow> (\<forall>x \<in> set es. serves a x \<and> isValid x)"
| "lookup_found a (LReturn es) \<longleftrightarrow> (\<forall>x \<in> set es. serves a x \<and> isValid x)"
| "lookup_found a _ \<longleftrightarrow> True"

text \<open>
  What an invariant of the node has to allow for the steps: changes of the requests in the client, of the
  event bus, new interests, and a valid table.
\<close>

locale node_invariant =
  fixes ok :: "'w node \<Rightarrow> bool"
  assumes is_node_ok: "ok s \<Longrightarrow> node_ok s"
    and keeps_query: "ok s \<Longrightarrow> query_ok c \<Longrightarrow> same_jobs (node_mqtt s) c \<Longrightarrow> ok (s\<lparr>node_mqtt := c\<rparr>)"
    and keeps_bus: "ok s \<Longrightarrow> events_ok bus \<Longrightarrow> ok (s\<lparr>node_mqtt := (node_mqtt s)\<lparr>event_bus := bus\<rparr>\<rparr>)"
    and keeps_interest: "ok s \<Longrightarrow> ok (registers job s)"
    and keeps_table: "ok s \<Longrightarrow> table_ok t \<Longrightarrow> ok (s\<lparr>node_env := (node_env s)\<lparr>env_table := t\<rparr>\<rparr>)"
begin

lemma query_begins_ok:
  assumes "ok s"
  shows "ok (snd (query_begins sip sname force s))"
proof -
  obtain r client where b: "query_begin sip sname force (node_mqtt s) = (r, client)" by fastforce
  then have "same_jobs (node_mqtt s) client"
    by (auto simp: query_begin_def Let_def PublishToBroker_def same_jobs_def split: option.splits if_splits)
  moreover have "query_ok client"
    using query_begin_ok [of "node_mqtt s" sip sname force] b is_node_ok [OF assms] by (simp add: node_ok_def)
  ultimately show ?thesis using keeps_query [OF assms] b by (simp add: query_begins_def)
qed

lemma query_ends_ok:
  assumes "ok s"
  shows "ok (snd (query_ends c s))"
proof -
  obtain r client where b: "query_end c (node_mqtt s) = (r, client)" by fastforce
  then have "same_jobs (node_mqtt s) client"
    by (auto simp: query_end_def same_jobs_def split: list.splits)
  moreover have "query_ok client"
    using query_end_ok [of "node_mqtt s" c] b is_node_ok [OF assms] by (simp add: node_ok_def)
  ultimately show ?thesis using keeps_query [OF assms] b by (simp add: query_ends_def)
qed

lemma handled_ok:
  assumes "ok s" shows "\<exists>s'. handled msgs s = Some s' \<and> ok s'"
proof -
  have "query_ok (node_mqtt s)" using is_node_ok [OF assms] by (simp add: node_ok_def)
  from handle_messages_ok [OF this, of msgs] obtain c where "handle_messages msgs (node_mqtt s) = Some c" "query_ok c"
    by blast
  with keeps_query [OF assms] handle_messages_frame show ?thesis by (auto simp: handled_def)
qed

lemma forget_nsip_ok:
  assumes "ok s" shows "\<exists>s'. forget_nsip nsip s = Some s' \<and> ok s'"
proof -
  have "table_ok (env_table (node_env s))" using is_node_ok [OF assms] by (simp add: node_ok_def)
  from RemoveByNsip_ok [OF this, of nsip] obtain r t where
    "RemoveByNsip nsip (env_table (node_env s)) = Some (r, t)" "table_ok t" by blast
  with keeps_table [OF assms] show ?thesis by (simp add: forget_nsip_def)
qed

lemma insert_entry_ok:
  assumes "ok s" shows "ok (insert_entry e s)"
proof -
  have "table_ok (env_table (node_env s))" using is_node_ok [OF assms] by (simp add: node_ok_def)
  from keeps_table [OF assms TableManager_Add_ok [OF this, of e]] show ?thesis by (simp add: insert_entry_def)
qed

lemma search_found: "ok s \<Longrightarrow> x \<in> set (SearchByServiceIP a (env_table (node_env s))) \<Longrightarrow> serves a x \<and> isValid x"
  using is_node_ok [of s] by (auto simp: node_ok_def table_ok_set set_SearchByServiceIP)

lemma lookup_step_ok:
  assumes "ok s" "lookup_found a pc"
  shows "\<exists>pc' s'. lookup_step a pc s = Some (pc', s') \<and> ok s' \<and> lookup_found a pc'"
proof (cases pc)
  case LSearch
  then show ?thesis
    using assms search_found [OF assms(1), of _ a] by (cases "SearchByServiceIP a (env_table (node_env s))") simp_all
next
  case (LFound es)
  have "events_ok (event_bus (node_mqtt s))" using is_node_ok [OF assms(1)] by (simp add: node_ok_def)
  from Emit_ok [OF this, of "\<lparr>Event_EventType = TableQuery, EventTarget = JobName (hd es), EventMessage = ''''\<rparr>"]
  obtain bus where "Emit \<lparr>Event_EventType = TableQuery, EventTarget = JobName (hd es), EventMessage = ''''\<rparr>
      (event_bus (node_mqtt s)) = Some bus" "events_ok bus" by blast
  with LFound assms keeps_bus show ?thesis by simp
next
  case LQuery
  with query_begins_ok [OF assms(1), of "IP_String a" "''''" False] show ?thesis
    by (cases "query_begins (IP_String a) '''' False s") (auto split: sum.splits)
next
  case (LWait c)
  with query_ends_ok [OF assms(1), of c] show ?thesis
    by (cases "query_ends c s") (auto split: sum.splits)
next
  case (LLearned es)
  with assms(1) keeps_interest show ?thesis by (simp split: list.splits)
next
  case (LAdd es)
  show ?thesis
  proof (cases es)
    case (Cons e rest)
    from forget_nsip_ok [OF assms(1), of "Nsip e"] obtain s' where "forget_nsip (Nsip e) s = Some s'" "ok s'" by blast
    with LAdd Cons show ?thesis by simp
  qed (use LAdd assms in simp)
next
  case (LInsert e es)
  with insert_entry_ok [OF assms(1)] show ?thesis by simp
next
  case (LRegister es)
  with assms keeps_interest show ?thesis by simp
qed (use assms search_found in auto)

lemma refresh_step_ok:
  assumes "ok s"
  shows "\<exists>pc' s'. refresh_step job pc s = Some (pc', s') \<and> ok s'"
proof (cases pc)
  case RQuery
  with query_begins_ok [OF assms, of "''''" job True] show ?thesis
    by (cases "query_begins '''' job True s") (auto split: sum.splits)
next
  case (RWait c)
  with query_ends_ok [OF assms, of c] show ?thesis
    by (cases "query_ends c s") (auto split: sum.splits)
next
  case (RRemove es)
  have "table_ok (env_table (node_env s))" using is_node_ok [OF assms] by (simp add: node_ok_def)
  from RemoveByJobName_ok [OF this, of job] obtain r t where
    "RemoveByJobName job (env_table (node_env s)) = Some (r, t)" "table_ok t" by blast
  with RRemove keeps_table [OF assms] show ?thesis by simp
next
  case (RAdd es)
  show ?thesis
  proof (cases es)
    case (Cons e rest)
    from forget_nsip_ok [OF assms, of "Nsip e"] obtain s' where "forget_nsip (Nsip e) s = Some s'" "ok s'" by blast
    with RAdd Cons show ?thesis by simp
  qed (use RAdd assms in simp)
next
  case (RInsert e es)
  with insert_entry_ok [OF assms] show ?thesis by simp
qed (use assms in simp)

end

interpretation ni: node_invariant node_ok
proof unfold_locales
  show "node_ok s \<Longrightarrow> query_ok c \<Longrightarrow> same_jobs (node_mqtt s) c \<Longrightarrow> node_ok (s\<lparr>node_mqtt := c\<rparr>)" for s :: "'w node" and c
    by (simp add: node_ok_def same_jobs_def)
  show "node_ok s \<Longrightarrow> events_ok bus \<Longrightarrow> node_ok (s\<lparr>node_mqtt := (node_mqtt s)\<lparr>event_bus := bus\<rparr>\<rparr>)" for s :: "'w node" and bus
    using query_ok_cong [of "(node_mqtt s)\<lparr>event_bus := bus\<rparr>" "node_mqtt s"] by (simp add: node_ok_def)
  show "node_ok s \<Longrightarrow> node_ok (registers job s)" for s :: "'w node" and job
    using interest_ok [of "node_mqtt s" job] by (simp add: node_ok_def registers_def)
qed (simp_all add: node_ok_def)

end
