(* ===== verification/ProxyStages.thy ===== *)
theory ProxyStages
  imports ProxyDelivery NodeLookups
begin

text \<open>
  The handler of outgoing messages of \<open>proxy/ProxyTunnel.go\<close> as a goroutine of a node: every access to the
  environment, to the cache and to the channels is a step of its own, so that other goroutines run between
  the lookup of a service, the search of the cache, the insertion and the lookup of the node to send to.
\<close>

section \<open>The node as the environment of the proxy\<close>

text \<open>\<open>msgs\<close> are the responses that arrive while a query for an address waits.\<close>

definition node_manager :: "(ip \<Rightarrow> TableQueryResponse list) \<Rightarrow> 'w node EnvironmentManager" where
  "node_manager msgs =
     \<lparr>em_GetTableEntryByServiceIP = (\<lambda>a s. GetTableEntryByServiceIP a (msgs a) s),
      em_GetTableEntryByNsIP = (\<lambda>a s. GetTableEntryByNsIP a (node_env s)),
      em_GetTableEntryByInstanceIP = (\<lambda>a s. GetTableEntryByInstanceIP a (node_env s))\<rparr>"

text \<open>The lookups that the steps make themselves do not wait.\<close>

definition here :: "'w node EnvironmentManager" where
  "here = node_manager (\<lambda>_. [])"

section \<open>Stages\<close>

text \<open>
  Where the handler is: before a receive; looking the service up; with its entries; with the instance address
  of the sender; with what the cache holds; with the conversion; with the packet to send; with the node to
  send it to; or waiting for room in the incoming channel.
\<close>

datatype outgoing_pc =
    OIdle
  | OLooking NetworkLayerPacket TransportLayerProtocol lookup_pc
  | OFound NetworkLayerPacket TransportLayerProtocol "TableEntry list"
  | OIdentified NetworkLayerPacket TransportLayerProtocol "TableEntry list" ip
  | ORetrieved NetworkLayerPacket TransportLayerProtocol "TableEntry list" ip "ConversionEntry option"
  | OConverted NetworkLayerPacket TransportLayerProtocol ConversionEntry
  | OSerialized Packet ip
  | OSending ip int Packet
  | OBlocked incomingMessage

text \<open>
  A receive with the decoding and the subnetwork test, which touch nothing that is shared but the channel and
  the defragmenter.
\<close>

definition outgoing_receive :: "('d, 'z) gopacket_scheme \<Rightarrow> ('e, 'u, 'd) GoProxyTunnel \<Rightarrow>
    (outgoing_pc \<times> ('e, 'u, 'd) GoProxyTunnel) option" where
  "outgoing_receive lib proxy =
     (case outgoingChannel proxy of
        [] \<Rightarrow> Some (OIdle, proxy)
      | msg # rest \<Rightarrow>
          do {
            let proxy = proxy\<lparr>outgoingChannel := rest\<rparr>;
            (decoded, d) \<leftarrow> decodePacket lib (outgoing_content msg) (defragger proxy);
            let proxy = proxy\<lparr>defragger := d\<rparr>;
            Some (case decoded of
                None \<Rightarrow> OIdle
              | Some (p, None) \<Rightarrow> OIdle
              | Some (p, Some prot) \<Rightarrow>
                  if semanticRoutingSubnetwork proxy p then OLooking p prot LSearch else OIdle, proxy)
          })"

definition outgoing_choice :: "(nat \<Rightarrow> nat) \<Rightarrow> int \<Rightarrow> TableEntry list \<Rightarrow> ip \<Rightarrow> NetworkLayerPacket \<Rightarrow>
    TransportLayerProtocol \<Rightarrow> ProxyCache \<Rightarrow> (ConversionEntry \<times> ProxyCache) option" where
  "outgoing_choice intn now tableEntryList instanceIP p prot c =
     do {
       let i = intn (length tableEntryList);
       tableEntry \<leftarrow> (if i < length tableEntryList then Some (tableEntryList ! i) else None);
       let entryDstIP = (if GetProtocolVersion p = 4 then Nsip tableEntry else Nsipv6 tableEntry);
       let entry = \<lparr>srcip = GetSrcIP p, dstip = entryDstIP, dstServiceIp = GetDestIP p, srcInstanceIp = instanceIP,
                    srcport = src_port (Some prot), dstport = dst_port (Some prot)\<rparr>;
       c \<leftarrow> ProxyCache_Add now entry c;
       Some (entry, c)
     }"

text \<open>One step of the handler; \<open>None\<close> is a panic. \<open>now\<close> is the time of the step.\<close>

fun outgoing_stage :: "'u netio \<Rightarrow> ('d, 'z) gopacket_scheme \<Rightarrow> (nat \<Rightarrow> nat) \<Rightarrow> int \<Rightarrow> outgoing_pc \<Rightarrow>
    ('w node, 'u, 'd) GoProxyTunnel \<Rightarrow> (outgoing_pc \<times> ('w node, 'u, 'd) GoProxyTunnel) option" where
  "outgoing_stage io lib intn now OIdle proxy = outgoing_receive lib proxy"
| "outgoing_stage io lib intn now (OLooking p prot (LReturn es)) proxy =
     Some (if length es < 1 then OIdle else OFound p prot es, proxy)"
| "outgoing_stage io lib intn now (OLooking p prot pc) proxy =
     do {
       (pc, e) \<leftarrow> lookup_step (GetDestIP p) pc (environment proxy);
       Some (OLooking p prot pc, proxy\<lparr>environment := e\<rparr>)
     }"
| "outgoing_stage io lib intn now (OFound p prot es) proxy =
     Some (case convertToInstanceIp here p (environment proxy) of
         Inl err \<Rightarrow> OIdle
       | Inr instanceIP \<Rightarrow> OIdentified p prot es instanceIP, proxy)"
| "outgoing_stage io lib intn now (OIdentified p prot es instanceIP) proxy =
     do {
       (found, c) \<leftarrow> RetrieveByServiceIP now (GetSrcIP p) instanceIP (src_port (Some prot)) (GetDestIP p)
                       (dst_port (Some prot)) (proxycache proxy);
       Some (ORetrieved p prot es instanceIP found, proxy\<lparr>proxycache := c\<rparr>)
     }"
| "outgoing_stage io lib intn now (ORetrieved p prot es instanceIP found) proxy =
     (if must_choose found es then
        do {
          (entry, c) \<leftarrow> outgoing_choice intn now es instanceIP p prot (proxycache proxy);
          Some (OConverted p prot entry, proxy\<lparr>proxycache := c\<rparr>)
        }
      else Some (OConverted p prot (the found), proxy))"
| "outgoing_stage io lib intn now (OConverted p prot entry) proxy =
     do {
       (pkt, p') \<leftarrow> SerializePacket lib p (dstip entry) (srcInstanceIp entry) (Some prot);
       Some (case pkt of None \<Rightarrow> OIdle | Some pkt \<Rightarrow> OSerialized pkt (GetDestIP p'), proxy)
     }"
| "outgoing_stage io lib intn now (OSerialized pkt dst) proxy =
     Some (case locateRemoteAddress here dst (environment proxy) of (dstHost, dstPort) \<Rightarrow> OSending dstHost dstPort pkt, proxy)"
| "outgoing_stage io lib intn now (OSending dstHost dstPort pkt) proxy =
     Some (case forward io lib dstHost dstPort pkt 0 proxy of
         (None, proxy) \<Rightarrow> (OIdle, proxy)
       | (Some msg, proxy) \<Rightarrow> (OBlocked msg, proxy))"
| "outgoing_stage io lib intn now (OBlocked msg) proxy =
     Some (case send_incoming msg proxy of
         (None, proxy) \<Rightarrow> (OIdle, proxy)
       | (Some msg, proxy) \<Rightarrow> (OBlocked msg, proxy))"

section \<open>A round without interruption\<close>

fun outgoing_rank :: "outgoing_pc \<Rightarrow> nat" where
  "outgoing_rank (OLooking _ _ _) = 7" | "outgoing_rank (OFound _ _ _) = 6" | "outgoing_rank (OIdentified _ _ _ _) = 5"
| "outgoing_rank (ORetrieved _ _ _ _ _) = 4" | "outgoing_rank (OConverted _ _ _) = 3" | "outgoing_rank (OSerialized _ _) = 2"
| "outgoing_rank (OSending _ _ _) = 1" | "outgoing_rank _ = 0"

fun outgoing_lookup :: "outgoing_pc \<Rightarrow> lookup_pc" where
  "outgoing_lookup (OLooking _ _ pc) = pc" | "outgoing_lookup _ = LReturn []"

text \<open>The end of a round: nothing is left, or a message that waits for room.\<close>

fun outgoing_result :: "outgoing_pc \<Rightarrow> incomingMessage option option" where
  "outgoing_result OIdle = Some None" | "outgoing_result (OBlocked msg) = Some (Some msg)" | "outgoing_result _ = None"

fun outgoing_wait :: "(ip \<Rightarrow> TableQueryResponse list) \<Rightarrow> outgoing_pc \<Rightarrow> ('w node, 'u, 'd) GoProxyTunnel \<Rightarrow>
    ('w node, 'u, 'd) GoProxyTunnel option" where
  "outgoing_wait msgs (OLooking p prot pc) proxy =
     do { e \<leftarrow> while_waiting (msgs (GetDestIP p)) pc (environment proxy); Some (proxy\<lparr>environment := e\<rparr>) }"
| "outgoing_wait msgs pc proxy = Some proxy"

text \<open>The cache is searched at one time and filled at a later one.\<close>

fun outgoing_clock :: "int \<Rightarrow> int \<Rightarrow> outgoing_pc \<Rightarrow> int" where
  "outgoing_clock now now' (OIdentified _ _ _ _) = now" | "outgoing_clock now now' _ = now'"

lemma outgoing_stage_decreases:
  assumes "outgoing_stage io lib intn now pc proxy = Some (pc', proxy')" "outgoing_result pc = None"
  shows "outgoing_rank pc' < outgoing_rank pc \<or> outgoing_rank pc' = outgoing_rank pc \<and>
    (lookup_rank (outgoing_lookup pc') < lookup_rank (outgoing_lookup pc) \<or>
     lookup_rank (outgoing_lookup pc') = lookup_rank (outgoing_lookup pc) \<and>
     lookup_left (outgoing_lookup pc') < lookup_left (outgoing_lookup pc))"
proof (cases pc)
  case (OLooking p prot l)
  show ?thesis
  proof (cases "lookup_result l")
    case None
    then have "outgoing_stage io lib intn now pc proxy =
        do { (l, e) \<leftarrow> lookup_step (GetDestIP p) l (environment proxy); Some (OLooking p prot l, proxy\<lparr>environment := e\<rparr>) }"
      using OLooking by (cases l) simp_all
    with assms(1) obtain l' e where "lookup_step (GetDestIP p) l (environment proxy) = Some (l', e)" "pc' = OLooking p prot l'"
      by (auto simp: bind_eq_Some_conv)
    with OLooking lookup_step_decreases [OF _ None] show ?thesis by simp blast
  next
    case (Some es)
    then have "l = LReturn es" by (cases l) simp_all
    with assms OLooking show ?thesis by (auto split: if_splits)
  qed
qed (use assms in \<open>auto simp: bind_eq_Some_conv split: sum.splits if_splits option.splits prod.splits\<close>)

function outgoing_rest :: "'u netio \<Rightarrow> ('d, 'z) gopacket_scheme \<Rightarrow> (nat \<Rightarrow> nat) \<Rightarrow> int \<Rightarrow> int \<Rightarrow>
    (ip \<Rightarrow> TableQueryResponse list) \<Rightarrow> outgoing_pc \<Rightarrow> ('w node, 'u, 'd) GoProxyTunnel \<Rightarrow>
    (incomingMessage option \<times> ('w node, 'u, 'd) GoProxyTunnel) option" where
  "outgoing_rest io lib intn now now' msgs pc proxy =
     (case outgoing_result pc of
        Some r \<Rightarrow> Some (r, proxy)
      | None \<Rightarrow> do {
          proxy \<leftarrow> outgoing_wait msgs pc proxy;
          (pc, proxy) \<leftarrow> outgoing_stage io lib intn (outgoing_clock now now' pc) pc proxy;
          outgoing_rest io lib intn now now' msgs pc proxy
        })"
  by pat_completeness auto
termination
proof (relation "measures [\<lambda>(io, lib, intn, now, now', msgs, pc, proxy). outgoing_rank pc,
    \<lambda>(io, lib, intn, now, now', msgs, pc, proxy). lookup_rank (outgoing_lookup pc),
    \<lambda>(io, lib, intn, now, now', msgs, pc, proxy). lookup_left (outgoing_lookup pc)]", goal_cases)
  case (2 io lib intn now now' msgs pc proxy proxy1 r pc' proxy')
  from outgoing_stage_decreases [OF _ 2(1), of io lib intn "outgoing_clock now now' pc" proxy1 pc' proxy'] 2(3) 2(4) [symmetric]
  show ?case by simp
qed simp

declare outgoing_rest.simps [simp del]

lemma outgoing_rest_done [simp]:
  "outgoing_rest io lib intn now now' msgs OIdle proxy = Some (None, proxy)"
  "outgoing_rest io lib intn now now' msgs (OBlocked msg) proxy = Some (Some msg, proxy)"
  by (simp_all add: outgoing_rest.simps)

lemma outgoing_rest_next:
  "outgoing_result pc = None \<Longrightarrow> outgoing_rest io lib intn now now' msgs pc proxy =
    do { proxy \<leftarrow> outgoing_wait msgs pc proxy;
         (pc, proxy) \<leftarrow> outgoing_stage io lib intn (outgoing_clock now now' pc) pc proxy;
         outgoing_rest io lib intn now now' msgs pc proxy }"
  by (subst outgoing_rest.simps) simp

lemma outgoing_rest_lookup:
  fixes proxy :: "('w node, 'u, 'd) GoProxyTunnel"
  shows "outgoing_rest io lib intn now now' msgs (OLooking p prot l) proxy =
    do { (es, e) \<leftarrow> lookup_rest (GetDestIP p) (msgs (GetDestIP p)) l (environment proxy);
         outgoing_rest io lib intn now now' msgs (OLooking p prot (LReturn es)) (proxy\<lparr>environment := e\<rparr>) }"
proof (induction "GetDestIP p" "msgs (GetDestIP p)" l "environment proxy" arbitrary: proxy rule: lookup_rest.induct)
  case (1 l)
  show ?case
  proof (cases "lookup_result l")
    case (Some es)
    then have "l = LReturn es" by (cases l) simp_all
    then show ?thesis by simp
  next
    case None
    then have stage: "outgoing_stage io lib intn now'' (OLooking p prot l) q =
        do { (l, e) \<leftarrow> lookup_step (GetDestIP p) l (environment q); Some (OLooking p prot l, q\<lparr>environment := e\<rparr>) }" for now'' and q :: "('w node, 'u, 'd) GoProxyTunnel"
      by (cases l) simp_all
    show ?thesis
    proof (cases "while_waiting (msgs (GetDestIP p)) l (environment proxy)")
      case None
      with \<open>lookup_result l = None\<close> show ?thesis by (simp add: outgoing_rest_next lookup_rest_next)
    next
      case (Some s)
      show ?thesis
      proof (cases "lookup_step (GetDestIP p) l s")
        case None
        with \<open>lookup_result l = None\<close> Some stage show ?thesis by (simp add: outgoing_rest_next lookup_rest_next)
      next
        case (Some r)
        then obtain l' s' where r: "lookup_step (GetDestIP p) l s = Some (l', s')" by (cases r) simp
        have "outgoing_rest io lib intn now now' msgs (OLooking p prot l') (proxy\<lparr>environment := s'\<rparr>) =
          do { (es, e) \<leftarrow> lookup_rest (GetDestIP p) (msgs (GetDestIP p)) l' s';
               outgoing_rest io lib intn now now' msgs (OLooking p prot (LReturn es)) (proxy\<lparr>environment := e\<rparr>) }"
          using 1 [OF \<open>lookup_result l = None\<close> \<open>while_waiting _ l _ = Some s\<close> r, of l' "proxy\<lparr>environment := s'\<rparr>"]
          by simp
        then show ?thesis using \<open>lookup_result l = None\<close> \<open>while_waiting _ l _ = Some s\<close> r stage
          by (simp add: outgoing_rest_next lookup_rest_next)
      qed
    qed
  qed
qed

text \<open>The stages after the lookup are the translation and the forwarding.\<close>

lemma choose_stages:
  "choose_conversion intn now now' es inst p (src_port (Some prot)) (dst_port (Some prot)) c =
    do { (found, c) \<leftarrow> RetrieveByServiceIP now (GetSrcIP p) inst (src_port (Some prot)) (GetDestIP p) (dst_port (Some prot)) c;
         (if must_choose found es then outgoing_choice intn now' es inst p prot c else Some (the found, c)) }"
  unfolding choose_conversion_def outgoing_choice_def Let_def ..

definition outgoing_send :: "'u netio \<Rightarrow> ('d, 'z) gopacket_scheme \<Rightarrow> NetworkLayerPacket \<Rightarrow> TransportLayerProtocol \<Rightarrow>
    ConversionEntry \<Rightarrow> ('w node, 'u, 'd) GoProxyTunnel \<Rightarrow> (incomingMessage option \<times> ('w node, 'u, 'd) GoProxyTunnel) option" where
  "outgoing_send io lib p prot entry proxy =
     do {
       (pkt, p') \<leftarrow> SerializePacket lib p (dstip entry) (srcInstanceIp entry) (Some prot);
       Some (case pkt of
           None \<Rightarrow> (None, proxy)
         | Some pkt \<Rightarrow>
             (case locateRemoteAddress here (GetDestIP p') (environment proxy) of
                (dstHost, dstPort) \<Rightarrow> forward io lib dstHost dstPort pkt 0 proxy))
     }"

lemma outgoing_rest_converted:
  "outgoing_rest io lib intn now now' msgs (OConverted p prot entry) proxy = outgoing_send io lib p prot entry proxy"
proof (cases "SerializePacket lib p (dstip entry) (srcInstanceIp entry) (Some prot)")
  case None
  then show ?thesis by (simp add: outgoing_rest_next outgoing_send_def)
next
  case (Some r)
  obtain pkt p' where r: "r = (pkt, p')" by fastforce
  show ?thesis
  proof (cases pkt)
    case None
    with Some r show ?thesis by (simp add: outgoing_rest_next outgoing_send_def)
  next
    case (Some x)
    obtain h port where l: "locateRemoteAddress here (GetDestIP p') (environment proxy) = (h, port)" by fastforce
    obtain m proxy1 where f: "forward io lib h port x 0 proxy = (m, proxy1)" by fastforce
    from \<open>SerializePacket _ _ _ _ _ = Some r\<close> r Some l f show ?thesis
      by (cases m) (simp_all add: outgoing_rest_next outgoing_send_def)
  qed
qed

lemma outgoing_rest_identified:
  "outgoing_rest io lib intn now now' msgs (OIdentified p prot es inst) proxy =
    do { (entry, c) \<leftarrow> choose_conversion intn now now' es inst p (src_port (Some prot)) (dst_port (Some prot)) (proxycache proxy);
         outgoing_send io lib p prot entry (proxy\<lparr>proxycache := c\<rparr>) }"
proof (cases "RetrieveByServiceIP now (GetSrcIP p) inst (src_port (Some prot)) (GetDestIP p) (dst_port (Some prot)) (proxycache proxy)")
  case None
  then show ?thesis by (simp add: outgoing_rest_next choose_stages)
next
  case (Some r)
  obtain found c where r: "r = (found, c)" by fastforce
  show ?thesis
  proof (cases "must_choose found es")
    case False
    with Some r show ?thesis
      by (simp add: outgoing_rest_next [of "OIdentified _ _ _ _"] outgoing_rest_next [of "ORetrieved _ _ _ _ _"]
          choose_stages outgoing_rest_converted)
  next
    case True
    with Some r show ?thesis
      by (cases "outgoing_choice intn now' es inst p prot c")
        (auto simp: outgoing_rest_next [of "OIdentified _ _ _ _"] outgoing_rest_next [of "ORetrieved _ _ _ _ _"]
          choose_stages outgoing_rest_converted)
  qed
qed

lemma outgoing_rest_found:
  "outgoing_rest io lib intn now now' msgs (OLooking p prot (LReturn es)) proxy =
    (if length es < 1 then Some (None, proxy)
     else case convertToInstanceIp here p (environment proxy) of
         Inl err \<Rightarrow> Some (None, proxy)
       | Inr inst \<Rightarrow> outgoing_rest io lib intn now now' msgs (OIdentified p prot es inst) proxy)"
  by (simp add: outgoing_rest_next [of "OLooking _ _ _"] outgoing_rest_next [of "OFound _ _ _"] split: sum.splits)

lemma node_manager_lookups [simp]:
  "em_GetTableEntryByServiceIP (node_manager msgs) = (\<lambda>a s. GetTableEntryByServiceIP a (msgs a) s)"
  "convertToInstanceIp (node_manager msgs) = convertToInstanceIp here"
  "locateRemoteAddress (node_manager msgs) = locateRemoteAddress here"
  by (simp_all add: here_def node_manager_def convertToInstanceIp_def locateRemoteAddress_def fun_eq_iff)

definition sent_or_dropped :: "'u netio \<Rightarrow> ('d, 'z) gopacket_scheme \<Rightarrow>
    (Packet option \<times> NetworkLayerPacket) \<times> ('w node, 'u, 'd) GoProxyTunnel \<Rightarrow>
    incomingMessage option \<times> ('w node, 'u, 'd) GoProxyTunnel" where
  "sent_or_dropped io lib r =
     (case r of ((newPacket, p'), proxy) \<Rightarrow>
        (case newPacket of
           None \<Rightarrow> (None, proxy)
         | Some pkt \<Rightarrow>
             (case locateRemoteAddress here (GetDestIP p') (environment proxy) of
                (dstHost, dstPort) \<Rightarrow> forward io lib dstHost dstPort pkt 0 proxy)))"

lemma outgoing_send_alt:
  "outgoing_send io lib p prot entry proxy =
    map_option (\<lambda>r. sent_or_dropped io lib (r, proxy)) (SerializePacket lib p (dstip entry) (srcInstanceIp entry) (Some prot))"
  by (cases "SerializePacket lib p (dstip entry) (srcInstanceIp entry) (Some prot)")
    (auto simp: outgoing_send_def sent_or_dropped_def)

lemma outgoing_rest_looking:
  assumes "semanticRoutingSubnetwork proxy p"
  shows "outgoing_rest io lib intn now now' msgs (OLooking p prot LSearch) proxy =
    map_option (sent_or_dropped io lib) (outgoingProxy (node_manager msgs) lib intn now now' p (Some prot) proxy)"
proof (cases "GetTableEntryByServiceIP (GetDestIP p) (msgs (GetDestIP p)) (environment proxy)")
  case None
  with assms show ?thesis by (simp add: outgoing_rest_lookup [where l = LSearch] lookup_uninterrupted outgoingProxy_def)
next
  case (Some r)
  obtain es e where r: "r = (es, e)" by fastforce
  let ?proxy = "proxy\<lparr>environment := e\<rparr>"
  have looked: "outgoing_rest io lib intn now now' msgs (OLooking p prot LSearch) proxy =
      outgoing_rest io lib intn now now' msgs (OLooking p prot (LReturn es)) ?proxy"
    using Some r by (simp add: outgoing_rest_lookup [where l = LSearch] lookup_uninterrupted)
  show ?thesis
  proof (cases "length es < 1")
    case True
    with assms Some r looked show ?thesis
      by (simp add: outgoing_rest_found outgoingProxy_def sent_or_dropped_def)
  next
    case False
    show ?thesis
    proof (cases "convertToInstanceIp here p e")
      case (Inl err)
      with False assms Some r looked show ?thesis
        by (simp add: outgoing_rest_found outgoingProxy_def sent_or_dropped_def)
    next
      case (Inr inst)
      let ?choose = "choose_conversion intn now now' es inst p (src_port (Some prot)) (dst_port (Some prot)) (proxycache proxy)"
      have out: "outgoingProxy (node_manager msgs) lib intn now now' p (Some prot) proxy =
          do { (entry, c) \<leftarrow> ?choose; (pkt, p') \<leftarrow> SerializePacket lib p (dstip entry) (srcInstanceIp entry) (Some prot);
               Some ((pkt, p'), ?proxy\<lparr>proxycache := c\<rparr>) }"
        using False assms Some r Inr by (simp add: outgoingProxy_def)
      have rest: "outgoing_rest io lib intn now now' msgs (OLooking p prot LSearch) proxy =
          do { (entry, c) \<leftarrow> ?choose; outgoing_send io lib p prot entry (?proxy\<lparr>proxycache := c\<rparr>) }"
        using False Inr looked by (simp add: outgoing_rest_found outgoing_rest_identified)
      show ?thesis
      proof (cases ?choose)
        case None
        then show ?thesis unfolding out rest by simp
      next
        case (Some q)
        then show ?thesis unfolding out rest outgoing_send_alt
          by (cases q; cases "SerializePacket lib p (dstip (fst q)) (srcInstanceIp (fst q)) (Some prot)") auto
      qed
    qed
  qed
qed

lemma stages_run:
  assumes "outgoingChannel proxy = m # rest"
  shows "do { (pc, proxy) \<leftarrow> outgoing_stage io lib intn now OIdle proxy;
              outgoing_rest io lib intn now now' msgs pc proxy } =
    handle_outgoing (node_manager msgs) io lib intn now now' m (proxy\<lparr>outgoingChannel := rest\<rparr>)"
proof (cases "decodePacket lib (outgoing_content m) (defragger proxy)")
  case None
  with assms show ?thesis by (simp add: outgoing_receive_def handle_outgoing_def)
next
  case (Some r)
  obtain decoded d where r: "r = (decoded, d)" by fastforce
  let ?proxy = "proxy\<lparr>outgoingChannel := rest, defragger := d\<rparr>"
  show ?thesis
  proof (cases "\<exists>p prot. decoded = Some (p, Some prot)")
    case False
    with assms Some r show ?thesis
      by (auto simp: outgoing_receive_def handle_outgoing_def Let_def split: option.splits)
  next
    case True
    then obtain p prot where p: "decoded = Some (p, Some prot)" by blast
    show ?thesis
    proof (cases "semanticRoutingSubnetwork ?proxy p")
      case True
      with assms Some r p show ?thesis
        by (cases "outgoingProxy (node_manager msgs) lib intn now now' p (Some prot) ?proxy")
          (auto simp: outgoing_receive_def handle_outgoing_def outgoing_rest_looking sent_or_dropped_def split: option.splits prod.splits)
    next
      case False
      with assms Some r p show ?thesis
        by (simp add: outgoing_receive_def handle_outgoing_def outgoingProxy_def)
    qed
  qed
qed


section \<open>What the stages keep\<close>

text \<open>
  The entries the handler works with serve the destination of the packet; the conversion leads to one of
  them, whichever way it was found, and so does the packet that is sent.
\<close>

fun pc_ok :: "outgoing_pc \<Rightarrow> bool" where
  "pc_ok (OLooking p prot l) \<longleftrightarrow> lookup_found (GetDestIP p) l"
| "pc_ok (OFound p prot es) \<longleftrightarrow> es \<noteq> [] \<and> (\<forall>x \<in> set es. serves (GetDestIP p) x \<and> isValid x)"
| "pc_ok (OIdentified p prot es inst) \<longleftrightarrow> es \<noteq> [] \<and> (\<forall>x \<in> set es. serves (GetDestIP p) x \<and> isValid x)"
| "pc_ok (ORetrieved p prot es inst found) \<longleftrightarrow> es \<noteq> [] \<and> (\<forall>x \<in> set es. serves (GetDestIP p) x \<and> isValid x)"
| "pc_ok (OConverted p prot f) \<longleftrightarrow> (\<exists>x. serves (GetDestIP p) x \<and> isValid x \<and> nsip_matches (dstip f) x)"
| "pc_ok (OSerialized pkt dst) \<longleftrightarrow> (\<exists>a x. serves a x \<and> isValid x \<and> nsip_matches dst x)"
| "pc_ok (OBlocked msg) \<longleftrightarrow> incoming_content msg \<noteq> []"
| "pc_ok _ \<longleftrightarrow> True"

lemma receive_ok:
  assumes "system_ok ok proxy"
  shows "\<exists>pc' proxy'. outgoing_receive lib proxy = Some (pc', proxy') \<and> system_ok ok proxy' \<and> pc_ok pc'"
proof (cases "outgoingChannel proxy")
  case Nil
  with assms show ?thesis by (simp add: outgoing_receive_def)
next
  case (Cons m rest)
  with assms have "outgoing_content m \<noteq> []" by (simp add: system_ok_def channels_ok_def)
  from decode_total [OF this, of lib "defragger proxy"] obtain decoded d where
    d: "decodePacket lib (outgoing_content m) (defragger proxy) = Some (decoded, d)" by blast
  have "system_ok ok (proxy\<lparr>outgoingChannel := rest, defragger := d\<rparr>)"
    using assms Cons by (simp add: system_ok_def proxy_ok_def channels_ok_def)
  with Cons d show ?thesis
    by (simp add: outgoing_receive_def Let_def split: option.splits)
qed

lemma choice_ok:
  assumes "cache_safe c" "es \<noteq> []" "fair_choice intn"
  shows "\<exists>f c'. outgoing_choice intn now es inst p prot c = Some (f, c') \<and> cache_safe c' \<and>
    (\<exists>x \<in> set es. nsip_matches (dstip f) x)"
proof -
  let ?x = "es ! intn (length es)"
  let ?f = "new_conversion ?x inst p (src_port (Some prot)) (dst_port (Some prot))"
  have i: "intn (length es) < length es" using assms(2,3) by (simp add: fair_choice_def)
  have "port_ok (srcport ?f)" by (simp add: new_conversion_def src_port_def)
  from Add_safe [OF assms(1) this, of now] obtain c' where
    "ProxyCache_Add now ?f c = Some c'" "cache_safe c'" by blast
  moreover have "nsip_matches (dstip ?f) ?x" by (simp add: new_conversion_def nsip_matches_def)
  moreover have "?x \<in> set es" using i by simp
  ultimately show ?thesis using i
    by (auto simp: outgoing_choice_def new_conversion_def Let_def)
qed

lemma retrieve_flow_safe:
  assumes "cache_safe c"
  shows "\<exists>r c'. RetrieveByServiceIP now sip inst (src_port (Some prot)) dst dport c = Some (r, c') \<and> cache_safe c'"
  using retrieve_safe [OF assms] by (simp add: RetrieveByServiceIP_def src_port_def)

context node_invariant
begin

lemma looking_ok:
  assumes "system_ok ok proxy" "pc_ok (OLooking p prot l)"
  shows "\<exists>pc' proxy'. outgoing_stage io lib intn now (OLooking p prot l) proxy = Some (pc', proxy') \<and>
    system_ok ok proxy' \<and> pc_ok pc'"
proof (cases "lookup_result l")
  case None
  then have stage: "outgoing_stage io lib intn now (OLooking p prot l) proxy =
      do { (l, e) \<leftarrow> lookup_step (GetDestIP p) l (environment proxy); Some (OLooking p prot l, proxy\<lparr>environment := e\<rparr>) }"
    by (cases l) simp_all
  have "ok (environment proxy)" "lookup_found (GetDestIP p) l"
    using assms by (simp_all add: system_ok_def proxy_ok_def)
  from lookup_step_ok [OF this] obtain l' e where
    "lookup_step (GetDestIP p) l (environment proxy) = Some (l', e)" "ok e" "lookup_found (GetDestIP p) l'" by blast
  with assms stage show ?thesis by (simp add: system_ok_def proxy_ok_def channels_ok_def)
next
  case (Some es)
  then have "l = LReturn es" by (cases l) simp_all
  with assms show ?thesis by (simp add: Suc_le_eq)
qed

lemma sending_ok:
  assumes "system_ok ok proxy" "serializes lib"
  shows "\<exists>pc' proxy'. outgoing_stage io lib intn now (OSending h port pkt) proxy = Some (pc', proxy') \<and>
    system_ok ok proxy' \<and> pc_ok pc'"
proof -
  obtain r proxy1 where f: "forward io lib h port pkt 0 proxy = (r, proxy1)" by fastforce
  from assms(1) have "channels_ok proxy" by (simp add: system_ok_def)
  from forward_ok [OF assms(2) this f] assms(1) f show ?thesis
    by (cases r) (simp_all add: system_ok_def proxy_ok_def)
qed

lemma outgoing_stage_ok:
  assumes "system_ok ok proxy" "pc_ok pc" "fair_choice intn" "serializes lib"
  shows "\<exists>pc' proxy'. outgoing_stage io lib intn now pc proxy = Some (pc', proxy') \<and>
    system_ok ok proxy' \<and> pc_ok pc'"
proof (cases pc)
  case OIdle
  with receive_ok [OF assms(1)] show ?thesis by simp
next
  case (OLooking p prot l)
  with looking_ok [OF assms(1)] assms(2) show ?thesis by simp
next
  case (OFound p prot es)
  with assms show ?thesis by (auto split: sum.splits)
next
  case (OIdentified p prot es inst)
  from assms(1) have "cache_safe (proxycache proxy)" by (simp add: system_ok_def proxy_ok_def)
  from retrieve_flow_safe [OF this, of now "GetSrcIP p" inst prot "GetDestIP p" "dst_port (Some prot)"] OIdentified assms(1,2)
  show ?thesis by (auto simp: system_ok_def proxy_ok_def channels_ok_def)
next
  case (ORetrieved p prot es inst found)
  from assms(1) have c: "cache_safe (proxycache proxy)" by (simp add: system_ok_def proxy_ok_def)
  from assms(2) ORetrieved have es: "es \<noteq> []" "\<forall>x \<in> set es. serves (GetDestIP p) x \<and> isValid x" by simp_all
  show ?thesis
  proof (cases "must_choose found es")
    case True
    from choice_ok [OF c es(1) assms(3), of now inst p prot] obtain f c' x where
      "outgoing_choice intn now es inst p prot (proxycache proxy) = Some (f, c')" "cache_safe c'" "x \<in> set es"
      "nsip_matches (dstip f) x" by blast
    with True ORetrieved es assms(1) show ?thesis by (auto simp: system_ok_def proxy_ok_def channels_ok_def)
  next
    case False
    then obtain f x where "found = Some f" "x \<in> set es" "nsip_matches (dstip f) x"
      by (auto simp: must_choose_def IsNamespaceStillValid_iff split: option.splits)
    with False ORetrieved es assms(1) show ?thesis by auto
  qed
next
  case (OConverted p prot f)
  with assms(1,2) show ?thesis by (auto simp: SerializePacket_Some split: option.splits)
next
  case (OSending h port pkt)
  with sending_ok [OF assms(1,4)] show ?thesis by simp
next
  case (OBlocked msg)
  with assms(1,2) show ?thesis by (auto simp: send_incoming_def system_ok_def proxy_ok_def channels_ok_def)
qed (use assms in \<open>auto split: prod.splits\<close>)

end

end
