(* ===== verification/ProxySetup.thy ===== *)
theory ProxySetup
  imports ProxyTunnel Kernel NetUtils
begin

text \<open>
  \<open>proxy/ProxySetup.go\<close>: the configuration of the tunnel, the creation of the TUN device with its
  routes and firewall rules, and the constructor of the proxy. \<open>None\<close> is \<open>log.Fatal\<close>.
\<close>

record ProxyConfiguration =
  cfg_HostTUNDeviceName :: string
  cfg_ProxySubnetwork :: string
  cfg_ProxySubnetworkMask :: string
  cfg_TunNetIP :: string
  cfg_TunnelPort :: int
  cfg_Mtusize :: int
  cfg_TunNetIPv6 :: string
  cfg_ProxySubnetworkIPv6 :: string
  cfg_ProxySubnetworkIPv6Prefix :: int

definition defaultconfig :: ProxyConfiguration where
  "defaultconfig =
     \<lparr>cfg_HostTUNDeviceName = ''goProxyTun'', cfg_ProxySubnetwork = ''10.30.0.0'',
      cfg_ProxySubnetworkMask = ''255.255.0.0'', cfg_TunNetIP = ''10.19.1.254'', cfg_TunnelPort = 50103,
      cfg_Mtusize = 1450, cfg_TunNetIPv6 = ''fcef::dead:beef'', cfg_ProxySubnetworkIPv6 = ''fc00::'',
      cfg_ProxySubnetworkIPv6Prefix = 7\<rparr>"

definition Configuration_String :: "ProxyConfiguration \<Rightarrow> string" where
  "Configuration_String c =
     (let nl = [CHR 0x0A] in
      ''HostTUNDeviceName: '' @ cfg_HostTUNDeviceName c @ nl @
      ''TunnelIP: '' @ cfg_TunNetIP c @ nl @
      ''ProxySubnetwork: '' @ cfg_ProxySubnetwork c @ nl @
      ''ProxySubnetworkMask: '' @ cfg_ProxySubnetworkMask c @ nl @
      ''TunnelPort: '' @ Itoa (cfg_TunnelPort c) @ nl @
      ''MTUSize: '' @ Itoa (cfg_Mtusize c) @ nl @
      ''TunNetIPv6: '' @ cfg_TunNetIPv6 c @ nl @
      ''ProxySubnetworkIPv6: '' @ cfg_ProxySubnetworkIPv6 c @ nl @
      ''ProxySubnetworkIPv6Prefix: '' @ Itoa (cfg_ProxySubnetworkIPv6Prefix c) @ nl)"

text \<open>\<open>net.IPMask.String\<close>: the bytes in hexadecimal.\<close>

definition Mask_String :: "ip_mask \<Rightarrow> string" where
  "Mask_String m = (if m = [] then ''<nil>'' else concat (map hex_byte m))"

text \<open>
  Requests whose failure is fatal and requests whose failure is only logged or dropped, in the order
  of the code; \<open>ifce\<close> is the name the system gave the device.
\<close>

fun os_script :: "'w os \<Rightarrow> (bool \<times> os_call) list \<Rightarrow> 'w \<Rightarrow> 'w option" where
  "os_script os [] w = Some w"
| "os_script os ((fatal, c) # cs) w =
     (if fatal then do { w \<leftarrow> must os c w; os_script os cs w } else os_script os cs (ignoring os c w))"

definition tun_script :: "string \<Rightarrow> ('e, 'u, 'd) GoProxyTunnel \<Rightarrow> (bool \<times> os_call) list" where
  "tun_script ifce proxy =
     [(True, TunNew (HostTUNDeviceName proxy)),
      (True, Exec [''ip'', ''addr'', ''add'', tunNetIP proxy @ ''/12'', ''dev'', ifce]),
      (True, Exec [''ip'', ''addr'', ''add'', tunNetIPv6 proxy @ ''/7'', ''dev'', ifce]),
      (True, Exec [''ip'', ''link'', ''set'', ''dev'', ifce, ''up'']),
      (False, Exec [''echo'', ''0'', ''>'', ''/proc/sys/net/ipv4/conf/'' @ ifce @ ''/rp_filter'']),
      (True, Exec [''ip'', ''link'', ''set'', ''dev'', ifce, ''mtu'', tun_mtusize proxy]),
      (False, Exec [''ip'', ''route'', ''add'', ''10.30.0.0/12'', ''dev'', ifce]),
      (False, Exec [''ip'', ''route'', ''add'', IP_String (net_IP (ProxyIPv6Subnetwork proxy)) @
         Mask_String (net_Mask (ProxyIPv6Subnetwork proxy)), ''dev'', ifce]),
      (True, Exec [''iptables'', ''-A'', ''INPUT'', ''-i'', ''tun0'', ''-m'', ''state'',
         ''--state'', ''RELATED,ESTABLISHED'', ''-j'', ''ACCEPT'']),
      (True, Exec [''ip6tables'', ''-A'', ''INPUT'', ''-i'', ''tun0'', ''-m'', ''state'',
         ''--state'', ''RELATED,ESTABLISHED'', ''-j'', ''ACCEPT'']),
      (True, UdpResolve ('':'' @ Itoa (TunnelPort proxy))),
      (True, UdpListen ('':'' @ Itoa (TunnelPort proxy))),
      (True, UdpSetReadBuffer BUFFER_SIZE)]"

definition createTun :: "'w os \<Rightarrow> string \<Rightarrow> ('e, 'u, 'd) GoProxyTunnel \<Rightarrow> 'w \<Rightarrow>
    (('e, 'u, 'd) GoProxyTunnel \<times> 'w) option" where
  "createTun os ifce proxy w =
     do { w \<leftarrow> os_script os (tun_script ifce proxy) w; Some (proxy\<lparr>HostTUNDeviceName := ifce\<rparr>, w) }"

definition cidr_mask :: "int \<Rightarrow> ip_mask" where
  "cidr_mask ones = (if ones < 0 then [] else CIDRMask (nat ones) 128)"

text \<open>The proxy before its device exists; \<open>e\<close> is the environment until \<open>SetEnvironment\<close> sets it.\<close>

definition configured_proxy :: "ProxyConfiguration \<Rightarrow> 'e \<Rightarrow> 'u \<Rightarrow> 'd \<Rightarrow> ('e, 'u, 'd) GoProxyTunnel" where
  "configured_proxy tunconfig e u d =
     \<lparr>environment = e, incomingChannel = [], connectionBuffer = [], outgoingChannel = [],
      HostTUNDeviceName = cfg_HostTUNDeviceName tunconfig, tunNetIPv6 = cfg_TunNetIPv6 tunconfig,
      tunNetIP = cfg_TunNetIP tunconfig, tun_mtusize = Itoa (cfg_Mtusize tunconfig),
      ProxyIpSubnetwork = \<lparr>net_IP = ParseIP (cfg_ProxySubnetwork tunconfig),
        net_Mask = ip_bytes (To4 (ParseIP (cfg_ProxySubnetworkMask tunconfig)))\<rparr>,
      ProxyIPv6Subnetwork = \<lparr>net_IP = ParseIP (cfg_ProxySubnetworkIPv6 tunconfig),
        net_Mask = cidr_mask (cfg_ProxySubnetworkIPv6Prefix tunconfig)\<rparr>,
      localIP = None, proxycache = NewProxyCache, TunnelPort = cfg_TunnelPort tunconfig,
      isListening = False, defragger = d, io_state = u\<rparr>"

text \<open>\<open>local\<close> is the answer of \<open>GetLocalIPandIface\<close>, \<open>None\<close> when it ends the process.\<close>

definition NewCustomProxy :: "'w os \<Rightarrow> string \<Rightarrow> (string \<times> string) option \<Rightarrow> ProxyConfiguration \<Rightarrow>
    'e \<Rightarrow> 'u \<Rightarrow> 'd \<Rightarrow> 'w \<Rightarrow> (('e, 'u, 'd) GoProxyTunnel \<times> 'w) option" where
  "NewCustomProxy os ifce local_ip configuration e u d w =
     do {
       (proxy, w) \<leftarrow> createTun os ifce (configured_proxy configuration e u d) w;
       (ipstring, _) \<leftarrow> local_ip;
       Some (proxy\<lparr>localIP := ParseIP ipstring\<rparr>, w)
     }"

text \<open>\<open>decode\<close> is the JSON decoder on the configuration file: it overwrites what the file sets.\<close>

definition NewProxy :: "'w os \<Rightarrow> string \<Rightarrow> (string \<times> string) option \<Rightarrow>
    (ProxyConfiguration \<Rightarrow> error option \<times> ProxyConfiguration) \<Rightarrow>
    'e \<Rightarrow> 'u \<Rightarrow> 'd \<Rightarrow> 'w \<Rightarrow> (('e, 'u, 'd) GoProxyTunnel \<times> 'w) option" where
  "NewProxy os ifce local_ip decode e u d w =
     NewCustomProxy os ifce local_ip (snd (decode defaultconfig)) e u d w"

definition SetEnvironment :: "'e \<Rightarrow> ('e, 'u, 'd) GoProxyTunnel \<Rightarrow> ('e, 'u, 'd) GoProxyTunnel" where
  "SetEnvironment e proxy = proxy\<lparr>environment := e\<rparr>"

text \<open>Listening starts once; the listeners set the flag.\<close>

definition Listen :: "('e, 'u, 'd) GoProxyTunnel \<Rightarrow> ('e, 'u, 'd) GoProxyTunnel" where
  "Listen proxy = (if \<not> isListening proxy then proxy\<lparr>isListening := True\<rparr> else proxy)"

section \<open>The default service subnetworks\<close>

lemma default_masks:
  "net_Mask (ProxyIpSubnetwork (configured_proxy defaultconfig e u d)) = [255, 255, 0, 0]"
  "net_IP (ProxyIpSubnetwork (configured_proxy defaultconfig e u d)) = IPv4 10 30 0 0"
proof -
  have "ParseIP (dotted [255, 255, 0, 0]) = IPv4 255 255 0 0" by (rule ParseIP_dotted)
  moreover have "dotted [255, 255, 0, 0] = ''255.255.0.0''" by (simp add: dotted_def itoa.simps digit_char_def)
  moreover have "ParseIP (dotted [10, 30, 0, 0]) = IPv4 10 30 0 0" by (rule ParseIP_dotted)
  moreover have "dotted [10, 30, 0, 0] = ''10.30.0.0''" by (simp add: dotted_def itoa.simps digit_char_def)
  ultimately show "net_Mask (ProxyIpSubnetwork (configured_proxy defaultconfig e u d)) = [255, 255, 0, 0]"
    "net_IP (ProxyIpSubnetwork (configured_proxy defaultconfig e u d)) = IPv4 10 30 0 0"
    by (simp_all add: configured_proxy_def defaultconfig_def ip_bytes_def)
qed

lemma zeros15: "replicate 15 (0 :: byte) = [0, 0, 0, 0, 0, 0, 0, 0, 0, 0, 0, 0, 0, 0, 0]"
  by (simp add: numeral_eq_Suc)

lemma zeros14: "replicate 14 (0 :: byte) = [0, 0, 0, 0, 0, 0, 0, 0, 0, 0, 0, 0, 0, 0]"
  by (simp add: numeral_eq_Suc)

lemma upt16: "[0 ..< 16] = [0, 1, 2, 3, 4, 5, 6, 7, 8, 9, 10, 11, 12, 13, 14, 15]"
  by (simp add: upt_conv_Cons)

lemma default_ip6: "ParseIP ''fc00::'' = Some (0xfc # replicate 15 0)"
  unfolding zeros15
  by (simp add: ParseIP_def ip_sep_def parseIPv6_def parse6_loop.simps hex_val_def parse6_finish_def
      be_bytes2 zeros14)

lemma default_mask6: "CIDRMask 7 128 = 0xfe # replicate 15 0"
  unfolding zeros15 by (simp add: CIDRMask_def upt16)

lemma and_255: "b AND 255 = b" for b :: byte
proof -
  have "(255 :: byte) = - 1" by simp
  then show ?thesis by (simp only: and.right_neutral)
qed

lemma masked_equal4:
  "IP_Equal (Some [10, 30, 0, 0]) (IP_Mask a [255, 255, 0, 0]) \<longleftrightarrow> (\<exists>c d. To4 a = Some [10, 30, c, d])"
proof (cases "To4 a")
  case None
  then have "IP_Mask a [255, 255, 0, 0] = None"
    by (auto simp: To4_def IP_Mask_def Let_def ip_bytes_def split: if_splits option.splits)
  with None show ?thesis by (simp add: IP_Equal_def ip_bytes_def)
next
  case (Some x)
  then obtain a1 a2 a3 a4 where x: "x = [a1, a2, a3, a4]" using To4_Some_length list_length4 by blast
  have "IP_Mask a [255, 255, 0, 0] = Some [a1, a2, 0, 0]"
    using Some x by (auto simp: and_255 To4_def IP_Mask_def Let_def ip_bytes_def split: if_splits option.splits)
  with Some x show ?thesis by (auto simp: IP_Equal_def ip_bytes_def)
qed

lemma cons12: "replicate 12 x = x # replicate 11 x"
  by (simp add: numeral_eq_Suc)

lemma and_zeros: "map2 (AND) xs (replicate (length xs) 0) = replicate (length xs) (0 :: byte)"
  by (induction xs) simp_all

lemma masked_equal6:
  "IP_Equal (Some (0xfc # replicate 15 0)) (IP_Mask a (0xfe # replicate 15 0)) \<longleftrightarrow>
    (\<exists>b rest. ip_bytes a = b # rest \<and> length rest = 15 \<and> b AND 0xfe = 0xfc)"
proof (cases "\<exists>b rest. ip_bytes a = b # rest \<and> length rest = 15")
  case True
  then obtain b rest where a: "ip_bytes a = b # rest" "length rest = 15" by blast
  have "IP_Mask a (0xfe # replicate 15 0) = Some ((b AND 0xfe) # replicate 15 0)"
    using a and_zeros [of rest] by (simp add: IP_Mask_def Let_def)
  with a show ?thesis by (auto simp: IP_Equal_def ip_bytes_def)
next
  case False
  then have "length (ip_bytes a) \<noteq> 16" by (cases "ip_bytes a") auto
  then have "IP_Mask a (0xfe # replicate 15 0) = None"
    by (auto simp: IP_Mask_def Let_def zeros15 cons12)
  with False show ?thesis by (auto simp: IP_Equal_def ip_bytes_def)
qed

lemma configured_subnetworks:
  "ProxyIpSubnetwork (configured_proxy defaultconfig e u d) = \<lparr>net_IP = IPv4 10 30 0 0, net_Mask = [255, 255, 0, 0]\<rparr>"
  "ProxyIPv6Subnetwork (configured_proxy defaultconfig e u d) =
    \<lparr>net_IP = Some (0xfc # replicate 15 0), net_Mask = 0xfe # replicate 15 0\<rparr>"
  using default_masks [of e u d]
  by (simp_all add: configured_proxy_def defaultconfig_def default_ip6 cidr_mask_def default_mask6)

lemma NewCustomProxy_fields:
  assumes "NewCustomProxy os ifce local_ip cfg e u d w = Some (proxy, w')"
  shows "ProxyIpSubnetwork proxy = ProxyIpSubnetwork (configured_proxy cfg e u d)"
    "ProxyIPv6Subnetwork proxy = ProxyIPv6Subnetwork (configured_proxy cfg e u d)"
    "environment proxy = e" "proxycache proxy = NewProxyCache"
    "incomingChannel proxy = []" "outgoingChannel proxy = []" "io_state proxy = u" "defragger proxy = d"
  using assms by (auto simp: NewCustomProxy_def createTun_def bind_eq_Some_conv configured_proxy_def)

text \<open>
  C13: With the default configuration the test of the service subnetworks is the test of a few bits:
  the proxy translates exactly the IPv4 packets to 10.30.0.0/16 and the IPv6 packets to addresses
  whose first seven bits are those of fc00::/7.
\<close>

theorem default_service_addresses:
  assumes "NewProxy os ifce local_ip decode e u d w = Some (proxy, w')" and "snd (decode defaultconfig) = defaultconfig"
  shows "semanticRoutingSubnetwork proxy p \<longleftrightarrow>
    (GetProtocolVersion p = 4 \<and> (\<exists>c d. To4 (GetDestIP p) = Some [10, 30, c, d])) \<or>
    (GetProtocolVersion p = 6 \<and> (\<exists>b rest. ip_bytes (GetDestIP p) = b # rest \<and> length rest = 15 \<and> b AND 0xfe = 0xfc))"
proof -
  from assms have "NewCustomProxy os ifce local_ip defaultconfig e u d w = Some (proxy, w')" by (simp add: NewProxy_def)
  note f = NewCustomProxy_fields(1,2) [OF this, unfolded configured_subnetworks]
  have "IP_Mask (IPv4 10 30 0 0) [255, 255, 0, 0] = Some [10, 30, 0, 0]"
    by (simp add: IP_Mask_def ip_bytes_def IPv4_def v4InV6Prefix_def)
  moreover have "IP_Mask (Some (0xfc # replicate 15 0)) (0xfe # replicate 15 0) = Some (0xfc # replicate 15 0)"
    by (simp add: IP_Mask_def ip_bytes_def zeros15)
  ultimately show ?thesis
    by (auto simp: semanticRoutingSubnetwork_def in_subnetwork_def f masked_equal4 masked_equal6 Let_def)
qed

theorem default_service_addresses_witness:
  "\<exists>proxy w'. NewProxy log_os ''goProxyTun'' (Some (''10.0.0.2'', ''eth0'')) (\<lambda>c. (Some ''EOF'', c)) () () () [] =
      Some (proxy, w') \<and> semanticRoutingSubnetwork proxy (IPv4Packet sample_header)"
proof -
  let ?new = "NewProxy log_os ''goProxyTun'' (Some (''10.0.0.2'', ''eth0'')) (\<lambda>c. (Some ''EOF'', c)) () () () []"
  obtain proxy w' where n: "?new = Some (proxy, w')"
    by (simp add: NewProxy_def NewCustomProxy_def createTun_def tun_script_def must_def log_os_def)
  have "semanticRoutingSubnetwork proxy (IPv4Packet sample_header)"
    using default_service_addresses [OF n, of "IPv4Packet sample_header"]
    by (simp add: sample_header_def GetDestIP_def GetProtocolVersion_def)
  with n show ?thesis by blast
qed

end
