(* ===== verification/ProxySystem.thy ===== *)
theory ProxySystem
  imports ProxyStages ProxySetup
begin

text \<open>
  The running proxy of a node: the goroutines that read the TUN device and the UDP socket into the two
  channels, the two handler loops and the eviction job of the cache, interleaved in any order with
  what the rest of the node does to the environment.
\<close>

section \<open>The node as the environment of the proxy\<close>

text \<open>
  What other goroutines do to the node: anything that keeps its invariant. As the steps of the proxy see
  it, such a change has a result, where \<open>None\<close> would be a panic.
\<close>

definition node_rely :: "'w node \<Rightarrow> 'w node \<Rightarrow> bool" where
  "node_rely s s' \<longleftrightarrow> (node_ok s \<longrightarrow> node_ok s')"

definition sound_change :: "'w node \<Rightarrow> 'w node option \<Rightarrow> bool" where
  "sound_change s r \<longleftrightarrow> (\<exists>s'. r = Some s' \<and> node_rely s s')"

interpretation nm: environment_manager "node_manager msgs" node_ok node_rely for msgs
proof unfold_locales
  fix e :: "'w node" and a
  assume "node_ok e"
  from service_lookup_ok [OF this, of a "msgs a"] obtain es s' where
    "GetTableEntryByServiceIP a (msgs a) e = Some (es, s')" "node_ok s'"
    "\<forall>e \<in> set es. e \<in> set (translationTable (env_table (node_env s'))) \<and> serves a e" by blast
  then show "\<exists>es e'. em_GetTableEntryByServiceIP (node_manager msgs) a e = Some (es, e') \<and> node_ok e' \<and>
      (\<forall>x \<in> set es. serves a x \<and> isValid x)"
    by (auto simp: node_ok_def table_ok_set)
next
  show "em_GetTableEntryByNsIP (node_manager msgs) a e = Some x \<Longrightarrow> nsip_matches a x" for a e x
    by (auto simp: node_manager_def GetTableEntryByNsIP_def dest: SearchByNsIP_Some)
next
  show "node_ok e \<Longrightarrow> node_rely e e' \<Longrightarrow> node_ok e'" for e e'
    by (simp add: node_rely_def)
qed

text \<open>On a sound node a round of the outgoing handler ends, whatever responses its lookup waits for.\<close>

lemma outgoing_round_returns:
  assumes "system_ok node_ok (proxy\<lparr>outgoingChannel := rest\<rparr>)" "fair_choice intn" "serializes lib"
    and "outgoing_content m \<noteq> []"
  shows "\<exists>r proxy'. do { (pc, proxy) \<leftarrow> outgoing_stage io lib intn now OIdle (proxy\<lparr>outgoingChannel := m # rest\<rparr>);
      outgoing_rest io lib intn now now' msgs pc proxy } = Some (r, proxy') \<and> system_ok node_ok proxy'"
proof -
  have run: "do { (pc, proxy) \<leftarrow> outgoing_stage io lib intn now OIdle (proxy\<lparr>outgoingChannel := m # rest\<rparr>);
      outgoing_rest io lib intn now now' msgs pc proxy } =
    handle_outgoing (node_manager msgs) io lib intn now now' m (proxy\<lparr>outgoingChannel := rest\<rparr>)"
    using stages_run [of "proxy\<lparr>outgoingChannel := m # rest\<rparr>" m rest] by simp
  from nm.handle_outgoing_total [OF assms, of msgs io now now'] show ?thesis unfolding run by blast
qed

section \<open>Steps\<close>

record ('e, 'u, 'd) proxy_system =
  the_proxy :: "('e, 'u, 'd) GoProxyTunnel"
  sender :: outgoing_pc
  crashed :: bool

text \<open>
  \<open>change\<close> says what the rest of the node may do to the environment, \<open>read\<close> what the TUN device and the
  socket may deliver. The outgoing handler, whose place is \<open>sender\<close>, moves by the stages of \<open>ProxyStages\<close>; the
  ingoing handler uses what is shared once, so that its round is one step.
\<close>

inductive proxy_step ::
  "('w node \<Rightarrow> 'w node option \<Rightarrow> bool) \<Rightarrow> (byte list \<Rightarrow> bool) \<Rightarrow> 'u netio \<Rightarrow> ('d, 'z) gopacket_scheme \<Rightarrow>
    ('w node, 'u, 'd) proxy_system \<Rightarrow> ('w node, 'u, 'd) proxy_system \<Rightarrow> bool"
  for change read io lib where
  ifaceread: "\<not> crashed s \<Longrightarrow> length (outgoingChannel (the_proxy s)) < channel_size \<Longrightarrow> read b \<Longrightarrow>
    proxy_step change read io lib s (s\<lparr>the_proxy := (the_proxy s)\<lparr>outgoingChannel :=
      outgoingChannel (the_proxy s) @ [\<lparr>outgoing_content = b\<rparr>]\<rparr>\<rparr>)"
| udpread: "\<not> crashed s \<Longrightarrow> length (incomingChannel (the_proxy s)) < channel_size \<Longrightarrow> read b \<Longrightarrow>
    proxy_step change read io lib s (s\<lparr>the_proxy := (the_proxy s)\<lparr>incomingChannel :=
      incomingChannel (the_proxy s) @ [\<lparr>incoming_content = b, from_IP = peer, from_Port = port\<rparr>]\<rparr>\<rparr>)"
| outgoing: "\<not> crashed s \<Longrightarrow> fair_choice intn \<Longrightarrow>
    outgoing_stage io lib intn now (sender s) (the_proxy s) = Some (pc, p) \<Longrightarrow>
    proxy_step change read io lib s (s\<lparr>the_proxy := p, sender := pc\<rparr>)"
| outgoing_panic: "\<not> crashed s \<Longrightarrow> fair_choice intn \<Longrightarrow>
    outgoing_stage io lib intn now (sender s) (the_proxy s) = None \<Longrightarrow>
    proxy_step change read io lib s (s\<lparr>crashed := True\<rparr>)"
| ingoing: "\<not> crashed s \<Longrightarrow> incomingChannel (the_proxy s) = m # rest \<Longrightarrow>
    handle_ingoing io lib now m ((the_proxy s)\<lparr>incomingChannel := rest\<rparr>) = Some p \<Longrightarrow>
    proxy_step change read io lib s (s\<lparr>the_proxy := p\<rparr>)"
| ingoing_panic: "\<not> crashed s \<Longrightarrow> incomingChannel (the_proxy s) = m # rest \<Longrightarrow>
    handle_ingoing io lib now m ((the_proxy s)\<lparr>incomingChannel := rest\<rparr>) = None \<Longrightarrow>
    proxy_step change read io lib s (s\<lparr>crashed := True\<rparr>)"
| evict: "\<not> crashed s \<Longrightarrow>
    proxy_step change read io lib s (s\<lparr>the_proxy := (the_proxy s)\<lparr>proxycache :=
      evictOldEntries now timeout (proxycache (the_proxy s))\<rparr>\<rparr>)"
| environment_step: "\<not> crashed s \<Longrightarrow> change (environment (the_proxy s)) (Some e) \<Longrightarrow>
    proxy_step change read io lib s (s\<lparr>the_proxy := (the_proxy s)\<lparr>environment := e\<rparr>\<rparr>)"
| environment_panic: "\<not> crashed s \<Longrightarrow> change (environment (the_proxy s)) None \<Longrightarrow>
    proxy_step change read io lib s (s\<lparr>crashed := True\<rparr>)"

definition starting :: "('e, 'u, 'd) GoProxyTunnel \<Rightarrow> ('e, 'u, 'd) proxy_system" where
  "starting p = \<lparr>the_proxy = p, sender = OIdle, crashed = False\<rparr>"

inductive proxy_reachable ::
  "('w node \<Rightarrow> 'w node option \<Rightarrow> bool) \<Rightarrow> (byte list \<Rightarrow> bool) \<Rightarrow> 'u netio \<Rightarrow> ('d, 'z) gopacket_scheme \<Rightarrow>
    ('w node, 'u, 'd) GoProxyTunnel \<Rightarrow> ('w node, 'u, 'd) proxy_system \<Rightarrow> bool"
  for change read io lib p0 where
  start: "proxy_reachable change read io lib p0 (starting p0)"
| step: "proxy_reachable change read io lib p0 s \<Longrightarrow> proxy_step change read io lib s s' \<Longrightarrow> proxy_reachable change read io lib p0 s'"

definition running_ok :: "('w node \<Rightarrow> bool) \<Rightarrow> ('w node, 'u, 'd) proxy_system \<Rightarrow> bool" where
  "running_ok ok s \<longleftrightarrow> \<not> crashed s \<and> system_ok ok (the_proxy s) \<and> pc_ok (sender s)"

lemma system_ok_take:
  "system_ok ok p \<Longrightarrow> incomingChannel p = n # rest' \<Longrightarrow>
    system_ok ok (p\<lparr>incomingChannel := rest'\<rparr>) \<and> incoming_content n \<noteq> []"
  by (simp add: system_ok_def proxy_ok_def channels_ok_def)

text \<open>A change of the rest of the node keeps the invariant of the node and is never a panic.\<close>

definition tolerated :: "('w node \<Rightarrow> bool) \<Rightarrow> ('w node \<Rightarrow> 'w node option \<Rightarrow> bool) \<Rightarrow> bool" where
  "tolerated ok change \<longleftrightarrow> (\<forall>e r. ok e \<longrightarrow> change e r \<longrightarrow> (\<exists>e'. r = Some e' \<and> ok e'))"

lemma proxy_step_ok:
  assumes "proxy_step change read io lib s s'" "serializes lib" "\<And>b. read b \<Longrightarrow> b \<noteq> []" "running_ok ok s"
    and inv: "node_invariant ok" and change: "tolerated ok change"
  shows "running_ok ok s'"
proof -
  from assms(4) have ok: "\<not> crashed s" "system_ok ok (the_proxy s)" "pc_ok (sender s)" by (simp_all add: running_ok_def)
  from ok(2) have env: "ok (environment (the_proxy s))" by (simp add: system_ok_def proxy_ok_def)
  note simps = running_ok_def system_ok_def proxy_ok_def channels_ok_def
  note stage = node_invariant.outgoing_stage_ok [OF inv ok(2,3) _ assms(2), of _ io]
  from assms(1) show ?thesis
  proof cases
    case (ifaceread b)
    with assms(3,4) show ?thesis by (simp add: simps)
  next
    case (udpread b peer port)
    with assms(3,4) show ?thesis by (simp add: simps)
  next
    case (outgoing intn now pc p)
    with stage [OF outgoing(3), of now] ok show ?thesis by (simp add: running_ok_def)
  next
    case (outgoing_panic intn now)
    with stage [OF outgoing_panic(3), of now] show ?thesis by simp
  next
    case (ingoing m rest now p)
    from handle_ingoing_total [of ok "(the_proxy s)\<lparr>incomingChannel := rest\<rparr>" m io lib now] ingoing ok
      system_ok_take [OF ok(2) ingoing(3)] show ?thesis by (simp add: running_ok_def)
  next
    case (ingoing_panic m rest now)
    from handle_ingoing_total [of ok "(the_proxy s)\<lparr>incomingChannel := rest\<rparr>" m io lib now] ingoing_panic
      system_ok_take [OF ok(2) ingoing_panic(3)] show ?thesis by simp
  next
    case (evict now timeout)
    with assms(4) show ?thesis by (simp add: simps evict_safe)
  next
    case (environment_step e)
    with env change have "ok e" unfolding tolerated_def by blast
    with environment_step assms(4) show ?thesis by (simp add: simps)
  next
    case environment_panic
    with env change show ?thesis unfolding tolerated_def by blast
  qed
qed

lemma proxy_reachable_ok:
  assumes "serializes lib" "\<And>b. read b \<Longrightarrow> b \<noteq> []" "node_invariant ok" "tolerated ok change"
  shows "proxy_reachable change read io lib p0 s \<Longrightarrow> running_ok ok (starting p0) \<Longrightarrow> running_ok ok s"
  by (induction rule: proxy_reachable.induct) (use proxy_step_ok [OF _ assms(1,2) _ assms(3,4)] in blast)+

lemma sound_tolerated: "tolerated node_ok sound_change"
  by (auto simp: tolerated_def sound_change_def node_rely_def)

lemma sound_reachable_ok:
  assumes "serializes lib" "\<And>b. read b \<Longrightarrow> b \<noteq> []" "proxy_reachable sound_change read io lib p0 s"
    "running_ok node_ok (starting p0)"
  shows "running_ok node_ok s"
  by (rule proxy_reachable_ok [OF assms(1,2) ni.node_invariant_axioms sound_tolerated assms(3,4)])

section \<open>No packet stops the proxy\<close>

text \<open>The proxy as the server starts it on a node: set up, listening, then bound to the environment.\<close>

definition started_proxy :: "'e \<Rightarrow> ('e, 'u, 'd) GoProxyTunnel \<Rightarrow> ('e, 'u, 'd) GoProxyTunnel" where
  "started_proxy e proxy = SetEnvironment e (Listen proxy)"

lemma started_ok:
  assumes "NewProxy os ifce local_ip decode e0 u d w = Some (proxy, w')" "ok e"
  shows "running_ok ok (starting (started_proxy e proxy))"
proof -
  from assms(1) have "NewCustomProxy os ifce local_ip (snd (decode defaultconfig)) e0 u d w = Some (proxy, w')"
    by (simp add: NewProxy_def)
  note f = NewCustomProxy_fields [OF this]
  from assms(2) show ?thesis
    by (simp add: running_ok_def starting_def system_ok_def proxy_ok_def channels_ok_def started_proxy_def
        Listen_def SetEnvironment_def f cache_safe_New)
qed


text \<open>A node whose TUN device delivered one packet.\<close>

definition sample_running :: "(os_call list node, nat, unit) proxy_system" where
  "sample_running =
     \<lparr>the_proxy = (started_proxy log_node (fst (the (NewProxy log_os ''goProxyTun'' (Some (''10.0.0.2'', ''eth0''))
        (\<lambda>c. (Some ''EOF'', c)) log_node 0 () []))))\<lparr>outgoingChannel := [\<lparr>outgoing_content = [0x45]\<rparr>]\<rparr>,
      sender = OIdle, crashed = False\<rparr>"


end
