(* ===== verification/TwoNodes.thy ===== *)
theory TwoNodes
  imports ProxyDelivery
begin

text \<open>
  A conversation between two nodes: the handlers of both proxies composed over a network that delivers
  datagrams, from the packet that a container sends to a service address to the reply that it reads. The
  packet library is still a parameter; what is used of it is that decoding a packet it serialised gives
  the addresses, ports and payload back.
\<close>

section \<open>A network that delivers\<close>

text \<open>A connection is the index of the host it was dialled for.\<close>

record network =
  net_conns :: "string list"
  datagrams :: "(string \<times> byte list) list"
  tun_written :: "byte list list"

definition net_io :: "network netio" where
  "net_io =
     \<lparr>io_ResolveUDPAddr = (\<lambda>h u. (None, u)),
      io_DialUDP = (\<lambda>h u. (Inr (length (net_conns u)), u\<lparr>net_conns := net_conns u @ [h]\<rparr>)),
      io_SetWriteBuffer = (\<lambda>con n u. (None, u)),
      io_WriteMsgUDP = (\<lambda>con b u. (None, u\<lparr>datagrams := datagrams u @ [(net_conns u ! con, b)]\<rparr>)),
      io_Close = (\<lambda>con u. u),
      io_WriteTun = (\<lambda>b u. (None, u\<lparr>tun_written := tun_written u @ [b]\<rparr>))\<rparr>"

text \<open>The buffered connections of a proxy go to the hosts they are filed under.\<close>

definition connections_ok :: "('e, network, 'd) GoProxyTunnel \<Rightarrow> bool" where
  "connections_ok proxy \<longleftrightarrow> (\<forall>h con. map_of (connectionBuffer proxy) h = Some con \<longrightarrow>
     con < length (net_conns (io_state proxy)) \<and> net_conns (io_state proxy) ! con = h)"

lemma connections_ok_new:
  assumes "connections_ok proxy"
  shows "connections_ok (proxy\<lparr>connectionBuffer := AList.update h (length (net_conns (io_state proxy))) (connectionBuffer proxy),
    io_state := (io_state proxy)\<lparr>net_conns := net_conns (io_state proxy) @ [h]\<rparr>\<rparr>)"
  using assms by (fastforce simp: connections_ok_def update_conv nth_append)

lemma get_connection_net:
  assumes "connections_ok proxy"
  shows "\<exists>con proxy1. get_connection net_io h proxy = (Some con, proxy1) \<and> connections_ok proxy1 \<and>
    net_conns (io_state proxy1) ! con = h \<and> datagrams (io_state proxy1) = datagrams (io_state proxy) \<and>
    tun_written (io_state proxy1) = tun_written (io_state proxy) \<and>
    proxy1 = proxy\<lparr>connectionBuffer := connectionBuffer proxy1, io_state := io_state proxy1\<rparr>"
proof (cases "map_of (connectionBuffer proxy) h")
  case None
  with connections_ok_new [OF assms, of h] show ?thesis
    by (simp add: get_connection_def createUDPChannel_def net_io_def buffer_connection_def Let_def nth_append)
next
  case (Some con)
  with assms show ?thesis by (simp add: get_connection_def connections_ok_def)
qed

text \<open>What a proxy sends to another node, and what it writes to its TUN device.\<close>

lemma forward_net:
  assumes "connections_ok proxy" "\<not> IP_Equal host (localIP proxy)"
  shows "\<exists>proxy1. forward net_io lib host port pkt 0 proxy = (None, proxy1) \<and> connections_ok proxy1 \<and>
    datagrams (io_state proxy1) = datagrams (io_state proxy) @ [(hoststring_of host port, packetToByte lib pkt)] \<and>
    tun_written (io_state proxy1) = tun_written (io_state proxy) \<and>
    proxy1 = proxy\<lparr>connectionBuffer := connectionBuffer proxy1, io_state := io_state proxy1\<rparr>"
proof -
  obtain con p where c: "get_connection net_io (hoststring_of host port) proxy = (Some con, p)" "connections_ok p"
    "net_conns (io_state p) ! con = hoststring_of host port" "datagrams (io_state p) = datagrams (io_state proxy)"
    "tun_written (io_state p) = tun_written (io_state proxy)"
    "p = proxy\<lparr>connectionBuffer := connectionBuffer p, io_state := io_state p\<rparr>"
    using get_connection_net [OF assms(1)] by blast
  let ?u = "(io_state p)\<lparr>datagrams := datagrams (io_state p) @ [(hoststring_of host port, packetToByte lib pkt)]\<rparr>"
  have w: "io_WriteMsgUDP net_io con (packetToByte lib pkt) (io_state p) = (None, ?u)"
    by (simp add: net_io_def c(3))
  have "p\<lparr>io_state := ?u\<rparr> = proxy\<lparr>connectionBuffer := connectionBuffer p, io_state := ?u\<rparr>"
    by (subst c(6)) simp
  with assms c(1) w have "forward net_io lib host port pkt 0 proxy = (None, p\<lparr>io_state := ?u\<rparr>)"
    by (subst forward.simps) (simp add: Let_def)
  moreover have "connections_ok (p\<lparr>io_state := ?u\<rparr>)" using c(2) by (simp add: connections_ok_def)
  ultimately show ?thesis
    using c(4,5) \<open>p\<lparr>io_state := ?u\<rparr> = proxy\<lparr>connectionBuffer := connectionBuffer p, io_state := ?u\<rparr>\<close> by simp
qed

section \<open>What is assumed of the packet library\<close>

definition same_segment :: "TransportLayerProtocol \<Rightarrow> TransportLayerProtocol \<Rightarrow> bool" where
  "same_segment u t \<longleftrightarrow> GetProtocol u = GetProtocol t \<and> GetSourcePort u = GetSourcePort t \<and>
     GetDestPort u = GetDestPort t \<and> transport_payload u = transport_payload t"

text \<open>An address that a header of the given version can hold.\<close>

definition proper :: "byte \<Rightarrow> ip \<Rightarrow> bool" where
  "proper version a \<longleftrightarrow> (if version = 4 then To4 a \<noteq> None else \<exists>bs. a = Some bs \<and> length bs = 16)"

definition protocol_of :: "TransportLayerProtocol \<Rightarrow> byte" where
  "protocol_of t = (case t of UDPLayer l \<Rightarrow> IPProtocolUDP | TCPLayer l \<Rightarrow> IPProtocolTCP)"

definition wire_packet :: "NetworkLayerPacket \<Rightarrow> TransportLayerProtocol \<Rightarrow> bool" where
  "wire_packet p t \<longleftrightarrow>
     GetProtocolVersion p = (case layer_type p of LayerTypeIPv4 \<Rightarrow> 4 | LayerTypeIPv6 \<Rightarrow> 6) \<and>
     proper (GetProtocolVersion p) (GetSrcIP p) \<and> proper (GetProtocolVersion p) (GetDestIP p) \<and>
     GetNextHeader p = protocol_of t \<and> length (transport_payload t) \<le> 60000"

definition decode_segment :: "('d, 'z) gopacket_scheme \<Rightarrow> byte \<Rightarrow> byte list \<Rightarrow> TransportLayerProtocol" where
  "decode_segment lib protocol payload =
     (if protocol = IPProtocolUDP then UDPLayer (gp_DecodeUDP lib payload) else TCPLayer (gp_DecodeTCP lib payload))"

text \<open>
  \<open>SerializeLayers\<close> followed by \<open>NewPacket\<close>: the bytes start with the version, and decoding them gives the
  version, the protocol, the addresses and the segment back; the defragmenter accepts the header.
\<close>

definition codec :: "('d, 'z) gopacket_scheme \<Rightarrow> bool" where
  "codec lib \<longleftrightarrow> (\<forall>p t. wire_packet p t \<longrightarrow>
     (\<exists>bytes b rest h. gp_SerializeLayers lib (layer_type p) (GetLayer p) t (transport_payload t) = Inr bytes \<and>
        gp_SerializePacket lib (layer_type p, bytes) = b # rest \<and>
        b AND 0xf0 = (case layer_type p of LayerTypeIPv4 \<Rightarrow> 0x40 | LayerTypeIPv6 \<Rightarrow> 0x60) \<and>
        gp_NetworkLayer lib (layer_type p, b # rest) = Some h \<and>
        hdr_Version h = GetProtocolVersion p \<and> hdr_Protocol h = GetNextHeader p \<and>
        IP_Equal (hdr_SrcIP h) (GetSrcIP p) \<and> IP_Equal (hdr_DstIP h) (GetDestIP p) \<and>
        same_segment (decode_segment lib (hdr_Protocol h) (hdr_Payload h)) t \<and>
        (\<forall>d. \<exists>r d'. gp_DefragIPv4 lib h d = (Inr r, d'))))"

text \<open>Two packets that differ in the representation of addresses and in the other header fields only.\<close>

definition alike :: "NetworkLayerPacket \<times> TransportLayerProtocol \<Rightarrow> NetworkLayerPacket \<times> TransportLayerProtocol \<Rightarrow> bool" where
  "alike = (\<lambda>(q, u) (p, t). layer_type q = layer_type p \<and> GetProtocolVersion q = GetProtocolVersion p \<and>
     GetNextHeader q = GetNextHeader p \<and> IP_Equal (GetSrcIP q) (GetSrcIP p) \<and> IP_Equal (GetDestIP q) (GetDestIP p) \<and>
     same_segment u t)"

lemma alike_trans: "alike x y \<Longrightarrow> alike y z \<Longrightarrow> alike x z"
  by (auto simp: alike_def same_segment_def split: prod.splits intro: IP_Equal_trans)

lemma alike_sym: "alike x y \<Longrightarrow> alike y x"
  by (auto simp: alike_def same_segment_def IP_Equal_sym split: prod.splits)

lemma header_set_addresses [simp]:
  "GetProtocolVersion (set_addresses dst src p) = GetProtocolVersion p"
  "GetNextHeader (set_addresses dst src p) = GetNextHeader p"
  by (simp_all add: GetProtocolVersion_def GetNextHeader_def)

lemma alike_set_addresses: "alike (q, u) (p, t) \<Longrightarrow> alike (set_addresses dst src q, u) (set_addresses dst src p, t)"
  by (simp add: alike_def)

text \<open>The bytes of a message that is this packet, as every decoder sees it.\<close>

definition carries :: "('d, 'z) gopacket_scheme \<Rightarrow> NetworkLayerPacket \<Rightarrow> TransportLayerProtocol \<Rightarrow> byte list \<Rightarrow> bool" where
  "carries lib p t bytes \<longleftrightarrow>
     (\<forall>d. \<exists>q u d'. decodePacket lib bytes d = Some (Some (q, Some u), d') \<and> alike (q, u) (p, t))"

lemma carries_alike: "carries lib q u bytes \<Longrightarrow> alike (q, u) (p, t) \<Longrightarrow> carries lib p t bytes"
  unfolding carries_def by (meson alike_trans)

lemma same_segmentD:
  assumes "same_segment u t"
  shows "GetSourcePort u = GetSourcePort t" "GetDestPort u = GetDestPort t" "transport_payload u = transport_payload t"
    "protocol_of u = protocol_of t"
  using assms by (auto simp: same_segment_def protocol_of_def split: TransportLayerProtocol.splits)

lemma carries_serialized:
  assumes "codec lib" "wire_packet p t"
  shows "\<exists>pkt. serializeIPHeader lib p t (transport_payload t) = Some pkt \<and> carries lib p t (packetToByte lib pkt)"
proof -
  from assms obtain bytes b rest h where
    s: "gp_SerializeLayers lib (layer_type p) (GetLayer p) t (transport_payload t) = Inr bytes"
    "gp_SerializePacket lib (layer_type p, bytes) = b # rest"
    "b AND 0xf0 = (case layer_type p of LayerTypeIPv4 \<Rightarrow> 0x40 | LayerTypeIPv6 \<Rightarrow> 0x60)"
    "gp_NetworkLayer lib (layer_type p, b # rest) = Some h"
    and h: "hdr_Version h = GetProtocolVersion p" "hdr_Protocol h = GetNextHeader p"
    "IP_Equal (hdr_SrcIP h) (GetSrcIP p)" "IP_Equal (hdr_DstIP h) (GetDestIP p)"
    "same_segment (decode_segment lib (hdr_Protocol h) (hdr_Payload h)) t"
    and d: "\<And>d. \<exists>r d'. gp_DefragIPv4 lib h d = (Inr r, d')"
    unfolding codec_def by blast
  have proto: "GetNextHeader p = IPProtocolUDP \<or> GetNextHeader p = IPProtocolTCP"
    using assms(2) by (auto simp: wire_packet_def protocol_of_def split: TransportLayerProtocol.splits)
  define q where "q = (case layer_type p of LayerTypeIPv4 \<Rightarrow> IPv4Packet h | LayerTypeIPv6 \<Rightarrow> IPv6Packet h (Some []))"
  have q: "layer_type q = layer_type p" "GetLayer q = h" by (simp_all add: q_def split: LayerType.splits)
  have prot: "GetTransportLayer lib q = Some (decode_segment lib (hdr_Protocol h) (hdr_Payload h))"
    using proto h(2) q(2) by (auto simp: GetTransportLayer_eq decode_segment_def ip_protocols)
  have dec: "\<exists>d'. decodePacket lib (b # rest) d = Some (Some (q, GetTransportLayer lib q), d')" for d
  proof (cases "layer_type p")
    case LayerTypeIPv4
    with s(3,4) d [of d] show ?thesis
      by (auto simp: decodePacket_def Let_def NewGoPacket_def NewNetworkLayerPacket_def newIPv4Packet_def ip_protocols
          q_def v4_Defragment_def split: option.splits)
  next
    case LayerTypeIPv6
    have "hdr_Protocol h \<noteq> 44" using proto h(2) by (auto simp: ip_protocols)
    with LayerTypeIPv6 s(3,4) show ?thesis
      by (simp add: decodePacket_def Let_def NewGoPacket_def NewNetworkLayerPacket_def newIPv6Packet_def ip_protocols
          q_def v6_DecodeNetworkLayer_def v6_Defragment_def)
  qed
  have "carries lib p t (b # rest)"
    unfolding carries_def
  proof (intro allI)
    fix d
    from dec [of d] prot obtain d' where
      "decodePacket lib (b # rest) d = Some (Some (q, Some (decode_segment lib (hdr_Protocol h) (hdr_Payload h))), d')"
      by auto
    moreover have "alike (q, decode_segment lib (hdr_Protocol h) (hdr_Payload h)) (p, t)"
      using h q by (simp add: alike_def GetProtocolVersion_def GetNextHeader_def GetSrcIP_def GetDestIP_def)
    ultimately show "\<exists>q u d'. decodePacket lib (b # rest) d = Some (Some (q, Some u), d') \<and> alike (q, u) (p, t)"
      by blast
  qed
  with s(1,2) show ?thesis by (simp add: serializeIPHeader_def packetToByte_def)
qed

section \<open>What each handler does to the network\<close>

text \<open>A message from the TUN device leaves as one datagram; a datagram is written to the TUN device.\<close>

definition sends ::
  "'e EnvironmentManager \<Rightarrow> ('d, 'z) gopacket_scheme \<Rightarrow> (nat \<Rightarrow> nat) \<Rightarrow> int \<Rightarrow> int \<Rightarrow> byte list \<Rightarrow>
    ('e, network, 'd) GoProxyTunnel \<Rightarrow> string \<Rightarrow> byte list \<Rightarrow> ('e, network, 'd) GoProxyTunnel \<Rightarrow> bool" where
  "sends em lib intn now now' m proxy host bytes proxy1 \<longleftrightarrow>
     handle_outgoing em net_io lib intn now now' \<lparr>outgoing_content = m\<rparr> proxy = Some (None, proxy1) \<and>
     datagrams (io_state proxy1) = datagrams (io_state proxy) @ [(host, bytes)] \<and>
     tun_written (io_state proxy1) = tun_written (io_state proxy)"

definition hands_over ::
  "('d, 'z) gopacket_scheme \<Rightarrow> int \<Rightarrow> byte list \<Rightarrow> ('e, network, 'd) GoProxyTunnel \<Rightarrow> byte list \<Rightarrow>
    ('e, network, 'd) GoProxyTunnel \<Rightarrow> bool" where
  "hands_over lib now bytes proxy out proxy1 \<longleftrightarrow>
     (\<forall>peer port. handle_ingoing net_io lib now \<lparr>incoming_content = bytes, from_IP = peer, from_Port = port\<rparr> proxy =
        Some proxy1) \<and>
     tun_written (io_state proxy1) = tun_written (io_state proxy) @ [out] \<and>
     datagrams (io_state proxy1) = datagrams (io_state proxy)"

definition ns_address :: "byte \<Rightarrow> TableEntry \<Rightarrow> ip" where
  "ns_address version x = (if version = 4 then Nsip x else Nsipv6 x)"

text \<open>The addresses of a conversion are of the version of the packet.\<close>

definition proper_conversion :: "byte \<Rightarrow> ConversionEntry \<Rightarrow> bool" where
  "proper_conversion version f \<longleftrightarrow> proper version (srcip f) \<and> proper version (dstip f) \<and>
     proper version (dstServiceIp f) \<and> proper version (srcInstanceIp f)"

text \<open>
  What a packet needs to reach another node: it is translatable, its addresses, the sender's instance
  address and the namespace addresses of the service are of its version, also those of a conversion that
  is already cached, and the instances of the service are on other nodes.
\<close>

definition deliverable ::
  "'e EnvironmentManager \<Rightarrow> NetworkLayerPacket \<Rightarrow> TransportLayerProtocol \<Rightarrow> ('e, 'u, 'd) GoProxyTunnel \<Rightarrow>
    TableEntry list \<Rightarrow> 'e \<Rightarrow> ip \<Rightarrow> bool" where
  "deliverable em p t proxy es e inst \<longleftrightarrow>
     translatable em p t proxy es e inst \<and> wire_packet p t \<and> proper (GetProtocolVersion p) inst \<and>
     (\<forall>x \<in> set es. proper (GetProtocolVersion p) (ns_address (GetProtocolVersion p) x)) \<and>
     (\<forall>g. flow (proxycache proxy) (uint (GetSourcePort t)) (uint (GetDestPort t)) = Some g \<longrightarrow> cached p inst es g \<longrightarrow>
        proper_conversion (GetProtocolVersion p) g \<and>
        (\<exists>x \<in> set es. IP_Equal (dstip g) (ns_address (GetProtocolVersion p) x))) \<and>
     (\<forall>a. (\<exists>x \<in> set es. nsip_matches a x) \<longrightarrow> \<not> IP_Equal (fst (locateRemoteAddress em a e)) (localIP proxy))"

lemma outgoing_deliverable:
  assumes "deliverable em p t proxy es e inst" "intn (length es) < length es"
  shows "\<exists>f c. outgoingProxy em lib intn now now' p (Some t) proxy =
      Some ((serializeIPHeader lib (set_addresses (dstip f) (srcInstanceIp f) p) t (transport_payload t),
        set_addresses (dstip f) (srcInstanceIp f) p), proxy\<lparr>environment := e, proxycache := c\<rparr>) \<and>
    cache_ok c \<and> flow c (uint (GetSourcePort t)) (uint (GetDestPort t)) = Some f \<and> same_flow p inst f \<and>
    proper_conversion (GetProtocolVersion p) f \<and> (\<exists>x \<in> set es. nsip_matches (dstip f) x) \<and>
    (\<exists>x \<in> set es. IP_Equal (dstip f) (ns_address (GetProtocolVersion p) x))"
proof -
  let ?sp = "uint (GetSourcePort t)" and ?dp = "uint (GetDestPort t)"
  from assms(1) have tr: "translatable em p t proxy es e inst" and w: "wire_packet p t"
    and inst: "proper (GetProtocolVersion p) inst"
    and ns: "\<And>x. x \<in> set es \<Longrightarrow> proper (GetProtocolVersion p) (ns_address (GetProtocolVersion p) x)"
    and old: "\<And>g. flow (proxycache proxy) ?sp ?dp = Some g \<Longrightarrow> cached p inst es g \<Longrightarrow>
        proper_conversion (GetProtocolVersion p) g \<and>
        (\<exists>x \<in> set es. IP_Equal (dstip g) (ns_address (GetProtocolVersion p) x))"
    by (simp_all add: deliverable_def)
  from tr have a: "semanticRoutingSubnetwork proxy p"
    "em_GetTableEntryByServiceIP em (GetDestIP p) (environment proxy) = Some (es, e)" "es \<noteq> []"
    "convertToInstanceIp em p e = Inr inst" and ok: "cache_ok (proxycache proxy)" and d: "GetDestPort t \<noteq> 0"
    by (simp_all add: translatable_def)
  show ?thesis
    using ok port_ok_uint [of "GetSourcePort t"] port_positive [OF d] assms(2)
  proof (cases rule: choose_conversion_spec [where intn = intn and p = p and inst = inst and now = now and now' = now'])
    case (cached f c')
    from outgoing_chosen [OF a cached(3), of lib] cached old [OF cached(1,2)] port_positive [OF d] show ?thesis
      by (intro exI [of _ f] exI [of _ c']) (auto simp: cached_def)
  next
    case (new x c')
    let ?f = "new_conversion x inst p ?sp ?dp"
    have f: "dstip ?f = ns_address (GetProtocolVersion p) x" "srcip ?f = GetSrcIP p" "srcInstanceIp ?f = inst"
      "dstServiceIp ?f = GetDestIP p"
      by (simp_all add: new_conversion_def ns_address_def)
    then have "same_flow p inst ?f" "nsip_matches (dstip ?f) x" by (simp_all add: same_flow_def nsip_matches_def ns_address_def)
    moreover have "proper_conversion (GetProtocolVersion p) ?f"
      using w inst ns [OF new(3)] unfolding proper_conversion_def f wire_packet_def by blast
    moreover have "IP_Equal (dstip ?f) (ns_address (GetProtocolVersion p) x)" by (simp add: f)
    moreover note outgoing_chosen [OF a new(4), of lib]
    ultimately show ?thesis using new(3,5,6)
      by (intro exI [of _ ?f] exI [of _ c'] conjI bexI [of _ x])
  qed
qed

lemma wire_translated:
  "wire_packet p t \<Longrightarrow> proper (GetProtocolVersion p) dst \<Longrightarrow> proper (GetProtocolVersion p) src \<Longrightarrow>
    wire_packet (set_addresses dst src p) t"
  by (simp add: wire_packet_def)

text \<open>A deliverable packet leaves its node, translated, as one datagram to the node of the instance.\<close>

lemma sends_translated:
  assumes "codec lib" "connections_ok proxy" "decodePacket lib m (defragger proxy) = Some (Some (p, Some t), d)"
    and "deliverable em p t (proxy\<lparr>defragger := d\<rparr>) es e inst" "intn (length es) < length es"
  shows "\<exists>f req proxy1 host port. locateRemoteAddress em (dstip f) e = (host, port) \<and>
    sends em lib intn now now' m proxy (hoststring_of host port) req proxy1 \<and>
    carries lib (set_addresses (dstip f) (srcInstanceIp f) p) t req \<and>
    connections_ok proxy1 \<and> cache_ok (proxycache proxy1) \<and>
    flow (proxycache proxy1) (uint (GetSourcePort t)) (uint (GetDestPort t)) = Some f \<and>
    same_flow p inst f \<and> proper_conversion (GetProtocolVersion p) f \<and>
    (\<exists>x \<in> set es. nsip_matches (dstip f) x) \<and>
    (\<exists>x \<in> set es. IP_Equal (dstip f) (ns_address (GetProtocolVersion p) x))"
proof -
  let ?p1 = "proxy\<lparr>defragger := d\<rparr>"
  from outgoing_deliverable [where intn = intn, OF assms(4,5), of lib now now'] obtain f c where
    o: "outgoingProxy em lib intn now now' p (Some t) ?p1 =
      Some ((serializeIPHeader lib (set_addresses (dstip f) (srcInstanceIp f) p) t (transport_payload t),
        set_addresses (dstip f) (srcInstanceIp f) p), ?p1\<lparr>environment := e, proxycache := c\<rparr>)"
    and c: "cache_ok c" "flow c (uint (GetSourcePort t)) (uint (GetDestPort t)) = Some f" "same_flow p inst f"
      "proper_conversion (GetProtocolVersion p) f" "\<exists>x \<in> set es. nsip_matches (dstip f) x"
      "\<exists>x \<in> set es. IP_Equal (dstip f) (ns_address (GetProtocolVersion p) x)" by blast
  have "wire_packet p t" using assms(4) by (simp add: deliverable_def)
  then have "wire_packet (set_addresses (dstip f) (srcInstanceIp f) p) t"
    using c(4) by (intro wire_translated) (simp_all add: proper_conversion_def)
  from carries_serialized [OF assms(1) this] obtain pkt where
    pkt: "serializeIPHeader lib (set_addresses (dstip f) (srcInstanceIp f) p) t (transport_payload t) = Some pkt"
    "carries lib (set_addresses (dstip f) (srcInstanceIp f) p) t (packetToByte lib pkt)" by blast
  obtain host port where l: "locateRemoteAddress em (dstip f) e = (host, port)"
    by (cases "locateRemoteAddress em (dstip f) e")
  let ?p2 = "?p1\<lparr>environment := e, proxycache := c\<rparr>"
  have "\<not> IP_Equal host (localIP ?p2)" "connections_ok ?p2"
    using assms(2,4) c(5) l by (auto simp: deliverable_def connections_ok_def)
  from forward_net [OF this(2,1), of lib port pkt] obtain proxy1 where
    fw: "forward net_io lib host port pkt 0 ?p2 = (None, proxy1)" "connections_ok proxy1"
      "datagrams (io_state proxy1) = datagrams (io_state ?p2) @ [(hoststring_of host port, packetToByte lib pkt)]"
      "tun_written (io_state proxy1) = tun_written (io_state ?p2)"
      "proxy1 = ?p2\<lparr>connectionBuffer := connectionBuffer proxy1, io_state := io_state proxy1\<rparr>" by blast
  have pc: "proxycache proxy1 = c" by (subst fw(5)) simp
  have "sends em lib intn now now' m proxy (hoststring_of host port) (packetToByte lib pkt) proxy1"
    using assms(3) o pkt(1) l fw(1,3,4) by (simp add: sends_def handle_outgoing_def)
  with l pkt(2) fw(2) pc c show ?thesis
    by (intro exI [of _ f] exI [of _ "packetToByte lib pkt"] exI [of _ proxy1] exI [of _ host] exI [of _ port]) simp
qed

text \<open>A datagram of a flow that the node did not start reaches the TUN device as it came.\<close>

lemma hands_over_unchanged:
  assumes "carries lib p t bytes" "connections_ok proxy" "cache_ok (proxycache proxy)" "GetSourcePort t \<noteq> 0"
    and "flow (proxycache proxy) (uint (GetDestPort t)) (uint (GetSourcePort t)) = None"
  shows "\<exists>proxy1. hands_over lib now bytes proxy bytes proxy1 \<and> connections_ok proxy1 \<and> cache_ok (proxycache proxy1)"
proof -
  from assms(1) obtain q u d where
    q: "decodePacket lib bytes (defragger proxy) = Some (Some (q, Some u), d)" "alike (q, u) (p, t)"
    unfolding carries_def by blast
  from q(2) have seg: "GetSourcePort u = GetSourcePort t" "GetDestPort u = GetDestPort t"
    using same_segmentD by (auto simp: alike_def)
  let ?p1 = "proxy\<lparr>defragger := d\<rparr>"
  have "cache_ok (proxycache ?p1)" "GetSourcePort u \<noteq> 0" using assms(3,4) seg by simp_all
  from ingoing_spec [OF this, of lib now q] assms(5) seg obtain c where
    c: "cache_ok c" "ingoingProxy lib now q (Some u) ?p1 = Some ((None, q), ?p1\<lparr>proxycache := c\<rparr>)" by auto
  with q(1) assms(2) show ?thesis
    by (simp add: hands_over_def handle_ingoing_def net_io_def connections_ok_def)
qed

text \<open>A reply of a flow that the node did start is translated back.\<close>

lemma hands_over_translated:
  assumes "codec lib" "carries lib q u bytes" "wire_packet q u" "cache_ok (proxycache proxy)" "GetSourcePort u \<noteq> 0"
    and "flow (proxycache proxy) (uint (GetDestPort u)) (uint (GetSourcePort u)) = Some f"
    and "IP_Equal (srcip f) (GetDestIP q)" "proper_conversion (GetProtocolVersion q) f"
  shows "\<exists>proxy1 out. hands_over lib now bytes proxy out proxy1 \<and>
    carries lib (set_addresses (srcip f) (dstServiceIp f) q) u out"
proof -
  from assms(2) obtain q' u' d where
    q: "decodePacket lib bytes (defragger proxy) = Some (Some (q', Some u'), d)" "alike (q', u') (q, u)"
    unfolding carries_def by blast
  then have seg: "GetSourcePort u' = GetSourcePort u" "GetDestPort u' = GetDestPort u"
      "transport_payload u' = transport_payload u" "protocol_of u' = protocol_of u"
    and hdr: "layer_type q' = layer_type q" "GetProtocolVersion q' = GetProtocolVersion q"
      "GetNextHeader q' = GetNextHeader q" "IP_Equal (GetDestIP q') (GetDestIP q)"
    using same_segmentD by (auto simp: alike_def)
  let ?p1 = "proxy\<lparr>defragger := d\<rparr>" and ?reply = "set_addresses (srcip f) (dstServiceIp f) q'"
  have "wire_packet ?reply u'"
    using assms(3,8) by (simp add: wire_packet_def proper_conversion_def hdr seg)
  from carries_serialized [OF assms(1) this] obtain pkt where
    pkt: "serializeIPHeader lib ?reply u' (transport_payload u') = Some pkt" "carries lib ?reply u' (packetToByte lib pkt)"
    by blast
  have "IP_Equal (srcip f) (GetDestIP q')" using assms(7) hdr(4) IP_Equal_sym IP_Equal_trans by blast
  moreover have "cache_ok (proxycache ?p1)" "GetSourcePort u' \<noteq> 0" using assms(4,5) seg by simp_all
  note ingoing_spec [OF this, of lib now q']
  ultimately obtain c where
    "ingoingProxy lib now q' (Some u') ?p1 = Some ((Some pkt, ?reply), ?p1\<lparr>proxycache := c\<rparr>)"
    using assms(6) seg pkt(1) by auto
  with q(1) have "\<exists>proxy1. hands_over lib now bytes proxy (packetToByte lib pkt) proxy1"
    by (simp add: hands_over_def handle_ingoing_def net_io_def)
  with carries_alike [OF pkt(2) alike_set_addresses [OF q(2)]] show ?thesis by blast
qed

section \<open>A conversation\<close>

text \<open>
  The instance answers: on its node a message of the reverse flow is read, whose destination is known there
  as the container that sent the request.
\<close>

definition answers ::
  "'e EnvironmentManager \<Rightarrow> ('d, 'z) gopacket_scheme \<Rightarrow> (nat \<Rightarrow> nat) \<Rightarrow> byte list \<Rightarrow> ('e, network, 'd) GoProxyTunnel \<Rightarrow>
    NetworkLayerPacket \<times> TransportLayerProtocol \<Rightarrow> NetworkLayerPacket \<times> TransportLayerProtocol \<Rightarrow> bool" where
  "answers em lib intn m proxy = (\<lambda>(q, u) (p, t).
     connections_ok proxy \<and>
     (\<exists>d es e inst. decodePacket lib m (defragger proxy) = Some (Some (q, Some u), d) \<and>
        deliverable em q u (proxy\<lparr>defragger := d\<rparr>) es e inst \<and> intn (length es) < length es \<and>
        (\<forall>y \<in> set es. IP_Equal (ns_address (GetProtocolVersion p) y) (GetSrcIP p))) \<and>
     GetProtocolVersion q = GetProtocolVersion p \<and>
     GetDestPort u = GetSourcePort t \<and> GetSourcePort u = GetDestPort t)"

lemma answer_returns:
  assumes "codec lib" "answers em lib intn m B (q, u) (p, t)" "cache_ok (proxycache A)"
    and "flow (proxycache A) (uint (GetSourcePort t)) (uint (GetDestPort t)) = Some f"
    and "same_flow p inst f" "proper_conversion (GetProtocolVersion p) f" "GetDestPort t \<noteq> 0"
  shows "\<exists>host rep B' out A'. sends em lib intn now now' m B host rep B' \<and> hands_over lib now'' rep A out A' \<and>
    carries lib (set_addresses (GetSrcIP p) (GetDestIP p) q) u out"
proof -
  have f': "IP_Equal (dstServiceIp f) (GetDestIP p)" "IP_Equal (srcip f) (GetSrcIP p)"
    using assms(5) by (simp_all add: same_flow_def)
  from assms(2) obtain d' es' e' inst' where
    dec: "decodePacket lib m (defragger B) = Some (Some (q, Some u), d')" and
    del: "deliverable em q u (B\<lparr>defragger := d'\<rparr>) es' e' inst'" "intn (length es') < length es'" and
    client: "\<And>y. y \<in> set es' \<Longrightarrow> IP_Equal (ns_address (GetProtocolVersion p) y) (GetSrcIP p)" and
    B: "connections_ok B" and ver: "GetProtocolVersion q = GetProtocolVersion p" and
    ports: "GetDestPort u = GetSourcePort t" "GetSourcePort u = GetDestPort t"
    unfolding answers_def by blast
  from sends_translated [where intn = intn, OF assms(1) B dec del, of now now'] obtain g rep B' host' port' where
    rep: "sends em lib intn now now' m B (hoststring_of host' port') rep B'"
      "carries lib (set_addresses (dstip g) (srcInstanceIp g) q) u rep" and
    g: "proper_conversion (GetProtocolVersion q) g"
      "\<exists>x \<in> set es'. IP_Equal (dstip g) (ns_address (GetProtocolVersion q) x)" by blast
  let ?q = "set_addresses (dstip g) (srcInstanceIp g) q"
  have "wire_packet q u" using del(1) by (simp add: deliverable_def)
  then have wire: "wire_packet ?q u"
    using g(1) by (intro wire_translated) (simp_all add: proper_conversion_def)
  have "IP_Equal (dstip g) (GetSrcIP p)" using g(2) client ver IP_Equal_trans by metis
  then have back_to: "IP_Equal (srcip f) (GetDestIP ?q)" using f'(2) IP_Equal_sym IP_Equal_trans by (metis GetDestIP_set_addresses)
  have "flow (proxycache A) (uint (GetDestPort u)) (uint (GetSourcePort u)) = Some f" "GetSourcePort u \<noteq> 0"
    using assms(4) ports assms(7) by simp_all
  moreover have "proper_conversion (GetProtocolVersion ?q) f" using assms(6) ver by simp
  ultimately obtain A' out where
    A': "hands_over lib now'' rep A out A'" "carries lib (set_addresses (srcip f) (dstServiceIp f) ?q) u out"
    using hands_over_translated [OF assms(1) rep(2) wire assms(3) _ _ back_to, of now''] by blast
  have "alike (set_addresses (srcip f) (dstServiceIp f) ?q, u) (set_addresses (GetSrcIP p) (GetDestIP p) q, u)"
    using f' by (simp add: alike_def same_segment_def)
  from carries_alike [OF A'(2) this] A'(1) rep(1) show ?thesis by blast
qed


section \<open>A library and two nodes\<close>

text \<open>A packet library that writes the version, the protocol, the addresses, the ports and the payload.\<close>

definition port_bytes :: "16 word \<Rightarrow> byte list" where
  "port_bytes w = [ucast (drop_bit 8 w), ucast w]"

definition bytes_port :: "byte \<Rightarrow> byte \<Rightarrow> 16 word" where
  "bytes_port a b = push_bit 8 (ucast a) OR ucast b"

lemma bytes_port_bytes [simp]: "bytes_port (ucast (drop_bit 8 w)) (ucast w) = w"
  unfolding bytes_port_def by (rule bit_word_eqI) (auto simp: bit_simps)

definition address_bytes :: "LayerType \<Rightarrow> ip \<Rightarrow> byte list" where
  "address_bytes ty a = (case ty of LayerTypeIPv4 \<Rightarrow> the (To4 a) | LayerTypeIPv6 \<Rightarrow> the a)"

definition plain_segment :: "byte list \<Rightarrow> l4_layer" where
  "plain_segment bs = \<lparr>l4_SrcPort = bytes_port (bs ! 0) (bs ! 1), l4_DstPort = bytes_port (bs ! 2) (bs ! 3),
     l4_Payload = drop 4 bs, l4_Other = []\<rparr>"

definition plain_header :: "LayerType \<Rightarrow> byte list \<Rightarrow> ip_layer" where
  "plain_header ty bs = (let n = (case ty of LayerTypeIPv4 \<Rightarrow> 4 | LayerTypeIPv6 \<Rightarrow> 16) in
     \<lparr>hdr_Version = (case ty of LayerTypeIPv4 \<Rightarrow> 4 | LayerTypeIPv6 \<Rightarrow> 6),
      hdr_SrcIP = Some (take n (drop 2 bs)), hdr_DstIP = Some (take n (drop (n + 2) bs)),
      hdr_Protocol = bs ! 1, hdr_Payload = drop (2 * n + 2) bs, hdr_Other = []\<rparr>)"

definition plain_lib :: "unit gopacket" where
  "plain_lib = \<lparr>gp_NetworkLayer = (\<lambda>(ty, bs). Some (plain_header ty bs)), gp_IPv6Fragment = (\<lambda>_. None),
     gp_DecodeUDP = plain_segment, gp_DecodeTCP = plain_segment, gp_DefragIPv4 = (\<lambda>h d. (Inr (Some h), d)),
     gp_SerializeLayers = (\<lambda>ty h t payload. Inr ((case ty of LayerTypeIPv4 \<Rightarrow> 0x45 | LayerTypeIPv6 \<Rightarrow> 0x60) #
       hdr_Protocol h # address_bytes ty (hdr_SrcIP h) @ address_bytes ty (hdr_DstIP h) @
       port_bytes (GetSourcePort t) @ port_bytes (GetDestPort t) @ payload)),
     gp_SerializePacket = snd\<rparr>"

lemma address_bytes_proper:
  assumes "proper (case ty of LayerTypeIPv4 \<Rightarrow> 4 | LayerTypeIPv6 \<Rightarrow> 6) a"
  shows "length (address_bytes ty a) = (case ty of LayerTypeIPv4 \<Rightarrow> 4 | LayerTypeIPv6 \<Rightarrow> 16)"
    "IP_Equal (Some (address_bytes ty a)) a"
proof -
  show "length (address_bytes ty a) = (case ty of LayerTypeIPv4 \<Rightarrow> 4 | LayerTypeIPv6 \<Rightarrow> 16)"
    using assms by (cases ty) (auto simp: proper_def address_bytes_def To4_def ip_bytes_def Let_def split: if_splits)
  show "IP_Equal (Some (address_bytes ty a)) a"
  proof (cases ty)
    case LayerTypeIPv4
    with assms obtain bs where "To4 a = Some bs" by (auto simp: proper_def)
    moreover from this have "ip_canon (Some bs) = ip_canon a"
      by (auto simp: To4_def ip_canon_def ip_bytes_def Let_def split: if_splits option.splits)
        (metis append_take_drop_id)
    ultimately show ?thesis using LayerTypeIPv4 by (simp add: address_bytes_def IP_Equal_canon)
  next
    case LayerTypeIPv6
    with assms show ?thesis by (auto simp: proper_def address_bytes_def)
  qed
qed

lemma plain_codec: "codec plain_lib"
  unfolding codec_def
proof (intro allI impI)
  fix p t
  assume w: "wire_packet p t"
  let ?ty = "layer_type p" and ?src = "address_bytes (layer_type p) (GetSrcIP p)"
    and ?dst = "address_bytes (layer_type p) (GetDestIP p)"
  define n :: nat where "n = (case ?ty of LayerTypeIPv4 \<Rightarrow> 4 | LayerTypeIPv6 \<Rightarrow> 16)"
  define b :: byte where "b = (case ?ty of LayerTypeIPv4 \<Rightarrow> 0x45 | LayerTypeIPv6 \<Rightarrow> 0x60)"
  define seg where "seg = port_bytes (GetSourcePort t) @ port_bytes (GetDestPort t) @ transport_payload t"
  from w have v: "GetProtocolVersion p = (case ?ty of LayerTypeIPv4 \<Rightarrow> 4 | LayerTypeIPv6 \<Rightarrow> 6)"
    and "proper (GetProtocolVersion p) (GetSrcIP p)" "proper (GetProtocolVersion p) (GetDestIP p)"
    unfolding wire_packet_def by blast+
  note pr = this(2,3) [unfolded v]
  have a: "length ?src = n" "length ?dst = n" "IP_Equal (Some ?src) (GetSrcIP p)" "IP_Equal (Some ?dst) (GetDestIP p)"
    unfolding n_def using address_bytes_proper [OF pr(1)] address_bytes_proper [OF pr(2)] by simp_all
  let ?rest = "GetNextHeader p # ?src @ ?dst @ seg"
  have ser: "gp_SerializeLayers plain_lib ?ty (GetLayer p) t (transport_payload t) = Inr (b # ?rest)"
    by (simp add: plain_lib_def b_def seg_def GetNextHeader_def GetSrcIP_def GetDestIP_def)
  let ?h = "plain_header ?ty (b # ?rest)"
  have n: "(case ?ty of LayerTypeIPv4 \<Rightarrow> 4 | LayerTypeIPv6 \<Rightarrow> 16) = n" by (simp add: n_def)
  have h: "hdr_SrcIP ?h = Some ?src" "hdr_DstIP ?h = Some ?dst" "hdr_Protocol ?h = GetNextHeader p" "hdr_Payload ?h = seg"
    "hdr_Version ?h = GetProtocolVersion p"
    using a(1,2) v by (simp_all add: plain_header_def n Let_def)
  have "plain_segment seg = \<lparr>l4_SrcPort = GetSourcePort t, l4_DstPort = GetDestPort t, l4_Payload = transport_payload t,
      l4_Other = []\<rparr>"
    by (simp add: plain_segment_def seg_def port_bytes_def)
  then have "same_segment (decode_segment plain_lib (hdr_Protocol ?h) (hdr_Payload ?h)) t"
    unfolding h(3,4) using w by (cases t) (simp_all add: decode_segment_def plain_lib_def same_segment_def wire_packet_def protocol_of_def
        ip_protocols transport_payload_def)
  with a(3,4) h ser show "\<exists>bytes b rest h. gp_SerializeLayers plain_lib ?ty (GetLayer p) t (transport_payload t) = Inr bytes \<and>
        gp_SerializePacket plain_lib (?ty, bytes) = b # rest \<and>
        b AND 0xf0 = (case ?ty of LayerTypeIPv4 \<Rightarrow> 0x40 | LayerTypeIPv6 \<Rightarrow> 0x60) \<and>
        gp_NetworkLayer plain_lib (?ty, b # rest) = Some h \<and>
        hdr_Version h = GetProtocolVersion p \<and> hdr_Protocol h = GetNextHeader p \<and>
        IP_Equal (hdr_SrcIP h) (GetSrcIP p) \<and> IP_Equal (hdr_DstIP h) (GetDestIP p) \<and>
        same_segment (decode_segment plain_lib (hdr_Protocol h) (hdr_Payload h)) t \<and>
        (\<forall>d. \<exists>r d'. gp_DefragIPv4 plain_lib h d = (Inr r, d'))"
    by (intro exI [of _ "b # ?rest"] exI [of _ b] exI [of _ ?rest] exI [of _ ?h])
      (simp add: plain_lib_def b_def split: LayerType.splits)
qed

text \<open>Two nodes: a client on one and an instance of the service on the other, each with an instance address.\<close>

definition client_entry :: TableEntry where
  "client_entry = sample_sender\<lparr>Nodeip := IPv4 192 168 0 2, Nsip := IPv4 10 19 1 15,
     ServiceIPs := [\<lparr>IpType = InstanceNumber, Address = IPv4 10 30 1 15, Address_v6 = None\<rparr>]\<rparr>"

definition server_entry :: TableEntry where
  "server_entry = sample_instance\<lparr>Nodeip := IPv4 192 168 0 7, Nsip := IPv4 10 19 2 12,
     ServiceIPs := [\<lparr>IpType = RoundRobin, Address = IPv4 10 30 255 255, Address_v6 = None\<rparr>,
       \<lparr>IpType = InstanceNumber, Address = IPv4 10 30 2 12, Address_v6 = None\<rparr>]\<rparr>"

definition pair_manager :: "unit EnvironmentManager" where
  "pair_manager = \<lparr>em_GetTableEntryByServiceIP = (\<lambda>a e. Some (filter (serves a) [client_entry, server_entry], e)),
     em_GetTableEntryByNsIP = (\<lambda>a e. List.find (nsip_matches a) [client_entry, server_entry]),
     em_GetTableEntryByInstanceIP = (\<lambda>a e. None)\<rparr>"

definition node_proxy :: "byte \<Rightarrow> (unit, network, unit) GoProxyTunnel" where
  "node_proxy host = \<lparr>environment = (), incomingChannel = [], connectionBuffer = [], outgoingChannel = [],
     HostTUNDeviceName = ''goProxyTun'', tunNetIPv6 = ''fdfe::1337'', tunNetIP = ''10.19.1.254'',
     tun_mtusize = ''1450'', ProxyIpSubnetwork = \<lparr>net_IP = IPv4 10 30 0 0, net_Mask = [255, 255, 0, 0]\<rparr>,
     ProxyIPv6Subnetwork = \<lparr>net_IP = None, net_Mask = []\<rparr>, localIP = IPv4 192 168 0 host,
     proxycache = NewProxyCache, TunnelPort = 50103, isListening = True, defragger = (),
     io_state = \<lparr>net_conns = [], datagrams = [], tun_written = []\<rparr>\<rparr>"

definition ping :: "byte list" where
  "ping = [0x45, 17, 10, 19, 1, 15, 10, 30, 255, 255, 0x9c, 0x40, 0, 53, 1, 2, 3]"

definition pong :: "byte list" where
  "pong = [0x45, 17, 10, 19, 2, 12, 10, 30, 1, 15, 0, 53, 0x9c, 0x40, 4, 5]"

definition ping_packet :: NetworkLayerPacket where
  "ping_packet = IPv4Packet (plain_header LayerTypeIPv4 ping)"

definition pong_packet :: NetworkLayerPacket where
  "pong_packet = IPv4Packet (plain_header LayerTypeIPv4 pong)"

definition ping_udp :: TransportLayerProtocol where
  "ping_udp = UDPLayer \<lparr>l4_SrcPort = 40000, l4_DstPort = 53, l4_Payload = [1, 2, 3], l4_Other = []\<rparr>"

definition pong_udp :: TransportLayerProtocol where
  "pong_udp = UDPLayer \<lparr>l4_SrcPort = 53, l4_DstPort = 40000, l4_Payload = [4, 5], l4_Other = []\<rparr>"

lemma ports [simp]: "bytes_port 0x9c 0x40 = 40000" "bytes_port 0 53 = 53"
  by (simp_all add: bytes_port_def)

lemma plain_fields:
  "gp_NetworkLayer plain_lib (ty, bs) = Some (plain_header ty bs)" "gp_DecodeUDP plain_lib = plain_segment"
  "gp_DefragIPv4 plain_lib h d = (Inr (Some h), d)"
  by (simp_all add: plain_lib_def)

lemma ping_header:
  "plain_header LayerTypeIPv4 ping = \<lparr>hdr_Version = 4, hdr_SrcIP = Some [10, 19, 1, 15], hdr_DstIP = Some [10, 30, 255, 255],
     hdr_Protocol = 17, hdr_Payload = [0x9c, 0x40, 0, 53, 1, 2, 3], hdr_Other = []\<rparr>"
  "plain_header LayerTypeIPv4 pong = \<lparr>hdr_Version = 4, hdr_SrcIP = Some [10, 19, 2, 12], hdr_DstIP = Some [10, 30, 1, 15],
     hdr_Protocol = 17, hdr_Payload = [0, 53, 0x9c, 0x40, 4, 5], hdr_Other = []\<rparr>"
  by (simp_all add: plain_header_def ping_def pong_def Let_def)

lemma ping_segment:
  "plain_segment [0x9c, 0x40, 0, 53, 1, 2, 3] = \<lparr>l4_SrcPort = 40000, l4_DstPort = 53, l4_Payload = [1, 2, 3], l4_Other = []\<rparr>"
  "plain_segment [0, 53, 0x9c, 0x40, 4, 5] = \<lparr>l4_SrcPort = 53, l4_DstPort = 40000, l4_Payload = [4, 5], l4_Other = []\<rparr>"
  by (simp_all add: plain_segment_def)

lemma ping_first: "ping = 0x45 # tl ping" "pong = 0x45 # tl pong"
  by (simp_all add: ping_def pong_def)

lemma decode_ping:
  "decodePacket plain_lib ping () = Some (Some (ping_packet, Some ping_udp), ())"
  "decodePacket plain_lib pong () = Some (Some (pong_packet, Some pong_udp), ())"
proof -
  have "decodePacket plain_lib (0x45 # bs) () =
      Some (Some (IPv4Packet (plain_header LayerTypeIPv4 (0x45 # bs)), GetTransportLayer plain_lib
        (IPv4Packet (plain_header LayerTypeIPv4 (0x45 # bs)))), ())" for bs
    by (simp add: decodePacket_def NewGoPacket_def NewNetworkLayerPacket_def newIPv4Packet_def ip_protocols plain_fields
        v4_Defragment_def Let_def)
  from this [of "tl ping"] this [of "tl pong"]
  show "decodePacket plain_lib ping () = Some (Some (ping_packet, Some ping_udp), ())"
    "decodePacket plain_lib pong () = Some (Some (pong_packet, Some pong_udp), ())"
    unfolding ping_first [symmetric]
    by (simp_all add: ping_packet_def pong_packet_def ping_udp_def pong_udp_def GetTransportLayer_eq ping_header
        ping_segment plain_fields ip_protocols Let_def)
qed

lemmas ping_defs = ping_packet_def pong_packet_def ping_udp_def pong_udp_def ping_header GetSrcIP_def GetDestIP_def
  GetProtocolVersion_def GetNextHeader_def

lemma ping_wire: "wire_packet ping_packet ping_udp" "wire_packet pong_packet pong_udp"
  by (simp_all add: wire_packet_def ping_defs proper_def To4_def ip_bytes_def Let_def protocol_of_def ip_protocols
      transport_payload_def)

lemma ping_routed:
  "semanticRoutingSubnetwork (node_proxy host) ping_packet" "semanticRoutingSubnetwork (node_proxy host) pong_packet"
  by (simp_all add: semanticRoutingSubnetwork_def ping_defs node_proxy_def in_subnetwork_def IP_Mask_def IPv4_def
      v4InV6Prefix_def ip_bytes_def IP_Equal_def Let_def)

lemma ping_found:
  "filter (serves (GetDestIP ping_packet)) [client_entry, server_entry] = [server_entry]"
  "filter (serves (GetDestIP pong_packet)) [client_entry, server_entry] = [client_entry]"
  "List.find (nsip_matches (GetSrcIP ping_packet)) [client_entry, server_entry] = Some client_entry"
  "List.find (nsip_matches (GetSrcIP pong_packet)) [client_entry, server_entry] = Some server_entry"
  by (simp_all add: serves_def sip_matches_def nsip_matches_def client_entry_def server_entry_def sample_sender_def
      sample_instance_def ping_defs IP_Equal_def IPv4_def ip_bytes_def v4InV6Prefix_def)

lemma pair_separate: "nsip_matches a server_entry \<Longrightarrow> \<not> nsip_matches a client_entry"
proof -
  have "{ip_canon (Nsip server_entry), ip_canon (Nsipv6 server_entry)} \<inter>
      {ip_canon (Nsip client_entry), ip_canon (Nsipv6 client_entry)} = {}"
    by (simp add: client_entry_def server_entry_def sample_sender_def sample_instance_def ip_canon_def ip_bytes_def
        IPv4_def v4InV6Prefix_def Let_def)
  then show "nsip_matches a server_entry \<Longrightarrow> \<not> nsip_matches a client_entry"
    by (auto simp: nsip_matches_def IP_Equal_canon)
qed

lemma pair_locates:
  "nsip_matches a server_entry \<Longrightarrow> fst (locateRemoteAddress pair_manager a e) = IPv4 192 168 0 7"
  "nsip_matches a client_entry \<Longrightarrow> fst (locateRemoteAddress pair_manager a e) = IPv4 192 168 0 2"
  using pair_separate [of a]
  by (auto simp: locateRemoteAddress_def pair_manager_def client_entry_def server_entry_def)

lemma pair_proper:
  "proper 4 (IPv4 a b c d)" "GetProtocolVersion ping_packet = 4" "GetProtocolVersion pong_packet = 4"
  "ns_address 4 server_entry = IPv4 10 19 2 12" "ns_address 4 client_entry = IPv4 10 19 1 15"
  by (simp_all add: proper_def ping_defs ns_address_def server_entry_def client_entry_def)

lemma ping_deliverable:
  "deliverable pair_manager ping_packet ping_udp (node_proxy 2) [server_entry] () (IPv4 10 30 1 15)"
  "deliverable pair_manager pong_packet pong_udp (node_proxy 7) [client_entry] () (IPv4 10 30 2 12)"
proof -
  have t: "translatable pair_manager ping_packet ping_udp (node_proxy 2) [server_entry] () (IPv4 10 30 1 15)"
    "translatable pair_manager pong_packet pong_udp (node_proxy 7) [client_entry] () (IPv4 10 30 2 12)"
    using ping_routed ping_found cache_ok_New
    by (simp_all add: translatable_def convertToInstanceIp_def pair_manager_def client_entry_def server_entry_def
        pair_proper node_proxy_def ping_udp_def pong_udp_def del: filter.simps find.simps)
  show "deliverable pair_manager ping_packet ping_udp (node_proxy 2) [server_entry] () (IPv4 10 30 1 15)"
    "deliverable pair_manager pong_packet pong_udp (node_proxy 7) [client_entry] () (IPv4 10 30 2 12)"
    using t ping_wire by (simp_all add: deliverable_def pair_proper pair_locates node_proxy_def IPv4_Equal_iff)
qed


end
