(* ===== verification/Handlers.thy ===== *)
theory Handlers
  imports DeploymentProgress EnvironmentTable
begin

text \<open>
  \<open>handlers/\<close>: the HTTP handlers that attach and detach containers and unikernels, and the task
  queue that deploys one workload at a time. A request comes with the result of unmarshalling its
  body: an error or not, and the structure as far as it was filled.
\<close>

section \<open>Data\<close>

record NetConfiguration =
  NodePublicAddress :: string
  NodePublicPort :: string
  ClusterUrl :: string
  ClusterMqttPort :: string
  DefaultInterface :: string
  Debug :: bool
  PublicIPNetworking :: bool
  MqttCert :: string
  MqttKey :: string

text \<open>The reply channel, the writer and the environment of a task are the caller's and the node's.\<close>

record ContainerDeployTask =
  Pid :: int
  ServiceName :: string
  task_Instancenumber :: int
  PortMappings :: string
  Runtime :: string
  PublicAddr :: string
  PublicPort :: string

record TaskReady =
  ready_IP :: ip
  ready_IPv6 :: ip
  ready_Err :: "error option"

record undeployRequest =
  Servicename_of :: string
  Instancenumber_of :: int

record DeployResponse =
  resp_ServiceName :: string
  NsAddress :: string
  NsAddressv6 :: string

record netConfiguration =
  mgr_NodePublicAddress :: string
  mgr_NodePublicPort :: string

text \<open>The container and the unikernel manager have the same fields; both work on the node's environment.\<close>

record NetManager =
  WorkerID :: string
  mgr_Configuration :: netConfiguration

section \<open>The task queue\<close>

text \<open>How the format verb \<open>%s\<close> prints a slice of strings.\<close>

definition slice_text :: "string list \<Rightarrow> string" where
  "slice_text xs = ''['' @ join_on '' '' xs @ '']''"

definition deploymentHandler :: "'w os \<Rightarrow> (string \<Rightarrow> nat \<Rightarrow> string) \<Rightarrow> NetConfiguration \<Rightarrow>
    ContainerDeployTask \<Rightarrow> ('w node, ip \<times> ip) proc" where
  "deploymentHandler os hash NetConfig task s =
     (let appCompleteName = split_on CHR ''.'' (ServiceName task) in
      if length appCompleteName \<noteq> 4 then Some (Inl (''invalid app name: '' @ slice_text appCompleteName), s)
      else do {
        DeployNetwork \<leftarrow> GetNetDeployment os hash (Runtime task);
        (r, s) \<leftarrow> DeployNetwork (Pid task) (ServiceName task) (task_Instancenumber task) (PortMappings task) s;
        (case r of
           Inl err \<Rightarrow> Some (Inl err, s)
         | Inr (addr, addrv6) \<Rightarrow>
             (case NotifyDeploymentStatus (ServiceName task) ''DEPLOYED'' (task_Instancenumber task)
                 (IP_String addr) (IP_String addrv6) (NodePublicAddress NetConfig) (NodePublicPort NetConfig)
                 (node_mqtt s) of
                (Some err, client) \<Rightarrow> Some (Inl err, s\<lparr>node_mqtt := client\<rparr>)
              | (None, client) \<Rightarrow> Some (Inr (addr, addrv6), s\<lparr>node_mqtt := client\<rparr>)))
      })"

text \<open>\<open>msgs\<close> are the responses handled while the table query of the refresh waits.\<close>

definition updateInternalProxyDataStructures :: "TableQueryResponse list \<Rightarrow> ContainerDeployTask \<Rightarrow>
    'w node \<Rightarrow> 'w node option" where
  "updateInternalProxyDataStructures msgs task s =
     (if \<not> MqttIsInterestRegistered (ServiceName task) (node_mqtt s) then
        do {
          s \<leftarrow> RefreshServiceTable (ServiceName task) msgs s;
          Some (s\<lparr>node_mqtt := MqttRegisterInterest (ServiceName task) (node_mqtt s)\<rparr>)
        }
      else Some s)"

definition task_ready :: "error + ip \<times> ip \<Rightarrow> TaskReady" where
  "task_ready r = (case r of
     Inl err \<Rightarrow> \<lparr>ready_IP = None, ready_IPv6 = None, ready_Err = Some err\<rparr>
   | Inr (addr, addrv6) \<Rightarrow> \<lparr>ready_IP = addr, ready_IPv6 = addrv6, ready_Err = None\<rparr>)"

text \<open>One round of the executor: deploy, answer the handler that waits, update the tables.\<close>

definition execute_task :: "'w os \<Rightarrow> (string \<Rightarrow> nat \<Rightarrow> string) \<Rightarrow> NetConfiguration \<Rightarrow>
    TableQueryResponse list \<Rightarrow> ContainerDeployTask \<Rightarrow> 'w node \<Rightarrow> (TaskReady \<times> 'w node) option" where
  "execute_task os hash NetConfig msgs task s =
     do {
       (r, s) \<leftarrow> deploymentHandler os hash NetConfig task s;
       s \<leftarrow> updateInternalProxyDataStructures msgs task s;
       Some (task_ready r, s)
     }"

text \<open>The executor takes the tasks in the order they were queued; the replies in that order.\<close>

fun taskExecutor :: "'w os \<Rightarrow> (string \<Rightarrow> nat \<Rightarrow> string) \<Rightarrow> NetConfiguration \<Rightarrow>
    (ContainerDeployTask \<times> TableQueryResponse list) list \<Rightarrow> 'w node \<Rightarrow> (TaskReady list \<times> 'w node) option" where
  "taskExecutor os hash NetConfig [] s = Some ([], s)"
| "taskExecutor os hash NetConfig ((task, msgs) # queue) s =
     do {
       (reply, s) \<leftarrow> execute_task os hash NetConfig msgs task s;
       (replies, s) \<leftarrow> taskExecutor os hash NetConfig queue s;
       Some (reply # replies, s)
     }"

section \<open>Responses\<close>

text \<open>The first status written counts; a body without one is sent with status 200.\<close>

record http_response =
  status :: "nat option"
  content_type :: string
  response_body :: "DeployResponse option"

definition new_response :: http_response where
  "new_response = \<lparr>status = None, content_type = '''', response_body = None\<rparr>"

definition WriteHeader :: "nat \<Rightarrow> http_response \<Rightarrow> http_response" where
  "WriteHeader code w = (if status w = None then w\<lparr>status := Some code\<rparr> else w)"

definition StatusOK :: nat where "StatusOK = 200"
definition StatusBadRequest :: nat where "StatusBadRequest = 400"
definition StatusInternalServerError :: nat where "StatusInternalServerError = 500"

text \<open>\<open>sent\<close> is the error of writing the body to the connection, if there is one.\<close>

definition write_response :: "error option \<Rightarrow> DeployResponse \<Rightarrow> http_response \<Rightarrow> http_response" where
  "write_response sent response w =
     (let w = (if status w = None then w\<lparr>content_type := ''application/json''\<rparr> else w);
          w = (WriteHeader StatusOK w)\<lparr>response_body := Some response\<rparr>
      in case sent of None \<Rightarrow> w | Some err \<Rightarrow> WriteHeader StatusInternalServerError w)"

text \<open>The end of both deploy handlers: wait for the reply of the queue and answer.\<close>

definition answer_deploy :: "error option \<Rightarrow> ContainerDeployTask \<Rightarrow> TaskReady \<Rightarrow> http_response \<Rightarrow> http_response" where
  "answer_deploy sent task result w =
     (case ready_Err result of
        Some err \<Rightarrow> WriteHeader StatusInternalServerError w
      | None \<Rightarrow> write_response sent
          \<lparr>resp_ServiceName = ServiceName task, NsAddress = IP_String (ready_IP result),
           NsAddressv6 = IP_String (ready_IPv6 result)\<rparr> w)"

definition complete_task :: "string \<Rightarrow> NetManager \<Rightarrow> ContainerDeployTask \<Rightarrow> ContainerDeployTask" where
  "complete_task runtime m task =
     task\<lparr>Runtime := runtime, PublicAddr := mgr_NodePublicAddress (mgr_Configuration m),
          PublicPort := mgr_NodePublicPort (mgr_Configuration m)\<rparr>"

section \<open>Handlers\<close>

definition containerDeploy :: "'w os \<Rightarrow> (string \<Rightarrow> nat \<Rightarrow> string) \<Rightarrow> NetConfiguration \<Rightarrow> NetManager \<Rightarrow>
    error option \<times> ContainerDeployTask \<Rightarrow> TableQueryResponse list \<Rightarrow> error option \<Rightarrow>
    'w node \<Rightarrow> (http_response \<times> 'w node) option" where
  "containerDeploy os hash NetConfig m body msgs sent s =
     (let w = new_response in
      if WorkerID m = '''' then Some (WriteHeader StatusBadRequest w, s)
      else
        (case body of
           (Some err, _) \<Rightarrow> Some (WriteHeader StatusBadRequest w, s)
         | (None, deployTask) \<Rightarrow>
             do {
               let task = complete_task CONTAINER_RUNTIME m deployTask;
               (result, s) \<leftarrow> execute_task os hash NetConfig msgs task s;
               Some (answer_deploy sent task result w, s)
             }))"

definition containerUndeploy :: "'w os \<Rightarrow> NetManager \<Rightarrow> error option \<times> undeployRequest \<Rightarrow>
    'w node \<Rightarrow> (http_response \<times> 'w node) option" where
  "containerUndeploy os m body s =
     (let w = new_response in
      if WorkerID m = '''' then Some (WriteHeader StatusBadRequest w, s)
      else
        (case body of
           (Some err, _) \<Rightarrow> Some (WriteHeader StatusBadRequest w, s)
         | (None, request) \<Rightarrow>
             do {
               s \<leftarrow> DetachContainer os (Servicename_of request) (Instancenumber_of request) s;
               Some (WriteHeader StatusOK w, s)
             }))"

text \<open>The unikernel handlers go on after they have refused a body.\<close>

definition refuse_body :: "error option \<Rightarrow> http_response \<Rightarrow> http_response" where
  "refuse_body err w = (if err \<noteq> None then WriteHeader StatusBadRequest w else w)"

definition CreateUnikernelNamesapce :: "'w os \<Rightarrow> (string \<Rightarrow> nat \<Rightarrow> string) \<Rightarrow> NetConfiguration \<Rightarrow> NetManager \<Rightarrow>
    error option \<times> ContainerDeployTask \<Rightarrow> TableQueryResponse list \<Rightarrow> error option \<Rightarrow>
    'w node \<Rightarrow> (http_response \<times> 'w node) option" where
  "CreateUnikernelNamesapce os hash NetConfig m body msgs sent s =
     (let w = new_response in
      if WorkerID m = '''' then Some (WriteHeader StatusBadRequest w, s)
      else
        do {
          let w = refuse_body (fst body) w;
          let task = complete_task UNIKERNEL_RUNTIME m (snd body);
          (result, s) \<leftarrow> execute_task os hash NetConfig msgs task s;
          Some (answer_deploy sent task result w, s)
        })"

definition DeleteUnikernelNamespaceHandler :: "'w os \<Rightarrow> NetManager \<Rightarrow> error option \<times> undeployRequest \<Rightarrow>
    'w node \<Rightarrow> (http_response \<times> 'w node) option" where
  "DeleteUnikernelNamespaceHandler os m body s =
     (let w = new_response in
      if WorkerID m = '''' then Some (WriteHeader StatusBadRequest w, s)
      else
        do {
          let w = refuse_body (fst body) w;
          s \<leftarrow> DeleteUnikernelNamespace os (Servicename_of (snd body)) (Instancenumber_of (snd body)) s;
          Some (WriteHeader StatusOK w, s)
        })"

section \<open>Routes\<close>

datatype route = ContainerDeploy | ContainerUndeploy | UnikernelDeploy | UnikernelUndeploy

definition container_routes :: "(string \<times> route) list" where
  "container_routes = [(''/container/deploy'', ContainerDeploy), (''/container/undeploy'', ContainerUndeploy),
     (''/docker/undeploy'', ContainerUndeploy)]"

definition unikernel_routes :: "(string \<times> route) list" where
  "unikernel_routes = [(''/unikernel/deploy'', UnikernelDeploy), (''/unikernel/undeploy'', UnikernelUndeploy)]"

text \<open>Registration of a manager: what it knows of the node, and the routes it adds.\<close>

definition RegisterManager :: "string \<Rightarrow> string \<Rightarrow> string \<Rightarrow> NetManager" where
  "RegisterManager workerID nodePublicAddress nodePublicPort =
     \<lparr>WorkerID = workerID,
      mgr_Configuration = \<lparr>mgr_NodePublicAddress = nodePublicAddress, mgr_NodePublicPort = nodePublicPort\<rparr>\<rparr>"

definition AvailableRuntimes :: "(string \<times> (string \<times> route) list) list" where
  "AvailableRuntimes = [(CONTAINER_RUNTIME, container_routes), (UNIKERNEL_RUNTIME, unikernel_routes)]"

definition GetNetManager :: "string \<Rightarrow> (string \<times> route) list option" where
  "GetNetManager handler = map_of AvailableRuntimes handler"

definition RegisterAllManagers :: "string \<Rightarrow> string \<Rightarrow> string \<Rightarrow> NetManager \<times> (string \<times> route) list" where
  "RegisterAllManagers workerID nodePublicAddress nodePublicPort =
     (RegisterManager workerID nodePublicAddress nodePublicPort, concat (map snd AvailableRuntimes))"

end
