(* ===== verification/Requests.thy ===== *)
theory Requests
  imports Handlers
begin

text \<open>
  What the handlers promise together: they never panic on a sound node, they keep the invariants of
  the address pools, of the translation table and of the MQTT client, and their answers say what
  happened to the node.
\<close>

section \<open>Serving requests\<close>

record http_request =
  route_of :: route
  deploy_body :: "error option \<times> ContainerDeployTask"
  undeploy_body :: "error option \<times> undeployRequest"
  meanwhile :: "TableQueryResponse list"
  write_error :: "error option"

definition serve :: "'w os \<Rightarrow> (string \<Rightarrow> nat \<Rightarrow> string) \<Rightarrow> NetConfiguration \<Rightarrow> NetManager \<Rightarrow> http_request \<Rightarrow>
    'w node \<Rightarrow> (http_response \<times> 'w node) option" where
  "serve os hash NetConfig m req s =
     (case route_of req of
        ContainerDeploy \<Rightarrow> containerDeploy os hash NetConfig m (deploy_body req) (meanwhile req) (write_error req) s
      | ContainerUndeploy \<Rightarrow> containerUndeploy os m (undeploy_body req) s
      | UnikernelDeploy \<Rightarrow>
          CreateUnikernelNamesapce os hash NetConfig m (deploy_body req) (meanwhile req) (write_error req) s
      | UnikernelUndeploy \<Rightarrow> DeleteUnikernelNamespaceHandler os m (undeploy_body req) s)"

fun serve_all :: "'w os \<Rightarrow> (string \<Rightarrow> nat \<Rightarrow> string) \<Rightarrow> NetConfiguration \<Rightarrow> NetManager \<Rightarrow> http_request list \<Rightarrow>
    'w node \<Rightarrow> (http_response list \<times> 'w node) option" where
  "serve_all os hash NetConfig m [] s = Some ([], s)"
| "serve_all os hash NetConfig m (req # reqs) s =
     do {
       (w, s) \<leftarrow> serve os hash NetConfig m req s;
       (ws, s) \<leftarrow> serve_all os hash NetConfig m reqs s;
       Some (w # ws, s)
     }"

section \<open>The invariant of a node in use\<close>

definition sound :: "nat \<Rightarrow> nat \<Rightarrow> 'w node \<Rightarrow> bool" where
  "sound b4 b6 s \<longleftrightarrow> node_ok s \<and> net_ok b4 b6 (node_env s)"

lemma net_ok_table: "net_ok b4 b6 (env\<lparr>env_table := t\<rparr>) = net_ok b4 b6 env"
  using pool4_cong [of "env\<lparr>env_table := t\<rparr>" env b4] pool6_cong [of "env\<lparr>env_table := t\<rparr>" env b6]
  by (simp add: net_ok_def service_ips_def service_ipv6s_def)

lemma sound_table_only:
  "net_ok b4 b6 env \<Longrightarrow> table_only env env' \<Longrightarrow> net_ok b4 b6 env'"
  unfolding table_only_def by (elim exE) (simp add: net_ok_table)

lemma node_ok_fields:
  "node_ok s \<Longrightarrow> node_mqtt s' = node_mqtt s \<Longrightarrow> table_ok (env_table (node_env s')) \<Longrightarrow> node_ok s'"
  by (simp add: node_ok_def)

lemma notify_ok:
  assumes "node_ok s"
  shows "\<exists>client. NotifyDeploymentStatus n st i a a6 h p (node_mqtt s) = (None, client) \<and>
    node_ok (s\<lparr>node_mqtt := client\<rparr>)"
  using assms query_ok_cong [of "snd (NotifyDeploymentStatus n st i a a6 h p (node_mqtt s))" "node_mqtt s"]
  by (simp add: NotifyDeploymentStatus_def PublishToBroker_def node_ok_def)

text \<open>Either kind of deployment keeps the invariant.\<close>

lemma deploy_network_sound:
  assumes "sound b4 b6 s" "GetNetDeployment os hash runtime = Some deploy"
  shows "\<exists>r s'. deploy pid sname inst pm s = Some (r, s') \<and> sound b4 b6 s' \<and> node_mqtt s' = node_mqtt s"
proof -
  from assms(1) have ok: "node_ok s" "net_ok b4 b6 (node_env s)" by (simp_all add: sound_def)
  consider "deploy = ContainerDeployNetwork os hash" | "deploy = UnikernelDeployNetwork os hash"
    using assms(2) by (auto simp: GetNetDeployment_def split: if_splits)
  then show ?thesis
  proof cases
    case 1
    from go_post_exists [OF container_deploy_post [OF ok(2)]] obtain r s' where
      "ContainerDeployNetwork os hash pid sname inst pm s = Some (r, s')"
      "node_mqtt s' = node_mqtt s" "env_table (node_env s') = env_table (node_env s)" "net_ok b4 b6 (node_env s')"
      unfolding deployed_post_def by blast
    with 1 ok node_ok_fields [OF ok(1), of s'] show ?thesis by (simp add: sound_def node_ok_def)
  next
    case 2
    from go_post_exists [OF unikernel_deploy_post [OF ok(2)]] obtain r s' where
      "UnikernelDeployNetwork os hash pid sname inst pm s = Some (r, s')"
      "node_mqtt s' = node_mqtt s" "env_table (node_env s') = env_table (node_env s)" "net_ok b4 b6 (node_env s')"
      unfolding unikernel_post_def by blast
    with 2 ok node_ok_fields [OF ok(1), of s'] show ?thesis by (simp add: sound_def node_ok_def)
  qed
qed

lemma deploymentHandler_sound:
  assumes "sound b4 b6 s" "Runtime task \<in> {CONTAINER_RUNTIME, UNIKERNEL_RUNTIME}"
  shows "\<exists>r s'. deploymentHandler os hash cfg task s = Some (r, s') \<and> sound b4 b6 s'"
proof (cases "length (split_on CHR ''.'' (ServiceName task)) = 4")
  case True
  obtain deploy where d: "GetNetDeployment os hash (Runtime task) = Some deploy"
    using assms(2) by (cases "Runtime task = CONTAINER_RUNTIME") (auto simp: GetNetDeployment_def)
  from deploy_network_sound [OF assms(1) d, of "Pid task" "ServiceName task" "task_Instancenumber task" "PortMappings task"]
  obtain r s1 where r: "deploy (Pid task) (ServiceName task) (task_Instancenumber task) (PortMappings task) s = Some (r, s1)"
    "sound b4 b6 s1" by blast
  show ?thesis
  proof (cases r)
    case (Inl e)
    with True d r show ?thesis by (simp add: deploymentHandler_def Let_def)
  next
    case (Inr x)
    obtain a a6 where x: "x = (a, a6)" by (cases x)
    from r(2) have "node_ok s1" by (simp add: sound_def)
    from notify_ok [OF this, of "ServiceName task" "''DEPLOYED''" "task_Instancenumber task" "IP_String a" "IP_String a6"
        "NodePublicAddress cfg" "NodePublicPort cfg"] r(2)
    show ?thesis using True d r Inr x by (auto simp: deploymentHandler_def Let_def sound_def)
  qed
next
  case False
  with assms(1) show ?thesis by (simp add: deploymentHandler_def Let_def)
qed

lemma update_proxy_sound:
  assumes "sound b4 b6 s"
  shows "\<exists>s'. updateInternalProxyDataStructures msgs task s = Some s' \<and> sound b4 b6 s' \<and>
    deployedServices (node_env s') = deployedServices (node_env s) \<and>
    set (broker (node_mqtt s)) \<subseteq> set (broker (node_mqtt s'))"
proof (cases "MqttIsInterestRegistered (ServiceName task) (node_mqtt s)")
  case True
  with assms show ?thesis by (simp add: updateInternalProxyDataStructures_def)
next
  case False
  from assms have ok: "node_ok s" "net_ok b4 b6 (node_env s)" by (simp_all add: sound_def)
  from refresh_ok [OF ok(1), of "ServiceName task" msgs] obtain s1 where
    s1: "RefreshServiceTable (ServiceName task) msgs s = Some s1" "node_ok s1" "table_only (node_env s) (node_env s1)"
    "set (broker (node_mqtt s)) \<subseteq> set (broker (node_mqtt s1))" by blast
  have "node_ok (s1\<lparr>node_mqtt := MqttRegisterInterest (ServiceName task) (node_mqtt s1)\<rparr>)"
    using s1(2) interest_ok [of "node_mqtt s1"] by (simp add: node_ok_def)
  with False s1 sound_table_only [OF ok(2) s1(3)] show ?thesis
    by (auto simp: updateInternalProxyDataStructures_def sound_def table_only_def MqttRegisterInterest_def
        RegisterTopic_def Let_def)
qed

lemma execute_task_sound:
  assumes "sound b4 b6 s" "Runtime task \<in> {CONTAINER_RUNTIME, UNIKERNEL_RUNTIME}"
  shows "\<exists>reply s'. execute_task os hash cfg msgs task s = Some (reply, s') \<and> sound b4 b6 s'"
proof -
  from deploymentHandler_sound [OF assms, of os hash cfg] obtain r s1 where
    "deploymentHandler os hash cfg task s = Some (r, s1)" "sound b4 b6 s1" by blast
  with update_proxy_sound [of b4 b6 s1 msgs task] show ?thesis by (auto simp: execute_task_def)
qed

lemma free_env_table [simp]: "env_table (freeContainerAddress a env) = env_table env"
  by (simp add: freeContainerAddress_def)

lemma undeploy_table_ok:
  assumes t: "table_ok (env_table (node_env s))"
  shows "DetachContainer os sname inst s = Some s1 \<Longrightarrow> table_ok (env_table (node_env s1))"
    "DeleteUnikernelNamespace os sname inst s = Some s2 \<Longrightarrow> table_ok (env_table (node_env s2))"
proof -
  have nsip: "table_ok t1" if "RemoveByNsip k (env_table (node_env s)) = Some (r, t1)" for k r t1
    using RemoveByNsip_ok [OF t, of k] that by auto
  have job: "table_ok t2" if "table_ok t1" "RemoveByJobName j t1 = Some (r, t2)" for t1 t2 j r
    using RemoveByJobName_ok [OF that(1), of j] that(2) by auto
  show "DetachContainer os sname inst s = Some s1 \<Longrightarrow> table_ok (env_table (node_env s1))"
    using t by (auto simp: DetachContainer_def Let_def RemoveServiceEntries_def bind_eq_Some_conv
        split: option.splits if_splits dest: nsip intro: job)
  show "DeleteUnikernelNamespace os sname inst s = Some s2 \<Longrightarrow> table_ok (env_table (node_env s2))"
    using t by (auto simp: DeleteUnikernelNamespace_def Let_def bind_eq_Some_conv split: option.splits dest: nsip)
qed

lemma undeploy_sound:
  assumes "sound b4 b6 s"
  shows "\<exists>s'. DetachContainer os sname inst s = Some s' \<and> sound b4 b6 s'"
    "\<exists>s'. DeleteUnikernelNamespace os sname inst s = Some s' \<and> sound b4 b6 s'"
proof -
  from assms have ok: "node_ok s" "net_ok b4 b6 (node_env s)" by (simp_all add: sound_def)
  obtain s1 where s1: "DetachContainer os sname inst s = Some s1" "node_mqtt s1 = node_mqtt s"
    "net_ok b4 b6 (node_env s1)"
    using node_step_ok [OF ok(2), of os undefined "Detach sname inst"] detach_container_post [OF ok(2), of os sname inst]
    by auto
  obtain s2 where s2: "DeleteUnikernelNamespace os sname inst s = Some s2" "node_mqtt s2 = node_mqtt s"
    "net_ok b4 b6 (node_env s2)"
    using node_step_ok [OF ok(2), of os undefined "DeleteUnikernel sname inst"]
      delete_unikernel_post [OF ok(2), of os sname inst] by auto
  have t: "table_ok (env_table (node_env s))" using ok(1) by (simp add: node_ok_def)
  note tables = undeploy_table_ok(1) [OF t s1(1)] undeploy_table_ok(2) [OF t s2(1)]
  show "\<exists>s'. DetachContainer os sname inst s = Some s' \<and> sound b4 b6 s'"
    "\<exists>s'. DeleteUnikernelNamespace os sname inst s = Some s' \<and> sound b4 b6 s'"
    using s1 s2 tables node_ok_fields [OF ok(1)] by (auto simp: sound_def)
qed

lemma complete_task_runtime [simp]: "Runtime (complete_task r m t) = r"
  by (simp add: complete_task_def)

lemma serve_sound:
  assumes "sound b4 b6 s"
  shows "\<exists>w s'. serve os hash cfg m req s = Some (w, s') \<and> sound b4 b6 s'"
proof (cases "route_of req")
  case ContainerDeploy
  obtain err task where b: "deploy_body req = (err, task)" by (cases "deploy_body req")
  from execute_task_sound [OF assms, of "complete_task CONTAINER_RUNTIME m task" os hash cfg "meanwhile req"]
  show ?thesis using ContainerDeploy b assms
    by (auto simp: serve_def containerDeploy_def Let_def split: option.splits)
next
  case ContainerUndeploy
  obtain err r where b: "undeploy_body req = (err, r)" by (cases "undeploy_body req")
  from undeploy_sound(1) [OF assms, of os "Servicename_of r" "Instancenumber_of r"]
  show ?thesis using ContainerUndeploy b assms
    by (auto simp: serve_def containerUndeploy_def Let_def split: option.splits)
next
  case UnikernelDeploy
  from execute_task_sound [OF assms, of "complete_task UNIKERNEL_RUNTIME m (snd (deploy_body req))" os hash cfg "meanwhile req"]
  show ?thesis using UnikernelDeploy assms
    by (auto simp: serve_def CreateUnikernelNamesapce_def Let_def)
next
  case UnikernelUndeploy
  from undeploy_sound(2) [OF assms, of os "Servicename_of (snd (undeploy_body req))" "Instancenumber_of (snd (undeploy_body req))"]
  show ?thesis using UnikernelUndeploy assms
    by (auto simp: serve_def DeleteUnikernelNamespaceHandler_def Let_def)
qed

lemma serve_all_sound:
  "sound b4 b6 s \<Longrightarrow> \<exists>ws s'. serve_all os hash cfg m reqs s = Some (ws, s') \<and> sound b4 b6 s' \<and>
    length ws = length reqs"
proof (induction reqs arbitrary: s)
  case Nil
  then show ?case by simp
next
  case (Cons req reqs)
  from serve_sound [OF Cons.prems, of os hash cfg m req] obtain w s1 where
    "serve os hash cfg m req s = Some (w, s1)" "sound b4 b6 s1" by blast
  with Cons.IH [of s1] show ?case by auto
qed

lemma status_values [simp]: "StatusOK = 200" "StatusBadRequest = 400" "StatusInternalServerError = 500"
  by (simp_all add: StatusOK_def StatusBadRequest_def StatusInternalServerError_def)

lemma status_WriteHeader: "status (WriteHeader c w) = Some (case status w of None \<Rightarrow> c | Some c' \<Rightarrow> c')"
  by (simp add: WriteHeader_def split: option.splits)

lemma status_new [simp]: "status new_response = None"
  by (simp add: new_response_def)

lemma status_answer: "status (answer_deploy sent task r w) =
    Some (case status w of Some c \<Rightarrow> c | None \<Rightarrow> (case ready_Err r of None \<Rightarrow> 200 | Some e \<Rightarrow> 500))"
  by (simp add: answer_deploy_def write_response_def Let_def WriteHeader_def split: option.splits)

lemma serve_status:
  "serve os hash cfg m req s = Some (w, s') \<Longrightarrow> status w \<in> {Some 200, Some 400, Some 500}"
  by (auto simp: serve_def containerDeploy_def containerUndeploy_def CreateUnikernelNamesapce_def
      DeleteUnikernelNamespaceHandler_def Let_def status_WriteHeader status_answer refuse_body_def bind_eq_Some_conv
      split: route.splits if_splits option.splits prod.splits)

lemma serve_all_status:
  "serve_all os hash cfg m reqs s = Some (ws, s') \<Longrightarrow> \<forall>w \<in> set ws. status w \<in> {Some 200, Some 400, Some 500}"
proof (induction reqs arbitrary: s ws)
  case Nil
  then show ?case by simp
next
  case (Cons req reqs)
  from Cons.prems obtain w s1 ws1 where "serve os hash cfg m req s = Some (w, s1)"
    "serve_all os hash cfg m reqs s1 = Some (ws1, s')" "ws = w # ws1"
    by (auto simp: bind_eq_Some_conv)
  with serve_status Cons.IH show ?case by simp
qed


definition sample_task :: ContainerDeployTask where
  "sample_task = \<lparr>Pid = 7, ServiceName = ''a.b.c.d'', task_Instancenumber = 0, PortMappings = ''80:80'',
     Runtime = '''', PublicAddr = '''', PublicPort = ''''\<rparr>"

definition sample_netcfg :: NetConfiguration where
  "sample_netcfg = \<lparr>NodePublicAddress = ''10.0.0.2'', NodePublicPort = ''50103'', ClusterUrl = ''10.0.0.1'',
     ClusterMqttPort = ''10003'', DefaultInterface = '''', Debug = False, PublicIPNetworking = False,
     MqttCert = '''', MqttKey = ''''\<rparr>"

definition sample_manager :: NetManager where
  "sample_manager = RegisterManager ''n1'' ''10.0.0.2'' ''50103''"


section \<open>What an answer says\<close>

text \<open>The notification of a deployment as it is published.\<close>

definition deploy_notice :: "NetConfiguration \<Rightarrow> NetMqttClient \<Rightarrow> ContainerDeployTask \<Rightarrow> ip \<Rightarrow> ip \<Rightarrow> broker_call" where
  "deploy_notice NetConfig client task a a6 =
     Publish (net_topic (clientID client) ''service/deployed'') (DeployNotification
       \<lparr>notify_Appname = ServiceName task, notify_Status = ''DEPLOYED'',
        notify_Instancenumber = task_Instancenumber task, notify_Nsip = IP_String a, notify_Nsipv6 = IP_String a6,
        notify_Hostport = NodePublicPort NetConfig, notify_Hostip = NodePublicAddress NetConfig\<rparr>)"

text \<open>A deployment that returned addresses is notified; the tables are updated afterwards.\<close>

lemma execute_task_deployed:
  assumes "length (split_on CHR ''.'' (ServiceName task)) = 4"
    and "GetNetDeployment os hash (Runtime task) = Some deploy"
    and "deploy (Pid task) (ServiceName task) (task_Instancenumber task) (PortMappings task) s = Some (Inr (a, a6), s1)"
    and "sound b4 b6 s1"
  shows "\<exists>s'. execute_task os hash cfg msgs task s =
      Some (\<lparr>ready_IP = a, ready_IPv6 = a6, ready_Err = None\<rparr>, s') \<and> sound b4 b6 s' \<and>
    deployedServices (node_env s') = deployedServices (node_env s1) \<and>
    deploy_notice cfg (node_mqtt s1) task a a6 \<in> set (broker (node_mqtt s'))"
proof -
  from assms(4) have "node_ok s1" by (simp add: sound_def)
  from notify_ok [OF this, of "ServiceName task" "''DEPLOYED''" "task_Instancenumber task" "IP_String a" "IP_String a6"
      "NodePublicAddress cfg" "NodePublicPort cfg"]
  obtain client where n: "NotifyDeploymentStatus (ServiceName task) ''DEPLOYED'' (task_Instancenumber task) (IP_String a)
      (IP_String a6) (NodePublicAddress cfg) (NodePublicPort cfg) (node_mqtt s1) = (None, client)"
    "node_ok (s1\<lparr>node_mqtt := client\<rparr>)" by blast
  then have pub: "deploy_notice cfg (node_mqtt s1) task a a6 \<in> set (broker client)"
    by (auto simp: NotifyDeploymentStatus_def PublishToBroker_def deploy_notice_def)
  have "sound b4 b6 (s1\<lparr>node_mqtt := client\<rparr>)" using n(2) assms(4) by (simp add: sound_def)
  from update_proxy_sound [OF this, of msgs task] obtain s' where
    "updateInternalProxyDataStructures msgs task (s1\<lparr>node_mqtt := client\<rparr>) = Some s'" "sound b4 b6 s'"
    "deployedServices (node_env s') = deployedServices (node_env s1)" "set (broker client) \<subseteq> set (broker (node_mqtt s'))"
    by auto
  with assms(1-3) n(1) pub show ?thesis
    by (auto simp: execute_task_def deploymentHandler_def Let_def task_ready_def)
qed

lemma execute_task_failed:
  assumes "length (split_on CHR ''.'' (ServiceName task)) = 4"
    and "GetNetDeployment os hash (Runtime task) = Some deploy"
    and "deploy (Pid task) (ServiceName task) (task_Instancenumber task) (PortMappings task) s = Some (Inl err, s1)"
    and "sound b4 b6 s1"
  shows "\<exists>s'. execute_task os hash cfg msgs task s =
      Some (\<lparr>ready_IP = None, ready_IPv6 = None, ready_Err = Some err\<rparr>, s') \<and> sound b4 b6 s' \<and>
    deployedServices (node_env s') = deployedServices (node_env s1)"
  using assms update_proxy_sound [OF assms(4), of msgs task]
  by (auto simp: execute_task_def deploymentHandler_def Let_def task_ready_def)

lemma complete_task_fields [simp]:
  "ServiceName (complete_task r m t) = ServiceName t" "Pid (complete_task r m t) = Pid t"
  "task_Instancenumber (complete_task r m t) = task_Instancenumber t"
  "PortMappings (complete_task r m t) = PortMappings t"
  by (simp_all add: complete_task_def)

lemma deploy_notice_complete [simp]: "deploy_notice cfg client (complete_task r m t) a a6 = deploy_notice cfg client t a a6"
  by (simp add: deploy_notice_def)


lemma log_node_sound: "sound (base4 + 1) (base6 + 1) log_node"
  using log_node_ok sample_node_ok by (simp add: sound_def log_node_def sample_node_def)


lemma unikernel_runtime [simp]: "GetNetDeployment os hash UNIKERNEL_RUNTIME = Some (UnikernelDeployNetwork os hash)"
  by (simp add: GetNetDeployment_def CONTAINER_RUNTIME_def UNIKERNEL_RUNTIME_def)

text \<open>
  A unikernel request whose body cannot be parsed is answered with status 400 and carried out all
  the same, with whatever the parser left in the structure, while the container handlers leave the
  node alone.
\<close>

theorem malformed_requests:
  assumes "sound b4 b6 s" and "WorkerID m \<noteq> ''''"
  shows "(\<exists>w w' s'. CreateUnikernelNamesapce os hash cfg m (Some err, task) msgs sent s = Some (w, s') \<and>
      status w = Some 400 \<and> CreateUnikernelNamesapce os hash cfg m (None, task) msgs sent s = Some (w', s')) \<and>
    (\<exists>w s'. DeleteUnikernelNamespaceHandler os m (Some err, req) s = Some (w, s') \<and> status w = Some 400 \<and>
      DeleteUnikernelNamespace os (Servicename_of req) (Instancenumber_of req) s = Some s') \<and>
    (\<exists>w. containerDeploy os hash cfg m (Some err, task) msgs sent s = Some (w, s) \<and> status w = Some 400) \<and>
    (\<exists>w. containerUndeploy os m (Some err, req) s = Some (w, s) \<and> status w = Some 400)"
proof (intro conjI)
  from execute_task_sound [OF assms(1), of "complete_task UNIKERNEL_RUNTIME m task" os hash cfg msgs] obtain r s' where
    "execute_task os hash cfg msgs (complete_task UNIKERNEL_RUNTIME m task) s = Some (r, s')" by auto
  with assms(2) show "\<exists>w w' s'. CreateUnikernelNamesapce os hash cfg m (Some err, task) msgs sent s = Some (w, s') \<and>
      status w = Some 400 \<and> CreateUnikernelNamesapce os hash cfg m (None, task) msgs sent s = Some (w', s')"
    by (simp add: CreateUnikernelNamesapce_def refuse_body_def status_answer status_WriteHeader)
next
  from undeploy_sound(2) [OF assms(1), of os "Servicename_of req" "Instancenumber_of req"] assms(2)
  show "\<exists>w s'. DeleteUnikernelNamespaceHandler os m (Some err, req) s = Some (w, s') \<and> status w = Some 400 \<and>
      DeleteUnikernelNamespace os (Servicename_of req) (Instancenumber_of req) s = Some s'"
    by (auto simp: DeleteUnikernelNamespaceHandler_def refuse_body_def status_WriteHeader)
qed (use assms(2) in \<open>simp_all add: containerDeploy_def containerUndeploy_def status_WriteHeader\<close>)

theorem malformed_requests_witness:
  "\<exists>w w' s'. CreateUnikernelNamesapce log_os (\<lambda>x k. take k x) sample_netcfg sample_manager (Some ''EOF'', sample_task) [] None
      log_node = Some (w, s') \<and> status w = Some 400 \<and>
    CreateUnikernelNamesapce log_os (\<lambda>x k. take k x) sample_netcfg sample_manager (None, sample_task) [] None log_node =
      Some (w', s')"
  using malformed_requests [OF log_node_sound, of sample_manager log_os "\<lambda>x k. take k x" sample_netcfg "''EOF''" sample_task
      "[]" None] by (simp add: sample_manager_def RegisterManager_def)

text \<open>
  C33: On a system that refuses the tap device and nothing else, a unikernel deployment is reported as
  deployed: the caller gets status 200 and the cluster a notification, both with nil addresses, and
  no service is registered.
\<close>

theorem refused_tap_reported_deployed:
  assumes "granting os" and "\<And>w. \<exists>e w'. os (LinkAddTap ''tap0'') w = (Some e, w')"
    and "sound b4 b6 s" and "WorkerID m \<noteq> ''''" and "length (split_on CHR ''.'' (ServiceName task)) = 4"
  shows "\<exists>w s'. CreateUnikernelNamesapce os hash cfg m (None, task) msgs sent s = Some (w, s') \<and>
    status w = Some 200 \<and>
    response_body w = Some \<lparr>resp_ServiceName = ServiceName task, NsAddress = ''<nil>'', NsAddressv6 = ''<nil>''\<rparr> \<and>
    deploy_notice cfg (node_mqtt s) task None None \<in> set (broker (node_mqtt s')) \<and>
    deployedServices (node_env s') = deployedServices (node_env s)"
proof -
  let ?task = "complete_task UNIKERNEL_RUNTIME m task"
  from assms(3) have ok: "node_ok s" "net_ok b4 b6 (node_env s)" by (simp_all add: sound_def)
  from unikernel_deploy_hidden [OF assms(1,2) ok(2), of hash "Pid task" "ServiceName task" "task_Instancenumber task"
      "PortMappings task"]
  obtain s1 where r: "UnikernelDeployNetwork os hash (Pid ?task) (ServiceName ?task) (task_Instancenumber ?task)
      (PortMappings ?task) s = Some (Inr (None, None), s1)"
    by (auto simp: go_post_def hidden_def split: option.splits)
  from go_postD [OF unikernel_deploy_post [OF ok(2)] r] have s1: "sound b4 b6 s1" "node_mqtt s1 = node_mqtt s"
    "deployedServices (node_env s1) = deployedServices (node_env s)"
    using node_ok_fields [OF ok(1), of s1] ok(1)
    by (simp_all add: unikernel_post_def same_network_def sound_def node_ok_def)
  have d: "GetNetDeployment os hash (Runtime ?task) = Some (UnikernelDeployNetwork os hash)" by simp
  have name: "length (split_on CHR ''.'' (ServiceName ?task)) = 4" using assms(5) by simp
  from execute_task_deployed [OF name d r s1(1), of cfg msgs] obtain s' where
    e: "execute_task os hash cfg msgs ?task s = Some (\<lparr>ready_IP = None, ready_IPv6 = None, ready_Err = None\<rparr>, s')"
    "deployedServices (node_env s') = deployedServices (node_env s)"
    "deploy_notice cfg (node_mqtt s) task None None \<in> set (broker (node_mqtt s'))" using s1(2,3) by auto
  have "response_body (answer_deploy sent ?task \<lparr>ready_IP = None, ready_IPv6 = None, ready_Err = None\<rparr> new_response) =
      Some \<lparr>resp_ServiceName = ServiceName task, NsAddress = ''<nil>'', NsAddressv6 = ''<nil>''\<rparr>"
    by (simp add: answer_deploy_def write_response_def Let_def WriteHeader_def IP_String_def ip_bytes_def
        split: option.splits)
  with e assms(4) show ?thesis by (simp add: CreateUnikernelNamesapce_def refuse_body_def status_answer)
qed

theorem refused_tap_reported_deployed_witness:
  "\<exists>w s'. CreateUnikernelNamesapce (failing_os (\<lambda>c. c = LinkAddTap ''tap0'')) (\<lambda>x k. take k x) sample_netcfg
      sample_manager (None, sample_task) [] None log_node = Some (w, s') \<and> status w = Some 200 \<and>
    deployedServices (node_env s') = deployedServices (node_env log_node)"
proof -
  have "granting (failing_os (\<lambda>c. c = LinkAddTap ''tap0''))"
    by (simp add: granting_def granted_def failing_os_def)
  moreover have "\<exists>e w'. failing_os (\<lambda>c. c = LinkAddTap ''tap0'') (LinkAddTap ''tap0'') w = (Some e, w')" for w
    by (simp add: failing_os_def)
  moreover have "WorkerID sample_manager \<noteq> ''''" by (simp add: sample_manager_def RegisterManager_def)
  moreover have "length (split_on CHR ''.'' (ServiceName sample_task)) = 4" by (simp add: sample_task_def)
  ultimately show ?thesis
    using refused_tap_reported_deployed [OF _ _ log_node_sound] by blast
qed

section \<open>The task queue\<close>

text \<open>
  The executor answers every task of the queue, one reply per task in their order, whatever
  deployments fail: a task whose name does not have four parts gets an error, and the tasks after it
  are deployed on a node that is still sound.
\<close>

theorem queue_answers_every_task:
  assumes "sound b4 b6 s" and "\<forall>(task, msgs) \<in> set queue. Runtime task \<in> {CONTAINER_RUNTIME, UNIKERNEL_RUNTIME}"
  shows "\<exists>replies s'. taskExecutor os hash cfg queue s = Some (replies, s') \<and> sound b4 b6 s' \<and>
    list_all2 (\<lambda>(task, msgs) reply. length (split_on CHR ''.'' (ServiceName task)) \<noteq> 4 \<longrightarrow>
      ready_Err reply \<noteq> None \<and> ready_IP reply = None) queue replies"
  using assms
proof (induction queue arbitrary: s)
  case Nil
  then show ?case by simp
next
  case (Cons tm queue)
  obtain task msgs where tm: "tm = (task, msgs)" by (cases tm)
  with Cons.prems(2) have "Runtime task \<in> {CONTAINER_RUNTIME, UNIKERNEL_RUNTIME}" by simp
  from execute_task_sound [OF Cons.prems(1) this, of os hash cfg msgs] obtain reply s1 where
    e: "execute_task os hash cfg msgs task s = Some (reply, s1)" "sound b4 b6 s1" by blast
  have "ready_Err reply \<noteq> None \<and> ready_IP reply = None" if "length (split_on CHR ''.'' (ServiceName task)) \<noteq> 4"
    using e(1) that by (auto simp: execute_task_def deploymentHandler_def Let_def task_ready_def bind_eq_Some_conv)
  with e Cons.IH [OF e(2)] Cons.prems(2) tm show ?case by auto
qed

theorem queue_answers_every_task_witness:
  "\<exists>replies s'. taskExecutor log_os (\<lambda>x k. take k x) sample_netcfg
      [(complete_task CONTAINER_RUNTIME sample_manager (sample_task\<lparr>ServiceName := ''app''\<rparr>), []),
       (complete_task UNIKERNEL_RUNTIME sample_manager sample_task, [])] log_node = Some (replies, s') \<and>
    sound (base4 + 1) (base6 + 1) s' \<and> ready_Err (hd replies) \<noteq> None"
proof -
  let ?q = "[(complete_task CONTAINER_RUNTIME sample_manager (sample_task\<lparr>ServiceName := ''app''\<rparr>), [] :: TableQueryResponse list),
       (complete_task UNIKERNEL_RUNTIME sample_manager sample_task, [])]"
  have "\<forall>(task, msgs) \<in> set ?q. Runtime task \<in> {CONTAINER_RUNTIME, UNIKERNEL_RUNTIME}" by simp
  from queue_answers_every_task [OF log_node_sound this, of log_os "\<lambda>x k. take k x" sample_netcfg]
  show ?thesis by (force simp: list_all2_Cons1)
qed

end
