(* ===== verification/Server.thy ===== *)
theory Server
  imports Requests ProxySystem
begin

text \<open>
  \<open>server/server.go\<close>: the registration of the node, the HTTP server in its two stages and the job
  that reports a change of the public address. The global variables \<open>Env\<close> and \<open>Proxy\<close> are one field:
  the proxy works on the environment of the node.
\<close>

section \<open>State\<close>

record registerRequest =
  ClientID :: string
  ClusterAddress :: string
  req_NodePublicAddress :: string

record ('w, 'u, 'd) netmanager =
  NetConfig :: NetConfiguration
  model_WorkerID :: string
  server_os :: 'w
  mqtt_started :: "string option"
  Proxy :: "('w node, 'u, 'd) GoProxyTunnel option"
  updating :: bool
  managers :: "(NetManager \<times> (string \<times> route) list) option"

text \<open>
  What a registration meets: what \<open>GetOutboundIP\<close> asks the network, the result of connecting to the broker, the answer of the cluster, the name of the tunnel device, the
  decoder of the tunnel configuration; \<open>nil_env\<close> stands for the nil environment of a new proxy.
\<close>

record ('w, 'u, 'd) startup =
  su_dial :: "error + ip"
  su_fetched :: "error + (error + string)"
  su_connected :: "error option"
  su_host :: host
  su_subnet :: "(error + mqttSubnetworkResponse) option"
  su_ifce :: string
  su_decode :: "ProxyConfiguration \<Rightarrow> error option \<times> ProxyConfiguration"
  su_nil_env :: "'w node"
  su_io :: 'u
  su_defrag :: 'd

text \<open>
  A handler answers, or it is aborted: by \<open>log.Fatal\<close>, which ends the process, or by a panic, which the
  HTTP server recovers, so that the process goes on with the variables as the handler left them. The
  requests an aborted handler made to the system are not kept.
\<close>

datatype 's handled = Answered http_response 's | Aborted 's

section \<open>Registration\<close>

definition public_address :: "ip option \<Rightarrow> registerRequest \<Rightarrow> NetConfiguration \<Rightarrow> (NetConfiguration \<times> bool) option" where
  "public_address outbound req cfg =
     (if NodePublicAddress cfg = '''' \<or> NodePublicAddress cfg = ''0.0.0.0'' then
        (if req_NodePublicAddress req \<noteq> '''' then Some (cfg\<lparr>NodePublicAddress := req_NodePublicAddress req\<rparr>, False)
         else do { defaultLink \<leftarrow> outbound; Some (cfg\<lparr>NodePublicAddress := IP_String defaultLink\<rparr>, True) })
      else Some (cfg, False))"

definition outbound_ip :: "('w, 'u, 'd) startup \<Rightarrow> NetConfiguration \<Rightarrow> ip option" where
  "outbound_ip su cfg = GetOutboundIP (su_dial su) (PublicIPNetworking cfg) (su_fetched su)"

definition cluster_url :: "registerRequest \<Rightarrow> NetConfiguration \<Rightarrow> NetConfiguration" where
  "cluster_url req cfg = (if ClusterAddress req \<noteq> '''' then cfg\<lparr>ClusterUrl := ClusterAddress req\<rparr> else cfg)"

text \<open>The components of the node: the proxy, listening before its environment is set.\<close>

definition start_proxy :: "'w os \<Rightarrow> ('w, 'u, 'd) startup \<Rightarrow> NetMqttClient \<Rightarrow> 'w \<Rightarrow>
    ('w node, 'u, 'd) GoProxyTunnel option" where
  "start_proxy os su client w =
     do {
       (proxy, w) \<leftarrow> NewProxy os (su_ifce su) (host_local (su_host su)) (su_decode su) (su_nil_env su)
                       (su_io su) (su_defrag su) w;
       let proxy = Listen proxy;
       node \<leftarrow> NewEnvironmentClusterConfigured os (su_host su) (su_subnet su) (HostTUNDeviceName proxy) client w;
       Some (SetEnvironment node proxy)
     }"

text \<open>
  The MQTT client is created once; a later call returns the client of the first. The client of a
  first call that panicked has been created but is not connected.
\<close>

definition mqtt_client :: "('w, 'u, 'd) startup \<Rightarrow> string \<Rightarrow> ('w, 'u, 'd) netmanager \<Rightarrow> NetMqttClient option" where
  "mqtt_client su clientid s =
     (case (Proxy s, mqtt_started s) of
        (Some proxy, _) \<Rightarrow> Some (node_mqtt (environment proxy))
      | (None, Some first) \<Rightarrow> InitNetMqttClient first None
      | (None, None) \<Rightarrow> InitNetMqttClient clientid (su_connected su))"

definition mark_started :: "registerRequest \<Rightarrow> ('w, 'u, 'd) netmanager \<Rightarrow> ('w, 'u, 'd) netmanager" where
  "mark_started req s =
     s\<lparr>mqtt_started := (case mqtt_started s of None \<Rightarrow> Some (ClientID req) | Some first \<Rightarrow> Some first)\<rparr>"

definition host_state :: "('w, 'u, 'd) netmanager \<Rightarrow> 'w" where
  "host_state s = (case Proxy s of None \<Rightarrow> server_os s | Some proxy \<Rightarrow> node_os (environment proxy))"

definition register :: "'w os \<Rightarrow> ('w, 'u, 'd) startup \<Rightarrow> error option \<times> registerRequest \<Rightarrow>
    ('w, 'u, 'd) netmanager \<Rightarrow> ('w, 'u, 'd) netmanager handled" where
  "register os su body s =
     (let w = new_response; requestStruct = snd body in
      if fst body \<noteq> None then Answered (WriteHeader StatusBadRequest w) s
      else if model_WorkerID s \<noteq> '''' then
        (if model_WorkerID s = ClientID requestStruct then Answered (WriteHeader StatusOK w) s
         else Answered (WriteHeader StatusBadRequest w) s)
      else
        (case public_address (outbound_ip su (NetConfig s)) requestStruct (NetConfig s) of
           None \<Rightarrow> Aborted s
         | Some (cfg, go_update) \<Rightarrow>
             let s = s\<lparr>NetConfig := cfg, updating := updating s \<or> go_update\<rparr>;
                 s = s\<lparr>model_WorkerID := ClientID requestStruct\<rparr>;
                 s = s\<lparr>NetConfig := cluster_url requestStruct (NetConfig s)\<rparr>
             in (case mqtt_client su (ClientID requestStruct) s of
                   None \<Rightarrow> Aborted (mark_started requestStruct s)
                 | Some client \<Rightarrow>
                     let s = mark_started requestStruct s in
                     (case start_proxy os su client (host_state s) of
                        None \<Rightarrow> Aborted s
                      | Some proxy \<Rightarrow> Answered (WriteHeader StatusOK w) (s\<lparr>Proxy := Some proxy\<rparr>)))))"

section \<open>The two stages of the server\<close>

definition sock_path :: string where "sock_path = ''/etc/netmanager/netmanager.sock''"

definition createListener :: "'w os \<Rightarrow> int \<Rightarrow> 'w \<Rightarrow> 'w option" where
  "createListener os port w =
     (if port \<le> 0 then must os (NetListen ''unix'' sock_path) (ignoring os (FileRemove sock_path) w)
      else must os (NetListen ''tcp'' ('':'' @ Itoa port)) w)"

text \<open>
  The second stage begins when the registration has shut the first server down; it adds the routes of
  every manager.
\<close>

definition second_stage :: "('w, 'u, 'd) netmanager \<Rightarrow> ('w, 'u, 'd) netmanager" where
  "second_stage s =
     s\<lparr>managers := Some (RegisterAllManagers (model_WorkerID s) (NodePublicAddress (NetConfig s))
        (NodePublicPort (NetConfig s)))\<rparr>"

text \<open>A request: a registration, or a path with what the handlers read of the request.\<close>

datatype ('w, 'u, 'd) client_request =
    Registration "('w, 'u, 'd) startup" "error option \<times> registerRequest"
  | Post string http_request

definition not_found :: http_response where
  "not_found = WriteHeader 404 new_response"

definition serve_path :: "'w os \<Rightarrow> (string \<Rightarrow> nat \<Rightarrow> string) \<Rightarrow> string \<Rightarrow> http_request \<Rightarrow>
    ('w, 'u, 'd) netmanager \<Rightarrow> ('w, 'u, 'd) netmanager handled" where
  "serve_path os hash path req s =
     (case managers s of
        None \<Rightarrow> Answered not_found s
      | Some (m, routes) \<Rightarrow>
          (case map_of routes path of
             None \<Rightarrow> Answered not_found s
           | Some r \<Rightarrow>
               (case Proxy s of
                  None \<Rightarrow> Aborted s
                | Some proxy \<Rightarrow>
                    (case serve os hash (NetConfig s) (m\<lparr>WorkerID := model_WorkerID s\<rparr>) (req\<lparr>route_of := r\<rparr>)
                        (environment proxy) of
                       None \<Rightarrow> Aborted s
                     | Some (w, node) \<Rightarrow> Answered w (s\<lparr>Proxy := Some (proxy\<lparr>environment := node\<rparr>)\<rparr>)))))"

text \<open>\<open>HandleRequests\<close>: serve registrations until one completes, then serve every route.\<close>

fun handle_request :: "'w os \<Rightarrow> (string \<Rightarrow> nat \<Rightarrow> string) \<Rightarrow> ('w, 'u, 'd) client_request \<Rightarrow>
    ('w, 'u, 'd) netmanager \<Rightarrow> ('w, 'u, 'd) netmanager handled" where
  "handle_request os hash (Post path req) s = serve_path os hash path req s"
| "handle_request os hash (Registration su body) s =
     (case register os su body s of
        Aborted s' \<Rightarrow> Aborted s'
      | Answered w s' \<Rightarrow>
          (if managers s = None \<and> Proxy s = None \<and> Proxy s' \<noteq> None then Answered w (second_stage s')
           else Answered w s'))"

section \<open>Changes of the public address\<close>

text \<open>One round of the loop of \<open>update\<close>, after its sleep.\<close>

fun notify_all :: "TableEntry list \<Rightarrow> string \<Rightarrow> string \<Rightarrow> NetMqttClient \<Rightarrow> NetMqttClient" where
  "notify_all [] addr port client = client"
| "notify_all (si # sis) addr port client =
     notify_all sis addr port (snd (NotifyAddressChange (Appname si) (Instancenumber si) addr port client))"

definition update_round :: "ip \<Rightarrow> NetConfiguration \<Rightarrow> 'w node \<Rightarrow> NetConfiguration \<times> 'w node" where
  "update_round defaultLink cfg s =
     (if NodePublicAddress cfg \<noteq> IP_String defaultLink then
        (cfg\<lparr>NodePublicAddress := IP_String defaultLink\<rparr>,
         s\<lparr>node_mqtt := notify_all (GetTableEntriesOnNode (NodePublicAddress cfg) (node_env s))
             (IP_String defaultLink) (NodePublicPort cfg) (node_mqtt s)\<rparr>)
      else (cfg, s))"

end
