(* ===== verification/ServerSafety.thy ===== *)
theory ServerSafety
  imports Server
begin

text \<open>
  What the server guarantees: the identity of a node is fixed by its first registration, a node that
  registered keeps running under every interleaving of packets and requests, a registration that
  failed is reported as done ever after, and what the job on address changes reports.
\<close>

section \<open>The identity of the node\<close>

fun server_run :: "'w os \<Rightarrow> (string \<Rightarrow> nat \<Rightarrow> string) \<Rightarrow> ('w, 'u, 'd) client_request list \<Rightarrow>
    ('w, 'u, 'd) netmanager \<Rightarrow> http_response option list \<times> ('w, 'u, 'd) netmanager" where
  "server_run os hash [] s = ([], s)"
| "server_run os hash (r # rs) s =
     (case handle_request os hash r s of
        Answered w s \<Rightarrow> (let (ws, s) = server_run os hash rs s in (Some w # ws, s))
      | Aborted s \<Rightarrow> (let (ws, s) = server_run os hash rs s in (None # ws, s)))"

text \<open>The answer to a registration of a node that has an identity.\<close>

definition registered_answer :: "string \<Rightarrow> error option \<times> registerRequest \<Rightarrow> nat" where
  "registered_answer workerID body =
     (if fst body = None \<and> ClientID (snd body) = workerID then 200 else 400)"

lemma register_registered:
  assumes "model_WorkerID s \<noteq> ''''"
  shows "\<exists>w. register os su body s = Answered w s \<and> status w = Some (registered_answer (model_WorkerID s) body)"
  using assms by (cases "fst body") (auto simp: register_def registered_answer_def status_WriteHeader Let_def)

lemma handle_registered:
  assumes "model_WorkerID s \<noteq> ''''"
  shows "\<exists>w. handle_request os hash (Registration su body) s = Answered w s \<and>
    status w = Some (registered_answer (model_WorkerID s) body)"
proof -
  from register_registered [OF assms, of os su body] obtain w where
    "register os su body s = Answered w s" "status w = Some (registered_answer (model_WorkerID s) body)" by blast
  then show ?thesis by (cases "Proxy s") simp_all
qed

text \<open>What no request changes once the node has an identity: everything but the environment.\<close>

definition same_proxy :: "('e, 'u, 'd) GoProxyTunnel option \<Rightarrow> ('e, 'u, 'd) GoProxyTunnel option \<Rightarrow> bool" where
  "same_proxy p p' \<longleftrightarrow> p' = p \<or> (\<exists>q e. p = Some q \<and> p' = Some (q\<lparr>environment := e\<rparr>))"

definition same_identity :: "('w, 'u, 'd) netmanager \<Rightarrow> ('w, 'u, 'd) netmanager \<Rightarrow> bool" where
  "same_identity s s' \<longleftrightarrow> model_WorkerID s' = model_WorkerID s \<and> NetConfig s' = NetConfig s \<and>
     managers s' = managers s \<and> mqtt_started s' = mqtt_started s \<and> updating s' = updating s \<and>
     same_proxy (Proxy s) (Proxy s')"

lemma same_proxy_trans: "same_proxy a b \<Longrightarrow> same_proxy b c \<Longrightarrow> same_proxy a c"
  unfolding same_proxy_def by auto

lemma same_identity_refl [simp]: "same_identity s s"
  by (simp add: same_identity_def same_proxy_def)

lemma same_identity_trans: "same_identity a b \<Longrightarrow> same_identity b c \<Longrightarrow> same_identity a c"
  unfolding same_identity_def using same_proxy_trans by metis

lemma same_identity_env: "Proxy s = Some p \<Longrightarrow> same_identity s (s\<lparr>Proxy := Some (p\<lparr>environment := e\<rparr>)\<rparr>)"
  by (auto simp: same_identity_def same_proxy_def)

lemma serve_path_cases:
  obtains w where "serve_path os hash path req s = Answered w s"
  | "serve_path os hash path req s = Aborted s"
  | m routes r proxy w node where "managers s = Some (m, routes)" "map_of routes path = Some r" "Proxy s = Some proxy"
    "serve os hash (NetConfig s) (m\<lparr>WorkerID := model_WorkerID s\<rparr>) (req\<lparr>route_of := r\<rparr>) (environment proxy) = Some (w, node)"
    "serve_path os hash path req s = Answered w (s\<lparr>Proxy := Some (proxy\<lparr>environment := node\<rparr>)\<rparr>)"
proof (cases "managers s")
  case None
  then show ?thesis using that(1) by (simp add: serve_path_def)
next
  case (Some mr)
  obtain m routes where mr: "mr = (m, routes)" by (cases mr)
  show ?thesis
  proof (cases "map_of routes path")
    case None
    with Some mr show ?thesis using that(1) by (simp add: serve_path_def)
  next
    case r: (Some r)
    show ?thesis
    proof (cases "Proxy s")
      case None
      with Some mr r show ?thesis using that(2) by (simp add: serve_path_def)
    next
      case p: (Some proxy)
      let ?serve = "serve os hash (NetConfig s) (m\<lparr>WorkerID := model_WorkerID s\<rparr>) (req\<lparr>route_of := r\<rparr>) (environment proxy)"
      show ?thesis
      proof (cases ?serve)
        case None
        with Some mr r p show ?thesis using that(2) by (simp add: serve_path_def)
      next
        case wn: (Some wn)
        obtain w node where "wn = (w, node)" by (cases wn)
        with Some mr r p wn show ?thesis using that(3) by (simp add: serve_path_def)
      qed
    qed
  qed
qed

lemma serve_path_identity:
  "serve_path os hash path req s = Answered w s' \<or> serve_path os hash path req s = Aborted s' \<Longrightarrow> same_identity s s'"
  by (cases rule: serve_path_cases [of os hash path req s]) (auto simp: same_identity_env)

lemma handle_request_identity:
  assumes "model_WorkerID s \<noteq> ''''" "handle_request os hash r s = Answered w s' \<or> handle_request os hash r s = Aborted s'"
  shows "same_identity s s'"
proof (cases r)
  case (Registration su body)
  from handle_registered [OF assms(1), of os hash su body] obtain w' where
    "handle_request os hash r s = Answered w' s" using Registration by blast
  with assms(2) show ?thesis by auto
next
  case (Post path req)
  with assms(2) serve_path_identity show ?thesis by simp
qed

lemma run_same_identity:
  "model_WorkerID s \<noteq> '''' \<Longrightarrow> same_identity s (snd (server_run os hash rs s))"
proof (induction rs arbitrary: s)
  case Nil
  then show ?case by simp
next
  case (Cons r rs)
  obtain ow s1 where h: "(ow = None \<and> handle_request os hash r s = Aborted s1) \<or>
      (\<exists>w. ow = Some w \<and> handle_request os hash r s = Answered w s1)"
    by (cases "handle_request os hash r s") auto
  then have i: "same_identity s s1" using handle_request_identity [OF Cons.prems] by blast
  with Cons.prems have "model_WorkerID s1 \<noteq> ''''" by (simp add: same_identity_def)
  from same_identity_trans [OF i Cons.IH [OF this]]
  have "same_identity s (snd (server_run os hash rs s1))" .
  moreover have "snd (server_run os hash (r # rs) s) = snd (server_run os hash rs s1)"
    using h by (auto split: prod.splits)
  ultimately show ?case by simp
qed

text \<open>
  C21: The first registration with a worker ID fixes the identity of the node: whatever is requested
  afterwards, the worker ID, the configuration, the routes and the proxy stay what they are, and each
  further registration is answered at once, with 200 for the same ID and with 400 for another one or
  a body that cannot be parsed.
\<close>

theorem identity_is_fixed:
  assumes "model_WorkerID s \<noteq> ''''"
  shows "same_identity s (snd (server_run os hash rs s)) \<and>
    list_all2 (\<lambda>r w. case r of
        Registration su body \<Rightarrow> \<exists>x. w = Some x \<and> status x = Some (registered_answer (model_WorkerID s) body)
      | Post path req \<Rightarrow> True) rs (fst (server_run os hash rs s))"
  using assms
proof (induction rs arbitrary: s)
  case Nil
  then show ?case by simp
next
  case (Cons r rs)
  obtain ow s1 where h: "(ow = None \<and> handle_request os hash r s = Aborted s1) \<or>
      (\<exists>w. ow = Some w \<and> handle_request os hash r s = Answered w s1)"
    by (cases "handle_request os hash r s") auto
  then have i: "same_identity s s1" using handle_request_identity [OF Cons.prems] by blast
  then have id: "model_WorkerID s1 = model_WorkerID s" by (simp add: same_identity_def)
  with Cons.prems have "model_WorkerID s1 \<noteq> ''''" by simp
  note rest = Cons.IH [OF this, unfolded id]
  have run: "server_run os hash (r # rs) s = (ow # fst (server_run os hash rs s1), snd (server_run os hash rs s1))"
    using h by (auto split: prod.splits)
  have "case r of Registration su body \<Rightarrow> \<exists>x. ow = Some x \<and> status x = Some (registered_answer (model_WorkerID s) body)
      | Post path req \<Rightarrow> True"
  proof (cases r)
    case (Registration su body)
    from handle_registered [OF Cons.prems, of os hash su body] obtain w where
      "handle_request os hash r s = Answered w s" "status w = Some (registered_answer (model_WorkerID s) body)"
      using Registration by blast
    with h Registration show ?thesis by auto
  qed simp
  with rest same_identity_trans [OF i] show ?case unfolding run by simp
qed

text \<open>A server that has not been asked anything.\<close>

definition new_server :: "NetConfiguration \<Rightarrow> 'w \<Rightarrow> ('w, 'u, 'd) netmanager" where
  "new_server cfg w = \<lparr>NetConfig = cfg, model_WorkerID = '''', server_os = w, mqtt_started = None,
     Proxy = None, updating = False, managers = None\<rparr>"

definition sample_startup :: "(os_call list, nat, unit) startup" where
  "sample_startup = \<lparr>su_dial = Inr (IPv4 10 0 0 2), su_fetched = Inl ''offline'', su_connected = None, su_host = sample_host,
     su_subnet = Some (Inr sample_subnet), su_ifce = ''goProxyTun'', su_decode = (\<lambda>c. (Some ''EOF'', c)),
     su_nil_env = log_node, su_io = 0, su_defrag = ()\<rparr>"

definition sample_registration :: registerRequest where
  "sample_registration = \<lparr>ClientID = ''n1'', ClusterAddress = ''10.0.0.1'', req_NodePublicAddress = ''10.0.0.2''\<rparr>"

definition sample_server :: "(os_call list, nat, unit) netmanager" where
  "sample_server = (new_server sample_netcfg [])\<lparr>model_WorkerID := ''n2''\<rparr>"

theorem identity_is_fixed_witness:
  "model_WorkerID (snd (server_run log_os (\<lambda>x k. take k x) [Registration sample_startup (None, sample_registration),
      Registration sample_startup (Some ''EOF'', sample_registration)] sample_server)) = ''n2''"
  using identity_is_fixed [of sample_server log_os "\<lambda>x k. take k x"
      "[Registration sample_startup (None, sample_registration), Registration sample_startup (Some ''EOF'', sample_registration)]"]
  by (simp add: same_identity_def sample_server_def)

section \<open>A registration that failed\<close>

text \<open>
  C34: When the broker cannot be reached, the first registration is aborted after the worker ID has
  been stored. The same registration is then answered with 200, broker or not, although the node has
  no proxy and no environment, and no request ever gives it one or opens the routes of the second
  stage.
\<close>

theorem failed_registration_reported_ok:
  assumes "su_connected su = Some err" and "outbound_ip su cfg \<noteq> None" and "ClientID req \<noteq> ''''"
  shows "\<exists>s1. handle_request os hash (Registration su (None, req)) (new_server cfg w0) = Aborted s1 \<and>
    (\<forall>su'. \<exists>w. handle_request os hash (Registration su' (None, req)) s1 = Answered w s1 \<and> status w = Some 200) \<and>
    (\<forall>rs. Proxy (snd (server_run os hash rs s1)) = None \<and> managers (snd (server_run os hash rs s1)) = None)"
proof -
  obtain cfg' upd where a: "public_address (outbound_ip su cfg) req cfg = Some (cfg', upd)"
  proof -
    from assms(2) obtain a where "outbound_ip su cfg = Some a" by blast
    then have "public_address (outbound_ip su cfg) req cfg \<noteq> None" by (simp add: public_address_def del: not_None_eq)
    with that show thesis by auto
  qed
  define s1 :: "('a, 'b, 'c) netmanager" where "s1 = \<lparr>NetConfig = cluster_url req cfg', model_WorkerID = ClientID req,
    server_os = w0, mqtt_started = Some (ClientID req), Proxy = None, updating = upd, managers = None\<rparr>"
  have "handle_request os hash (Registration su (None, req)) (new_server cfg w0) = Aborted s1"
    using assms(1) a by (simp add: register_def new_server_def mqtt_client_def InitNetMqttClient_def mark_started_def s1_def)
  moreover have id: "model_WorkerID s1 = ClientID req" "model_WorkerID s1 \<noteq> ''''" using assms(3) by (simp_all add: s1_def)
  then have "\<exists>w. handle_request os hash (Registration su' (None, req)) s1 = Answered w s1 \<and> status w = Some 200" for su'
    using handle_registered [OF id(2), of os hash su' "(None, req)"] by (simp add: registered_answer_def)
  moreover have "Proxy (snd (server_run os hash rs s1)) = None \<and> managers (snd (server_run os hash rs s1)) = None" for rs
    using run_same_identity [OF id(2), of os hash rs] by (auto simp: same_identity_def same_proxy_def s1_def)
  ultimately show ?thesis by blast
qed

theorem failed_registration_reported_ok_witness:
  "\<exists>s1. handle_request log_os (\<lambda>x k. take k x) (Registration (sample_startup\<lparr>su_connected := Some ''refused''\<rparr>)
      (None, sample_registration)) (new_server sample_netcfg []) = Aborted s1"
  using failed_registration_reported_ok [of "sample_startup\<lparr>su_connected := Some ''refused''\<rparr>" "''refused''"
      sample_netcfg sample_registration log_os "\<lambda>x k. take k x" "[]"]
  by (auto simp: sample_startup_def sample_registration_def outbound_ip_def GetOutboundIP_def sample_netcfg_def)

section \<open>A registered node keeps running\<close>

lemma subnet_request_client:
  assumes "RequestSubnetworkMqttBlocking answer client = Some (r, client1)"
  shows "siprequests client1 = siprequests client" "response_channels client1 = response_channels client"
    "event_bus client1 = event_bus client" "same_jobs client client1"
  using assms unfolding same_jobs_def
  by (auto simp: RequestSubnetworkMqttBlocking_def subnetworkAssignmentMqttHandler_def PublishToBroker_def
      chan_send_def make_chan_def chan_full_def Let_def bind_eq_Some_conv split: option.splits list.splits if_splits sum.splits)

lemma NewCustom_env:
  assumes "NewCustom os h proxyname cfg w = Some (e, w1)"
  shows "\<exists>env ifce. new_environment h proxyname cfg = Some env \<and>
    e = env\<lparr>config := (config env)\<lparr>ConnectedInternetInterface := ifce\<rparr>\<rparr>"
proof -
  from assms obtain env e1 where env: "new_environment h proxyname cfg = Some env"
    "(if ConnectedInternetInterface (config env) = ''''
      then do { (_, ifce) \<leftarrow> host_local h; Some (env\<lparr>config := (config env)\<lparr>ConnectedInternetInterface := ifce\<rparr>\<rparr>) }
      else Some env) = Some e1" "e = e1"
    by (force simp: NewCustom_def bind_eq_Some_conv)
  show ?thesis
  proof (cases "ConnectedInternetInterface (config env) = ''''")
    case True
    with env show ?thesis by (auto simp: bind_eq_Some_conv)
  next
    case False
    have "env = env\<lparr>config := (config env)\<lparr>ConnectedInternetInterface := ConnectedInternetInterface (config env)\<rparr>\<rparr>" by simp
    moreover have "e = env" using False env by simp
    ultimately show ?thesis using env(1) by blast
  qed
qed

lemma net_ok_config: "net_ok b4 b6 (env\<lparr>config := c\<rparr>) = net_ok b4 b6 env"
  using pool4_cong [of "env\<lparr>config := c\<rparr>" env b4] pool6_cong [of "env\<lparr>config := c\<rparr>" env b6]
  by (simp add: net_ok_def service_ips_def service_ipv6s_def)

text \<open>The node that the cluster configured.\<close>

lemma cluster_configured_sound:
  assumes "NewEnvironmentClusterConfigured os h (Some (Inr response)) proxyname client w = Some node"
    and "cluster_configuration (host_getenv h ''TUN_MTU_SIZE'') response = Some cfg"
    and "ParseIP (HostBridgeIP cfg) = v4addr n" "ParseIP (HostBridgeIPv6 cfg) = v6addr k" "2 ^ 48 \<le> k" "k + 255 < 2 ^ 128"
    and "query_ok client" "events_ok (event_bus client)"
  shows "sound (n + 1) (k + 1) node"
proof -
  from assms(1) obtain r client1 where q1: "RequestSubnetworkMqttBlocking (Some (Inr response)) client = Some (r, client1)"
    by (auto simp: NewEnvironmentClusterConfigured_def bind_eq_Some_conv)
  with assms(1) obtain response1 where "r = Inr response1"
    by (cases r) (auto simp: NewEnvironmentClusterConfigured_def)
  with q1 assms(1) obtain cfg1 e w1 where
    q: "RequestSubnetworkMqttBlocking (Some (Inr response)) client = Some (r, client1)" "r = Inr response1"
      "cluster_configuration (host_getenv h ''TUN_MTU_SIZE'') response1 = Some cfg1"
      "NewCustom os h proxyname cfg1 w = Some (e, w1)" "node = \<lparr>node_env = e, node_os = w1, node_mqtt = client1\<rparr>"
    by (auto simp: NewEnvironmentClusterConfigured_def bind_eq_Some_conv)
  have "response1 = response"
    using q(1,2) by (auto simp: RequestSubnetworkMqttBlocking_def subnetworkAssignmentMqttHandler_def PublishToBroker_def
      chan_send_def make_chan_def chan_full_def Let_def bind_eq_Some_conv split: option.splits list.splits if_splits)
  with q(3) assms(2) have "cfg1 = cfg" by simp
  with NewCustom_env [OF q(4)] obtain env ifce where env: "new_environment h proxyname cfg = Some env"
    "e = env\<lparr>config := (config env)\<lparr>ConnectedInternetInterface := ifce\<rparr>\<rparr>" by blast
  have "net_ok (n + 1) (k + 1) e" using new_environment_net_ok [OF env(1) assms(3-6)] env(2) by (simp add: net_ok_config)
  moreover have "query_ok client1"
    using query_ok_cong [OF subnet_request_client(1,2) [OF q(1)]] assms(7) by simp
  moreover have "table_ok (env_table e)"
    using new_environment_table [OF env(1)] env(2) by (simp add: table_ok_set NewTableManager_def)
  ultimately show ?thesis
    using q(5) subnet_request_client(3) [OF q(1)] assms(8) by (simp add: sound_def node_ok_def)
qed

text \<open>What a registration that gives the node a proxy has done.\<close>

lemma register_starts:
  assumes "register os su body s = Answered w s1" "Proxy s = None" "mqtt_started s = None" "Proxy s1 = Some p"
  shows "\<exists>client proxy w1 node. InitNetMqttClient (ClientID (snd body)) (su_connected su) = Some client \<and>
    NewProxy os (su_ifce su) (host_local (su_host su)) (su_decode su) (su_nil_env su) (su_io su) (su_defrag su)
      (server_os s) = Some (proxy, w1) \<and>
    NewEnvironmentClusterConfigured os (su_host su) (su_subnet su) (HostTUNDeviceName (Listen proxy)) client w1 = Some node \<and>
    p = SetEnvironment node (Listen proxy)"
proof (cases "public_address (outbound_ip su (NetConfig s)) (snd body) (NetConfig s)")
  case None
  with assms show ?thesis by (auto simp: register_def Let_def split: if_splits)
next
  case (Some cu)
  obtain cfg upd where cu: "cu = (cfg, upd)" by (cases cu)
  from assms(1,2,4) Some cu obtain client where client: "InitNetMqttClient (ClientID (snd body)) (su_connected su) = Some client"
    and st: "start_proxy os su client (server_os s) = Some p"
    using assms(3) by (auto simp: register_def Let_def mqtt_client_def host_state_def mark_started_def
        split: if_splits option.splits)
  from st obtain proxy w1 node where
    "NewProxy os (su_ifce su) (host_local (su_host su)) (su_decode su) (su_nil_env su) (su_io su) (su_defrag su)
      (server_os s) = Some (proxy, w1)"
    "NewEnvironmentClusterConfigured os (su_host su) (su_subnet su) (HostTUNDeviceName (Listen proxy)) client w1 = Some node"
    "p = SetEnvironment node (Listen proxy)"
    by (auto simp: start_proxy_def bind_eq_Some_conv Let_def)
  with client show ?thesis by blast
qed

lemma log_os_seq: "os_seq log_os cs w = (None, w @ cs)"
  by (induction cs arbitrary: w) (simp_all add: log_os_def)

lemma log_os_must: "must log_os c w = Some (w @ [c])"
  by (simp add: must_def log_os_def)

lemma sample_client_subnet:
  "\<exists>client. RequestSubnetworkMqttBlocking (Some (Inr sample_subnet)) sample_mqtt_client = Some (Inr sample_subnet, client)"
  by (simp add: RequestSubnetworkMqttBlocking_def subnetworkAssignmentMqttHandler_def PublishToBroker_def
      chan_send_def make_chan_def chan_full_def Let_def sample_subnet_def)

lemma sample_cluster_configuration:
  "\<exists>cfg. cluster_configuration '''' sample_subnet = Some cfg \<and> ParseIP (HostBridgeIP cfg) = v4addr base4 \<and>
    ParseIP (HostBridgeIPv6 cfg) = v6addr base6 \<and> HostBridgeName cfg = ''goProxyBridge'' \<and>
    ConnectedInternetInterface cfg = '''' "
proof -
  have b4: "base4 \<ge> 1" by (simp add: base4_def)
  obtain cfg where cfg: "cluster_configuration '''' sample_subnet = Some cfg" "HostBridgeIPv6 cfg = ''fc00::1''"
    "HostBridgeIP cfg = IP_String (v4addr base4)" "HostBridgeName cfg = ''goProxyBridge''"
    "ConnectedInternetInterface cfg = ''''"
    using b4 by (simp add: cluster_configuration_def sample_subnet4 sample_subnet6 NextIPv4_v4addr
        NextIPv6_base6 base6_text)
  have "ParseIP (HostBridgeIP cfg) = v4addr base4"
    using ParseIP_String4(1) [OF To4_v4addr, of base4] by (simp add: cfg(3) v4addr_def)
  moreover have "ParseIP (HostBridgeIPv6 cfg) = v6addr base6"
    using sample_config6 cfg(2) by (simp add: sample_config_def)
  ultimately show ?thesis using cfg by blast
qed

lemma log_os_masquerade_all: "\<exists>w'. masquerade_all log_os a b i ps w = Some w'"
  by (induction ps arbitrary: w) (auto simp: masquerade_def log_os_must)

lemma log_os_grants:
  "\<exists>w'. DisableReversePathFiltering log_os b w = Some w'"
  "\<exists>w'. EnableForwarding log_os b p w = Some w'"
  "\<exists>w'. EnableMasquerading log_os ifces a m a6 m6 b i w = Some w'"
  using log_os_masquerade_all
  by (simp_all add: DisableReversePathFiltering_def EnableForwarding_def EnableMasquerading_def masquerade_def
      log_os_must Let_def)

lemma log_os_bridge: "\<exists>w'. CreateHostBridge log_os (Inr ifces) e w = (None, w')"
  by (simp add: CreateHostBridge_def log_os_seq Let_def del: os_seq.simps)

lemma log_os_NewCustom:
  assumes "new_environment sample_host proxyname cfg = Some env" "ConnectedInternetInterface (config env) = ''''"
  shows "\<exists>e w'. NewCustom log_os sample_host proxyname cfg w = Some (e, w')"
proof -
  define e where "e = env\<lparr>config := (config env)\<lparr>ConnectedInternetInterface := ''eth0''\<rparr>\<rparr>"
  obtain w1 where "CreateHostBridge log_os (Inr [''eth0'']) e w = (None, w1)" using log_os_bridge by blast
  moreover obtain w2 where "DisableReversePathFiltering log_os (HostBridgeName (config e)) w1 = Some w2"
    using log_os_grants(1) by blast
  moreover obtain w3 where "EnableForwarding log_os (HostBridgeName (config e)) proxyname w2 = Some w3"
    using log_os_grants(2) by blast
  moreover obtain w4 where "EnableMasquerading log_os [''eth0''] (HostBridgeIP (config e)) (HostBridgeMask (config e))
      (HostBridgeIPv6 (config e)) (HostBridgeIPv6Prefix (config e)) (HostBridgeName (config e))
      (ConnectedInternetInterface (config e)) w3 = Some w4"
    using log_os_grants(3) by blast
  moreover have "host_devices sample_host = Inr [''eth0'']" "host_local sample_host = Some (''192.168.0.2'', ''eth0'')"
    by (simp_all add: sample_host_def)
  ultimately have "NewCustom log_os sample_host proxyname cfg w = Some (e, w4)"
    using assms by (simp add: NewCustom_def e_def [symmetric])
  then show ?thesis by blast
qed

lemma sample_start: "\<exists>w s1 p. register log_os sample_startup (None, sample_registration) (new_server sample_netcfg []) =
  Answered w s1 \<and> Proxy s1 = Some p"
proof -
  obtain cfg where cfg: "cluster_configuration '''' sample_subnet = Some cfg" "ParseIP (HostBridgeIP cfg) = v4addr base4"
    "ParseIP (HostBridgeIPv6 cfg) = v6addr base6" "ConnectedInternetInterface cfg = ''''"
    using sample_cluster_configuration by blast
  obtain proxy w1 where proxy: "NewProxy log_os ''goProxyTun'' (host_local sample_host) (\<lambda>c. (Some ''EOF'', c)) log_node
      (0 :: nat) () [] = Some (proxy, w1)"
    by (simp add: NewProxy_def NewCustomProxy_def createTun_def tun_script_def log_os_must sample_host_def)
  obtain env where "new_environment sample_host (HostTUNDeviceName (Listen proxy)) cfg = Some env"
    "ConnectedInternetInterface (config env) = ''''"
    using cfg(2-4) by (simp add: new_environment_def NextIPv4_v4addr NextIPv6_base6)
  from log_os_NewCustom [OF this, of w1] obtain e w2 where
    e: "NewCustom log_os sample_host (HostTUNDeviceName (Listen proxy)) cfg w1 = Some (e, w2)" by blast
  obtain client where "RequestSubnetworkMqttBlocking (Some (Inr sample_subnet)) sample_mqtt_client =
      Some (Inr sample_subnet, client)" using sample_client_subnet by blast
  then have "NewEnvironmentClusterConfigured log_os sample_host (Some (Inr sample_subnet)) (HostTUNDeviceName (Listen proxy))
      sample_mqtt_client w1 = Some \<lparr>node_env = e, node_os = w2, node_mqtt = client\<rparr>"
    using cfg(1) e by (simp add: NewEnvironmentClusterConfigured_def sample_host_def)
  then have "start_proxy log_os sample_startup sample_mqtt_client [] =
      Some (SetEnvironment \<lparr>node_env = e, node_os = w2, node_mqtt = client\<rparr> (Listen proxy))"
    using proxy by (simp add: start_proxy_def sample_startup_def)
  moreover have "mqtt_client sample_startup ''n1'' s = Some sample_mqtt_client"
    if "Proxy s = None" "mqtt_started s = None" for s :: "(os_call list, nat, unit) netmanager"
    using that sample_mqtt_client_init by (simp add: mqtt_client_def sample_startup_def)
  ultimately show ?thesis
    by (simp add: register_def new_server_def sample_registration_def sample_netcfg_def public_address_def
        mark_started_def host_state_def Let_def)
qed

section \<open>Changes of the public address\<close>

lemma notify_all_result:
  "notify_all sis addr port client = client\<lparr>broker := broker client @ map (\<lambda>si.
    Publish (net_topic (clientID client) ''service/address-changed'') (DeployNotification
      \<lparr>notify_Appname = Appname si, notify_Status = '''', notify_Instancenumber = Instancenumber si, notify_Nsip = '''',
       notify_Nsipv6 = '''', notify_Hostport = port, notify_Hostip = addr\<rparr>)) sis\<rparr>"
  by (induction sis arbitrary: client) (simp_all add: NotifyAddressChange_def PublishToBroker_def)

text \<open>
  When the public address of the node changes, the cluster gets one notification for each table
  entry with the old address, in the order of the table, under the first part of the job's name
  alone, and the new address is kept. The table is not updated: a second change before the cluster
  refreshes it reports nothing unless an entry already has the new address.
\<close>

theorem address_change_reported:
  assumes "NodePublicAddress cfg \<noteq> IP_String a"
  shows "\<exists>cfg' s'. update_round a cfg s = (cfg', s') \<and> NodePublicAddress cfg' = IP_String a \<and> node_env s' = node_env s \<and>
    broker (node_mqtt s') = broker (node_mqtt s) @ map (\<lambda>si.
      Publish (net_topic (clientID (node_mqtt s)) ''service/address-changed'') (DeployNotification
        \<lparr>notify_Appname = Appname si, notify_Status = '''', notify_Instancenumber = Instancenumber si, notify_Nsip = '''',
         notify_Nsipv6 = '''', notify_Hostport = NodePublicPort cfg, notify_Hostip = IP_String a\<rparr>))
      (filter (\<lambda>e. IP_Equal (Nodeip e) (ParseIP (NodePublicAddress cfg))) (translationTable (env_table (node_env s)))) \<and>
    ((\<forall>e \<in> set (translationTable (env_table (node_env s))). \<not> IP_Equal (Nodeip e) (ParseIP (IP_String a))) \<longrightarrow>
      broker (node_mqtt (snd (update_round b cfg' s'))) = broker (node_mqtt s'))"
  using assms
  by (auto simp: update_round_def notify_all_result GetTableEntriesOnNode_def SearchByNodeIp_def filter_empty_conv)

theorem address_change_reported_witness:
  "\<exists>cfg' s'. update_round (IPv4 10 0 0 9) (sample_netcfg\<lparr>NodePublicAddress := ''192.168.0.7''\<rparr>)
      (log_node\<lparr>node_env := sample_env\<lparr>env_table := \<lparr>translationTable = [sample_entry]\<rparr>\<rparr>\<rparr>) = (cfg', s') \<and>
    length (broker (node_mqtt s')) = 1"
proof -
  have "ParseIP (dotted [192, 168, 0, 7]) = IPv4 192 168 0 7" by (rule ParseIP_dotted)
  moreover have "dotted [192, 168, 0, 7] = ''192.168.0.7''" by (simp add: dotted_def itoa.simps digit_char_def)
  ultimately have p: "ParseIP ''192.168.0.7'' = IPv4 192 168 0 7" by simp
  have "To4 (IPv4 10 0 0 9) = Some [10, 0, 0, 9]" by simp
  from ParseIP_String4(1) [OF this] p have ne: "''192.168.0.7'' \<noteq> IP_String (IPv4 10 0 0 9)"
    by (auto simp: IPv4_def)
  have b: "broker (node_mqtt log_node) = []"
    by (simp add: log_node_def sample_mqtt_client_def InitNetMqttClient_def)
  have "IP_Equal (Nodeip sample_entry) (ParseIP ''192.168.0.7'')" by (simp add: p sample_entry_def IPv4_Equal_iff)
  with address_change_reported [of "sample_netcfg\<lparr>NodePublicAddress := ''192.168.0.7''\<rparr>" "IPv4 10 0 0 9"
      "log_node\<lparr>node_env := sample_env\<lparr>env_table := \<lparr>translationTable = [sample_entry]\<rparr>\<rparr>\<rparr>"] ne b
  show ?thesis by force
qed

end
