(* ===== verification/NodeJobs.thy ===== *)
theory NodeJobs
  imports Requests JobInterest
begin

text \<open>
  The interests of \<open>mqtt/MqttJobUpdates.go\<close> together with the node they work on: the environment that a
  timer asks and clears is the node's own, and the lookups, refreshes and deployments that register
  interests run on the same client.
\<close>

section \<open>Goroutines of a node\<close>

text \<open>
  A timer can move unless it waits at its \<open>select\<close> for a case that is not ready; \<open>run_timer\<close> is \<open>None\<close>
  when the goroutine panics.
\<close>

fun timer_ready :: "timer_choice \<Rightarrow> timer_pc \<Rightarrow> NetMqttClient \<Rightarrow> bool" where
  "timer_ready PacketEvent (TLoop c) s \<longleftrightarrow> timer_receive c s \<noteq> None"
| "timer_ready Timeout (TLoop c) s \<longleftrightarrow> \<not> ch_closed (event_channels (event_bus s) ! c)"
| "timer_ready ch TDone s \<longleftrightarrow> False"
| "timer_ready ch pc s \<longleftrightarrow> True"

definition node_deployed :: "string \<Rightarrow> Environment option \<Rightarrow> bool" where
  "node_deployed job e \<longleftrightarrow> (case e of None \<Rightarrow> False | Some env \<Rightarrow> IsServiceDeployed job env)"

definition run_timer :: "timer_choice \<Rightarrow> nat \<Rightarrow> string \<Rightarrow> timer_pc \<Rightarrow> 'w node \<Rightarrow> 'w node option" where
  "run_timer ch i job pc s =
     do {
       (client, e) \<leftarrow> startSelfDestructTimeout node_deployed (\<lambda>job e. e \<bind> RemoveServiceEntries job)
                       ch i job pc (node_mqtt s, Some (node_env s));
       env \<leftarrow> e;
       Some (s\<lparr>node_env := env, node_mqtt := client\<rparr>)
     }"

text \<open>A refresh that an update started: it leaves the goroutines that still have to run.\<close>

definition take_update :: "nat \<Rightarrow> NetMqttClient \<Rightarrow> NetMqttClient" where
  "take_update n s = s\<lparr>job_updates := take n (job_updates s) @ drop (Suc n) (job_updates s)\<rparr>"

definition run_update :: "nat \<Rightarrow> TableQueryResponse list \<Rightarrow> 'w node \<Rightarrow> 'w node option" where
  "run_update n msgs s =
     RefreshServiceTable (job_updates (node_mqtt s) ! n) msgs (s\<lparr>node_mqtt := take_update n (node_mqtt s)\<rparr>)"

section \<open>What keeps the interests in order\<close>

lemma interest_ok_same: "same_jobs c c' \<Longrightarrow> interest_ok c \<Longrightarrow> interest_ok c'"
  by (rule interest_ok_cong) (auto simp: same_jobs_def dest: interest_okD(1))

lemma table_query_same:
  "tableQueryRequestBlocking sip sname force msgs c = Some (r, c') \<Longrightarrow> same_jobs c c'"
proof -
  assume q: "tableQueryRequestBlocking sip sname force msgs c = Some (r, c')"
  obtain b c1 where b: "query_begin sip sname force c = (b, c1)" by (cases "query_begin sip sname force c")
  then have c1: "same_jobs c c1"
    by (auto simp: query_begin_def Let_def PublishToBroker_def same_jobs_def split: option.splits if_splits)
  show ?thesis
  proof (cases b)
    case (Inl e)
    with q b c1 show ?thesis by (simp add: tableQueryRequestBlocking_def)
  next
    case (Inr n)
    with q b obtain c2 where c2: "handle_messages msgs c1 = Some c2" "c' = snd (query_end n c2)"
      by (auto simp: tableQueryRequestBlocking_def bind_eq_Some_conv)
    have "same_jobs c2 c'" unfolding c2(2) by (simp add: query_end_def same_jobs_def split: list.splits)
    with c1 handle_messages_frame [OF c2(1)] show ?thesis by (blast intro: same_jobs_trans)
  qed
qed

lemma node_query_same:
  "tableQueryByIP a force msgs c = Some (r, c') \<Longrightarrow> same_jobs c c'"
  "tableQueryByJobName j force msgs c = Some (r', c'') \<Longrightarrow> same_jobs c c''"
  by (auto simp: tableQueryByIP_def tableQueryByJobName_def TableQueryByIpRequestBlocking_def
      TableQueryByJobNameRequestBlocking_def dest: table_query_same)

lemma refresh_same:
  assumes "RefreshServiceTable j msgs s = Some s'"
  shows "same_jobs (node_mqtt s) (node_mqtt s')"
proof -
  from assms obtain r client where q: "tableQueryByJobName j True msgs (node_mqtt s) = Some (r, client)"
    by (auto simp: RefreshServiceTable_def bind_eq_Some_conv)
  then have "node_mqtt s' = client"
    using assms by (cases r) (auto simp: RefreshServiceTable_def bind_eq_Some_conv)
  with node_query_same(2) [OF q] show ?thesis by simp
qed

lemma notify_same: "same_jobs c (snd (NotifyDeploymentStatus n st i a a6 h p c))"
  by (simp add: NotifyDeploymentStatus_def PublishToBroker_def)

lemma deploy_interest:
  assumes "sound b4 b6 s" "Runtime task \<in> {CONTAINER_RUNTIME, UNIKERNEL_RUNTIME}"
    and "deploymentHandler os hash cfg task s = Some (r, s')"
  shows "same_jobs (node_mqtt s) (node_mqtt s')"
proof (cases "length (split_on CHR ''.'' (ServiceName task)) = 4")
  case True
  obtain deploy where d: "GetNetDeployment os hash (Runtime task) = Some deploy"
    using assms(2) by (cases "Runtime task = CONTAINER_RUNTIME") (auto simp: GetNetDeployment_def)
  from deploy_network_sound [OF assms(1) d, of "Pid task" "ServiceName task" "task_Instancenumber task" "PortMappings task"]
  obtain r1 s1 where s1: "deploy (Pid task) (ServiceName task) (task_Instancenumber task) (PortMappings task) s = Some (r1, s1)"
    "node_mqtt s1 = node_mqtt s" by blast
  with True d assms(3) show ?thesis
    by (cases r1) (auto simp: deploymentHandler_def Let_def NotifyDeploymentStatus_def PublishToBroker_def)
next
  case False
  with assms(3) show ?thesis by (simp add: deploymentHandler_def Let_def)
qed

lemma update_interest:
  assumes "updateInternalProxyDataStructures msgs task s = Some s'" "interest_ok (node_mqtt s)"
  shows "interest_ok (node_mqtt s')"
proof (cases "MqttIsInterestRegistered (ServiceName task) (node_mqtt s)")
  case True
  with assms show ?thesis by (simp add: updateInternalProxyDataStructures_def)
next
  case False
  with assms(1) obtain s1 where s1: "RefreshServiceTable (ServiceName task) msgs s = Some s1"
    "s' = s1\<lparr>node_mqtt := MqttRegisterInterest (ServiceName task) (node_mqtt s1)\<rparr>"
    by (auto simp: updateInternalProxyDataStructures_def bind_eq_Some_conv)
  from interest_ok_same [OF refresh_same [OF s1(1)] assms(2)] s1(2) show ?thesis by (simp add: register_ok)
qed

lemma execute_interest:
  assumes "sound b4 b6 s" "Runtime task \<in> {CONTAINER_RUNTIME, UNIKERNEL_RUNTIME}"
    and "execute_task os hash cfg msgs task s = Some (reply, s')" "interest_ok (node_mqtt s)"
  shows "interest_ok (node_mqtt s')"
proof -
  from assms(3) obtain r s1 where "deploymentHandler os hash cfg task s = Some (r, s1)"
    "updateInternalProxyDataStructures msgs task s1 = Some s'"
    by (auto simp: execute_task_def bind_eq_Some_conv)
  with deploy_interest [OF assms(1,2)] interest_ok_same [OF _ assms(4)] update_interest show ?thesis by blast
qed

lemma undeploy_mqtt:
  assumes "net_ok b4 b6 (node_env s)"
  shows "DetachContainer os sname inst s = Some s1 \<Longrightarrow> node_mqtt s1 = node_mqtt s"
    "DeleteUnikernelNamespace os sname inst s = Some s2 \<Longrightarrow> node_mqtt s2 = node_mqtt s"
  using detach_container_post [OF assms, of os sname inst] delete_unikernel_post [OF assms, of os sname inst] by auto

lemma serve_interest:
  assumes "sound b4 b6 s" "interest_ok (node_mqtt s)" "serve os hash cfg m req s = Some (w, s')"
  shows "interest_ok (node_mqtt s')"
proof -
  have ex: "interest_ok (node_mqtt t)"
    if "execute_task os hash cfg msgs (complete_task rt m task) s = Some (reply, t)"
      "rt \<in> {CONTAINER_RUNTIME, UNIKERNEL_RUNTIME}" for msgs rt task reply t
    using execute_interest [OF assms(1) _ that(1) assms(2)] that(2) by simp
  show ?thesis
  proof (cases "route_of req")
    case ContainerDeploy
    with assms(2,3) show ?thesis
      by (auto simp: serve_def containerDeploy_def Let_def bind_eq_Some_conv
          dest: ex split: if_splits prod.splits option.splits)
  next
    case ContainerUndeploy
    with assms show ?thesis
      by (auto simp: serve_def containerUndeploy_def Let_def bind_eq_Some_conv sound_def
          dest: undeploy_mqtt(1) split: if_splits prod.splits option.splits)
  next
    case UnikernelDeploy
    with assms(2,3) show ?thesis
      by (auto simp: serve_def CreateUnikernelNamesapce_def Let_def bind_eq_Some_conv
          dest: ex split: if_splits)
  next
    case UnikernelUndeploy
    with assms show ?thesis
      by (auto simp: serve_def DeleteUnikernelNamespaceHandler_def Let_def bind_eq_Some_conv sound_def
          dest: undeploy_mqtt(2) split: if_splits)
  qed
qed

section \<open>Timers and updates on a node\<close>

lemma timer_step_runs:
  assumes "events_ok (event_bus c)" "timer_ready ch pc c"
  shows "\<exists>c' e'. startSelfDestructTimeout deployed remove ch i job pc (c, e) = Some (c', e') \<and>
    e' = (if pc = TDeregistered then remove job e else e) \<and>
    siprequests c' = siprequests c \<and> response_channels c' = response_channels c"
proof (cases pc)
  case TStart
  then show ?thesis by (simp add: Register_def set_timer_def Let_def split: option.splits)
next
  case (TLoop n)
  with assms(2) show ?thesis
    by (cases ch) (auto simp: timer_receive_def Let_def set_timer_def split: list.splits if_splits)
next
  case TExpired
  then show ?thesis by (simp add: cleanInterestTowardsJob_def PublishToBroker_def set_timer_def)
next
  case TNotified
  then show ?thesis by (simp add: DeRegisterTopic_def set_timer_def)
next
  case TRemoved
  with DeRegister_ok [OF assms(1), of TableQuery job] show ?thesis by (auto simp: set_timer_def)
next
  case TDone
  with assms(2) show ?thesis by (cases ch) simp_all
qed (simp_all add: set_timer_def)

lemma run_timer_ok:
  assumes "sound b4 b6 s" "interest_ok (node_mqtt s)"
    and "i < length (timers (node_mqtt s))" "timers (node_mqtt s) ! i = (job, pc)" "timer_ready ch pc (node_mqtt s)"
  shows "\<exists>s'. run_timer ch i job pc s = Some s' \<and> sound b4 b6 s' \<and> interest_ok (node_mqtt s')"
proof -
  from assms(1) have ok: "node_ok s" "net_ok b4 b6 (node_env s)" by (simp_all add: sound_def)
  have "\<exists>c' e'. startSelfDestructTimeout node_deployed (\<lambda>job e. e \<bind> RemoveServiceEntries job) ch i job pc
        (node_mqtt s, Some (node_env s)) = Some (c', e') \<and>
      e' = (if pc = TDeregistered then Some (node_env s) \<bind> RemoveServiceEntries job else Some (node_env s)) \<and>
      siprequests c' = siprequests (node_mqtt s) \<and> response_channels c' = response_channels (node_mqtt s)"
    by (rule timer_step_runs [OF interest_okD(1) [OF assms(2)] assms(5)])
  then obtain c' e' where
    st: "startSelfDestructTimeout node_deployed (\<lambda>job e. e \<bind> RemoveServiceEntries job) ch i job pc
        (node_mqtt s, Some (node_env s)) = Some (c', e')"
    "e' = (if pc = TDeregistered then Some (node_env s) \<bind> RemoveServiceEntries job else Some (node_env s))"
    "siprequests c' = siprequests (node_mqtt s)" "response_channels c' = response_channels (node_mqtt s)" by (elim exE conjE)
  have t: "table_ok (env_table (node_env s))" using ok(1) by (simp add: node_ok_def)
  have "\<exists>env. e' = Some env \<and> table_ok (env_table env) \<and> table_only (node_env s) env"
  proof (cases "pc = TDeregistered")
    case True
    from RemoveByJobName_ok [OF t, of job] obtain x u where
      "RemoveByJobName job (env_table (node_env s)) = Some (x, u)" "table_ok u" by blast
    with True st(2) show ?thesis by (simp add: RemoveServiceEntries_def)
  next
    case False
    with st(2) t show ?thesis by simp
  qed
  then obtain env where env: "e' = Some env" "table_ok (env_table env)" "table_only (node_env s) env" by blast
  have i': "interest_ok c'" using timer_step_ok [OF assms(2-4) st(1)] .
  have "node_ok (s\<lparr>node_env := env, node_mqtt := c'\<rparr>)"
    using ok(1) env(2) interest_okD(1) [OF i'] query_ok_cong [OF st(3,4)] by (simp add: node_ok_def)
  with st(1) env i' sound_table_only [OF ok(2) env(3)] show ?thesis
    by (simp add: run_timer_def sound_def)
qed

end
