(* ===== verification/InterestLife.thy ===== *)
theory InterestLife
  imports NodeJobs
begin

text \<open>
  The end of an interest: what a timer leaves of its job when it gives up, and what a refresh that was
  started before does afterwards.
\<close>

section \<open>Dropping an interest\<close>

text \<open>The goroutine of one timer, run without another one in between.\<close>

fun timer_steps :: "nat \<Rightarrow> nat \<Rightarrow> 'w node \<Rightarrow> 'w node option" where
  "timer_steps i 0 s = Some s"
| "timer_steps i (Suc n) s =
     do { s \<leftarrow> run_timer Timeout i (fst (timers (node_mqtt s) ! i)) (snd (timers (node_mqtt s) ! i)) s;
          timer_steps i n s }"

text \<open>
  C23: A timer that finds its job unused drops it completely: the interest is withdrawn from the cluster and
  its topic unsubscribed, in this order and with nothing else sent, the interest is no longer registered
  while the others are, the goroutine has ended, and the table has lost the entries of the job and no other.
\<close>

theorem dropped_interest:
  assumes "interest_ok (node_mqtt s)" and "i < length (timers (node_mqtt s))"
    and "timers (node_mqtt s) ! i = (job, TLoop c)"
    and "\<not> ch_closed (event_channels (event_bus (node_mqtt s)) ! c)" and "\<not> IsServiceDeployed job (node_env s)"
  shows "\<exists>s'. timer_steps i 6 s = Some s' \<and> timers (node_mqtt s') = (timers (node_mqtt s))[i := (job, TDone)] \<and>
    (\<forall>k. MqttIsInterestRegistered k (node_mqtt s') \<longleftrightarrow> k \<noteq> job \<and> MqttIsInterestRegistered k (node_mqtt s)) \<and>
    map_of (topics (node_mqtt s')) (job_topic job) = None \<and>
    broker (node_mqtt s') = broker (node_mqtt s) @
      [Publish (net_topic (clientID (node_mqtt s)) ''interest/remove'') (InterestDeregisterRequest job),
       Unsubscribe (job_topic job)] \<and>
    table_entries (env_table (node_env s')) =
      filter_mset (\<lambda>e. JobName e \<noteq> job) (table_entries (env_table (node_env s)))"
proof -
  let ?c = "node_mqtt s"
  obtain b where b: "DeRegister TableQuery job (event_bus ?c) = Some b"
    using DeRegister_ok [OF interest_okD(1) [OF assms(1)]] by blast
  obtain t where t: "RemoveByJobName job (env_table (node_env s)) = Some (None, t)"
    "table_entries t = filter_mset (\<lambda>e. JobName e \<noteq> job) (table_entries (env_table (node_env s)))"
    using tab.remove_job_all by blast
  define c' where "c' = ?c\<lparr>timers := (timers ?c)[i := (job, TDone)],
    broker := broker ?c @ [Publish (net_topic (clientID ?c) ''interest/remove'') (InterestDeregisterRequest job),
       Unsubscribe (job_topic job)],
    topics := AList.delete (job_topic job) (topics ?c),
    runningHandlers := Slice_RemoveElem job (runningHandlers ?c), event_bus := b\<rparr>"
  define s' where "s' = s\<lparr>node_env := (node_env s)\<lparr>env_table := t\<rparr>, node_mqtt := c'\<rparr>"
  have six: "(6 :: nat) = Suc (Suc (Suc (Suc (Suc (Suc 0)))))" by simp
  have "timer_steps i 6 s = Some s'"
    using assms(2-5) b t(1)
    by (simp add: six run_timer_def node_deployed_def set_timer_def cleanInterestTowardsJob_def PublishToBroker_def
        DeRegisterTopic_def RemoveServiceEntries_def s'_def c'_def)
  moreover have "MqttIsInterestRegistered k c' \<longleftrightarrow> k \<noteq> job \<and> MqttIsInterestRegistered k ?c" for k
  proof -
    have "count (slice_elems (runningHandlers c')) k =
        count (slice_elems (runningHandlers ?c)) k - (if k = job then 1 else 0)"
      by (simp add: c'_def slice.elems_remove)
    moreover have "count (slice_elems (runningHandlers ?c)) k \<le> 1"
      using interest_okD(2,3) [OF assms(1), of k] by simp
    ultimately have "count (slice_elems (runningHandlers c')) k > 0 \<longleftrightarrow>
        k \<noteq> job \<and> count (slice_elems (runningHandlers ?c)) k > 0" by auto
    then show ?thesis by (simp add: MqttIsInterestRegistered_def slice.exists_iff)
  qed
  ultimately show ?thesis
    using t(2) by (intro exI [of _ s']) (simp add: s'_def c'_def delete_conv')
qed


text \<open>A node on which one job is of interest and its timer waits.\<close>

definition watching :: "NetMqttClient \<times> unit" where
  "watching = the (schedule_run (\<lambda>_ _. False) (\<lambda>_ e. e) [SRegister ''app.ns.srv.ns'', STimer 0 Timeout] (fresh_client, ()))"

lemma watching_runs:
  "schedule_run (\<lambda>_ _. False) (\<lambda>_ e. e) [SRegister ''app.ns.srv.ns'', STimer 0 Timeout] (fresh_client, ()) = Some watching \<and>
   timers (fst watching) = [(''app.ns.srv.ns'', TLoop 0)] \<and> \<not> ch_closed (event_channels (event_bus (fst watching)) ! 0) \<and>
   job_updates (fst watching) = []"
proof -
  have "\<exists>q. schedule_run (\<lambda>_ _. False) (\<lambda>_ e. e) [SRegister ''app.ns.srv.ns'', STimer 0 Timeout] (fresh_client, ()) = Some q \<and>
      timers (fst q) = [(''app.ns.srv.ns'', TLoop 0)] \<and> \<not> ch_closed (event_channels (event_bus (fst q)) ! 0) \<and>
      job_updates (fst q) = []"
    by (simp add: fresh_client_def InitNetMqttClient_def MqttRegisterInterest_def Slice_Exists_def Slice_Find_def
        findLocked_def NewSlice_def first_index_def RegisterTopic_def set_timer_def Register_def NewEvents_def make_chan_def)
  then show ?thesis by (auto simp: watching_def)
qed

lemma watching_ok: "interest_ok (fst watching)"
proof -
  have "interest_reachable (\<lambda>_ _. False) (\<lambda>_ e. e) watching"
  proof (rule schedule_run_reachable)
    show "schedule_run (\<lambda>_ _. False) (\<lambda>_ e. e) [SRegister ''app.ns.srv.ns'', STimer 0 Timeout] (fresh_client, ()) =
      Some watching" using watching_runs by (rule conjunct1)
    show "interest_reachable (\<lambda>_ _. False) (\<lambda>_ e. e) (fresh_client, ())"
      using fresh_client_init by (rule interest_reachable.init)
  qed
  then show ?thesis by (rule interest_reachable_ok)
qed

definition watching_node :: "os_call list node" where
  "watching_node = log_node\<lparr>node_env := sample_env\<lparr>env_table := \<lparr>translationTable = [sample_entry]\<rparr>\<rparr>, node_mqtt := fst watching\<rparr>"

lemma sample_env_idle: "\<not> IsServiceDeployed job (node_env watching_node)"
  using new_environment_services [OF sample_env_new] by (simp add: watching_node_def IsServiceDeployed_def)

theorem dropped_interest_witness:
  "\<exists>s'. timer_steps 0 6 watching_node = Some s' \<and> \<not> MqttIsInterestRegistered ''app.ns.srv.ns'' (node_mqtt s') \<and>
    table_entries (env_table (node_env s')) = {#}"
  using dropped_interest [of watching_node 0 "''app.ns.srv.ns''" 0] watching_runs watching_ok sample_env_idle
  by (force simp: watching_node_def table_entries_def sample_entry_def)

section \<open>A refresh that comes too late\<close>

text \<open>Lookups of one address, as the packets of a flow make them.\<close>

fun lookups :: "ip \<Rightarrow> TableQueryResponse list list \<Rightarrow> 'w node \<Rightarrow> (TableEntry list list \<times> 'w node) option" where
  "lookups a [] s = Some ([], s)"
| "lookups a (msgs # rest) s =
     do { (es, s) \<leftarrow> GetTableEntryByServiceIP a msgs s; (ess, s) \<leftarrow> lookups a rest s; Some (es # ess, s) }"

lemma known_lookups:
  assumes "SearchByServiceIP a (env_table (node_env s)) \<noteq> []" "events_ok (event_bus (node_mqtt s))"
  shows "\<exists>s'. lookups a ms s = Some (replicate (length ms) (SearchByServiceIP a (env_table (node_env s))), s') \<and>
    node_env s' = node_env s \<and> broker (node_mqtt s') = broker (node_mqtt s) \<and>
    runningHandlers (node_mqtt s') = runningHandlers (node_mqtt s)"
  using assms
proof (induction ms arbitrary: s)
  case Nil
  then show ?case by simp
next
  case (Cons msgs ms)
  from Cons.prems(1) obtain e es where e: "SearchByServiceIP a (env_table (node_env s)) = e # es" by (auto simp: neq_Nil_conv)
  from Emit_ok [OF Cons.prems(2), of "\<lparr>Event_EventType = TableQuery, EventTarget = JobName e, EventMessage = ''''\<rparr>"] obtain bus where
    bus: "Emit \<lparr>Event_EventType = TableQuery, EventTarget = JobName e, EventMessage = ''''\<rparr> (event_bus (node_mqtt s)) = Some bus"
    "events_ok bus" by blast
  let ?s = "s\<lparr>node_mqtt := (node_mqtt s)\<lparr>event_bus := bus\<rparr>\<rparr>"
  have "SearchByServiceIP a (env_table (node_env ?s)) \<noteq> []" "events_ok (event_bus (node_mqtt ?s))"
    using e bus(2) by simp_all
  from Cons.IH [OF this] obtain s' where "lookups a ms ?s =
      Some (replicate (length ms) (SearchByServiceIP a (env_table (node_env ?s))), s')" "node_env s' = node_env ?s"
    "broker (node_mqtt s') = broker (node_mqtt ?s)" "runningHandlers (node_mqtt s') = runningHandlers (node_mqtt ?s)" by blast
  with e bus(1) show ?case by (simp add: GetTableEntryByServiceIP_def)
qed

text \<open>
  C39: A refresh that an update started before the interest was dropped, and that runs afterwards, puts the
  entries of the job back into the table for good: the interest stays unregistered, so no update reaches
  the job any more, and every later lookup of a service address of such an entry is answered from the
  table, sends no query and registers no interest.
\<close>

theorem late_refresh_is_stale:
  assumes "interest_ok (node_mqtt s)" and "job_updates (node_mqtt s) ! n = job"
    and "\<not> MqttIsInterestRegistered job (node_mqtt s)"
    and "tableQueryByJobName job True msgs (take_update n (node_mqtt s)) = Some (Inr es, client)"
    and "new_to (filter (\<lambda>e. JobName e \<noteq> job) (translationTable (env_table (node_env s)))) es"
    and "e \<in> set es" and "serves a e"
  shows "\<exists>s'. run_update n msgs s = Some s' \<and> e \<in># table_entries (env_table (node_env s')) \<and>
    (\<forall>ms. \<exists>ess t. lookups a ms s' = Some (ess, t) \<and> (\<forall>es \<in> set ess. e \<in> set es) \<and>
       node_env t = node_env s' \<and> broker (node_mqtt t) = broker (node_mqtt s') \<and>
       \<not> MqttIsInterestRegistered job (node_mqtt t))"
proof -
  let ?t = "env_table (node_env s)"
  let ?s = "s\<lparr>node_mqtt := take_update n (node_mqtt s)\<rparr>"
  obtain t where t: "RemoveByJobName job ?t = Some (None, t)"
    "table_entries t = filter_mset (\<lambda>e. JobName e \<noteq> job) (table_entries ?t)"
    using tab.remove_job_all by blast
  then have "set (translationTable t) = set (filter (\<lambda>e. JobName e \<noteq> job) (translationTable ?t))"
    by (metis mset_filter set_mset_mset table_entries_def)
  with assms(5) have "new_to (translationTable t) es" using new_to_cong by blast
  from AddTableQueryEntries_new [of "(node_env s)\<lparr>env_table := t\<rparr>" es] this
  have "AddTableQueryEntries es ((node_env s)\<lparr>env_table := t\<rparr>) =
      Some ((node_env s)\<lparr>env_table := t\<lparr>translationTable := translationTable t @ es\<rparr>\<rparr>)" by simp
  with assms(2,4) t(1) obtain s' where s': "run_update n msgs s = Some s'"
    "translationTable (env_table (node_env s')) = translationTable t @ es"
    by (simp add: run_update_def RefreshServiceTable_def)
  have "same_jobs (take_update n (node_mqtt s)) (node_mqtt s')"
    using refresh_same [of job msgs ?s s'] s'(1) assms(2) by (simp add: run_update_def)
  then have jobs: "runningHandlers (node_mqtt s') = runningHandlers (node_mqtt s)" "events_ok (event_bus (node_mqtt s'))"
    using interest_okD(1) [OF assms(1)] by (simp_all add: same_jobs_def take_update_def)
  have e: "e \<in> set (SearchByServiceIP a (env_table (node_env s')))"
    using assms(6,7) s'(2) by (simp add: set_SearchByServiceIP)
  then have "SearchByServiceIP a (env_table (node_env s')) \<noteq> []" by auto
  from known_lookups [OF this jobs(2)] e assms(3) jobs(1)
  have "\<exists>ess t. lookups a ms s' = Some (ess, t) \<and> (\<forall>es \<in> set ess. e \<in> set es) \<and>
       node_env t = node_env s' \<and> broker (node_mqtt t) = broker (node_mqtt s') \<and>
       \<not> MqttIsInterestRegistered job (node_mqtt t)" for ms
    unfolding MqttIsInterestRegistered_def by (metis in_set_replicate)
  with s' assms(6) show ?thesis by (auto simp: table_entries_def)
qed


text \<open>
  The client after an update arrived for a job that nothing uses and whose timer then gave up, before the
  refresh ran.
\<close>

definition dropped_first :: "schedule list" where
  "dropped_first = [SRegister ''app.ns.srv.ns'', STimer 0 Timeout, SMessage ''jobs/app.ns.srv.ns/updates_available'',
     STimer 0 Timeout, STimer 0 Timeout, STimer 0 Timeout, STimer 0 Timeout, STimer 0 Timeout, STimer 0 Timeout]"

definition after_drop :: "NetMqttClient \<times> unit" where
  "after_drop = the (schedule_run (\<lambda>_ _. False) (\<lambda>_ e. e) dropped_first (fresh_client, ()))"

lemma dropped_first_runs:
  "schedule_run (\<lambda>_ _. False) (\<lambda>_ e. e) dropped_first (fresh_client, ()) = Some after_drop \<and>
   timers (fst after_drop) = [(''app.ns.srv.ns'', TDone)] \<and> job_updates (fst after_drop) = [''app.ns.srv.ns''] \<and>
   runningHandlers (fst after_drop) = NewSlice \<and> siprequests (fst after_drop) = (\<lambda>_. None) \<and>
   response_channels (fst after_drop) = []"
proof -
  have c: "Contains ''jobs/app.ns.srv.ns/updates_available'' ''nodes/n1/net/tablequery/result'' = False"
    "Contains ''jobs/app.ns.srv.ns/updates_available'' ''nodes/n1/net/subnetwork/result'' = False"
    "Contains ''jobs/app.ns.srv.ns/updates_available'' ''jobs/app.ns.srv.ns/updates_available''"
    by code_simp+
  have "\<exists>q. schedule_run (\<lambda>_ _. False) (\<lambda>_ e. e) dropped_first (fresh_client, ()) = Some q \<and>
      timers (fst q) = [(''app.ns.srv.ns'', TDone)] \<and> job_updates (fst q) = [''app.ns.srv.ns''] \<and>
      runningHandlers (fst q) = NewSlice \<and> siprequests (fst q) = (\<lambda>_. None) \<and> response_channels (fst q) = []"
    by (simp add: dropped_first_def c fresh_client_def InitNetMqttClient_def MqttRegisterInterest_def net_topic_def
        job_topic_def subscribeHandlerDispatcher_def MessageHandler_def
        Slice_Exists_def Slice_Find_def findLocked_def NewSlice_def first_index_def RegisterTopic_def
        set_timer_def Register_def NewEvents_def make_chan_def cleanInterestTowardsJob_def
        PublishToBroker_def DeRegisterTopic_def Slice_RemoveElem_def removeLocked_def Slice_Add_def
        DeRegister_def chan_close_def update_chan_def)
  then show ?thesis by (auto simp: after_drop_def)
qed


definition instance_response :: TableQueryResponse where
  "instance_response = \<lparr>resp_JobName = ''app.ns.srv.ns'', InstanceList =
     [\<lparr>InstanceNumber_of = 0, NamespaceIp = dotted [10, 19, 2, 12], NamespaceIpv6 = ''fc00::1'',
       HostIp = dotted [192, 168, 0, 7], HostPort = 50103,
       ServiceIp_of = [\<lparr>Sip_Type = ''RR'', Sip_Address = dotted [10, 30, 0, 5], Sip_Address_v6 = ''fc00::1''\<rparr>]\<rparr>],
     QueryKey = ''app.ns.srv.ns''\<rparr>"

definition parsed_instance :: TableEntry where
  "parsed_instance = \<lparr>JobName = ''app.ns.srv.ns'', Appname = ''app'', Appns = ''ns'', Servicename = ''srv'',
     Servicenamespace = ''ns'', Instancenumber = 0, Cluster = 0, Nodeip = IPv4 192 168 0 7, Nodeport = 50103,
     Nsip = IPv4 10 19 2 12, Nsipv6 = v6addr base6,
     ServiceIPs = [\<lparr>IpType = RoundRobin, Address = IPv4 10 30 0 5, Address_v6 = v6addr base6\<rparr>]\<rparr>"

lemma parse_instance: "responseParser instance_response = Inr [parsed_instance]"
proof -
  have "ParseIP ''fc00::1'' = v6addr base6" using sample_config6 by (simp add: sample_config_def)
  then show ?thesis
    by (simp add: responseParser_def instance_response_def parsed_instance_def ParseIP_dotted toServiceIP_def Let_def)
qed

lemma notify_keys_idle: "siprequests s = (\<lambda>_. None) \<Longrightarrow> notify_keys r keys s = Some s"
  by (induction keys) (simp_all add: notify_key_idle)

lemma idle_query:
  assumes "siprequests c = (\<lambda>_. None)" "response_channels c = []"
  shows "\<exists>c'. tableQueryByJobName ''app.ns.srv.ns'' True [instance_response] c = Some (Inr [parsed_instance], c')"
proof -
  obtain keys where keys: "querykeys instance_response = ''app.ns.srv.ns'' # keys"
    by (simp add: querykeys_def instance_response_def)
  have "(\<lambda>_. None)(k := None) = (\<lambda>_. None)" for k :: string by auto
  with assms keys parse_instance show ?thesis
    by (simp add: tableQueryByJobName_def TableQueryByJobNameRequestBlocking_def tableQueryRequestBlocking_def
      query_begin_def PublishToBroker_def make_chan_def TablequeryResultMqttHandler_def
      notify_key_def chan_full_def chan_send_def query_end_def parse_result_def Let_def notify_keys_idle)
qed

definition dropped_node :: "os_call list node" where
  "dropped_node = log_node\<lparr>node_mqtt := fst after_drop\<rparr>"

theorem late_refresh_is_stale_witness:
  "interest_reachable (\<lambda>_ _. False) (\<lambda>_ e. e) (node_mqtt dropped_node, ()) \<and>
   (\<exists>s'. run_update 0 [instance_response] dropped_node = Some s' \<and>
     parsed_instance \<in># table_entries (env_table (node_env s')) \<and>
     (\<exists>ess t. lookups (IPv4 10 30 0 5) [[], [], []] s' = Some (ess, t) \<and> \<not> MqttIsInterestRegistered ''app.ns.srv.ns'' (node_mqtt t)))"
proof
  note d = dropped_first_runs
  have r: "interest_reachable (\<lambda>_ _. False) (\<lambda>_ e. e) after_drop"
  proof (rule schedule_run_reachable)
    show "schedule_run (\<lambda>_ _. False) (\<lambda>_ e. e) dropped_first (fresh_client, ()) = Some after_drop"
      using d by (rule conjunct1)
    show "interest_reachable (\<lambda>_ _. False) (\<lambda>_ e. e) (fresh_client, ())"
      using fresh_client_init by (rule interest_reachable.init)
  qed
  moreover have "(fst after_drop, ()) = after_drop" by (rule prod_eqI) simp_all
  ultimately show "interest_reachable (\<lambda>_ _. False) (\<lambda>_ e. e) (node_mqtt dropped_node, ())"
    by (simp add: dropped_node_def)
  have ok: "interest_ok (node_mqtt dropped_node)" using interest_reachable_ok [OF r] by (simp add: dropped_node_def)
  have job: "job_updates (node_mqtt dropped_node) ! 0 = ''app.ns.srv.ns''" using d by (simp add: dropped_node_def)
  have unreg: "\<not> MqttIsInterestRegistered ''app.ns.srv.ns'' (node_mqtt dropped_node)"
    using d by (simp add: dropped_node_def MqttIsInterestRegistered_def slice.exists_iff slice.elems_empty)
  obtain c' where q: "tableQueryByJobName ''app.ns.srv.ns'' True [instance_response] (take_update 0 (node_mqtt dropped_node)) =
      Some (Inr [parsed_instance], c')"
    using idle_query [of "take_update 0 (node_mqtt dropped_node)"] d by (auto simp: dropped_node_def take_update_def)
  have empty: "translationTable (env_table (node_env dropped_node)) = []"
    using new_environment_table [OF sample_env_new] by (simp add: dropped_node_def log_node_def NewTableManager_def)
  have "isValid parsed_instance"
    by (simp add: isValid_def parsed_instance_def name_matches_def name_char_def Let_def IPv4_def v6addr_def)
  then have new: "new_to (filter (\<lambda>e. JobName e \<noteq> ''app.ns.srv.ns'') (translationTable (env_table (node_env dropped_node))))
      [parsed_instance]" by (simp add: empty)
  have serves: "serves (IPv4 10 30 0 5) parsed_instance"
    by (simp add: serves_def parsed_instance_def sip_matches_def IPv4_Equal_iff)
  from late_refresh_is_stale [OF ok job unreg q new _ serves]
  show "\<exists>s'. run_update 0 [instance_response] dropped_node = Some s' \<and>
     parsed_instance \<in># table_entries (env_table (node_env s')) \<and>
     (\<exists>ess t. lookups (IPv4 10 30 0 5) [[], [], []] s' = Some (ess, t) \<and> \<not> MqttIsInterestRegistered ''app.ns.srv.ns'' (node_mqtt t))"
    by (simp del: lookups.simps) blast
qed

end
