(* ===== verification/Executor.thy ===== *)
theory Executor
  imports NodeJobs NodeLookups
begin

text \<open>
  The deployment queue of \<open>handlers/deployment.go\<close> with its goroutine: handlers put tasks into a channel of
  fifty, the executor takes them in order, deploys, answers the handler that waits and only then updates the
  table, which may wait for a response of the cluster.
\<close>

section \<open>The queue\<close>

text \<open>
  What a deploy handler puts into the queue, with the response it has written to so far; \<open>None\<close> for the
  requests that are answered without the queue.
\<close>

type_synonym deploy_call = "ContainerDeployTask \<times> http_response"

definition submit :: "NetManager \<Rightarrow> http_request \<Rightarrow> deploy_call option" where
  "submit m req =
     (if WorkerID m = '''' then None
      else case route_of req of
        ContainerDeploy \<Rightarrow>
          if fst (deploy_body req) \<noteq> None then None
          else Some (complete_task CONTAINER_RUNTIME m (snd (deploy_body req)), new_response)
      | UnikernelDeploy \<Rightarrow>
          Some (complete_task UNIKERNEL_RUNTIME m (snd (deploy_body req)), refuse_body (fst (deploy_body req)) new_response)
      | _ \<Rightarrow> None)"

definition queue_size :: nat where "queue_size = 50"

text \<open>
  Where the executor is: before a receive, with a task to deploy, with the result for its handler, before the
  test for the interest, refreshing the table and before the registration of the interest.
\<close>

datatype executor_pc =
    XIdle
  | XDeploy deploy_call
  | XReply deploy_call "error + ip \<times> ip"
  | XUpdate ContainerDeployTask
  | XRefresh ContainerDeployTask refresh_pc
  | XRegister ContainerDeployTask

record deploy_queue =
  newTask :: "deploy_call list"
  executor :: executor_pc
  answers :: "http_response list"

definition NewDeployTaskQueue :: deploy_queue where
  "NewDeployTaskQueue = \<lparr>newTask = [], executor = XIdle, answers = []\<rparr>"

definition NewTask :: "deploy_call \<Rightarrow> deploy_queue \<Rightarrow> deploy_queue option" where
  "NewTask c q = (if length (newTask q) < queue_size then Some (q\<lparr>newTask := newTask q @ [c]\<rparr>) else None)"

text \<open>
  One step of the executor. The send on the unbuffered channel of a task meets the handler that waits there,
  which answers its client; \<open>sent\<close> is the error of writing that answer.
\<close>

fun executor_step :: "'w os \<Rightarrow> (string \<Rightarrow> nat \<Rightarrow> string) \<Rightarrow> NetConfiguration \<Rightarrow> error option \<Rightarrow> executor_pc \<Rightarrow>
    deploy_queue \<times> 'w node \<Rightarrow> (deploy_queue \<times> 'w node) option" where
  "executor_step os hash cfg sent XIdle (q, s) =
     Some (case newTask q of [] \<Rightarrow> q | c # cs \<Rightarrow> q\<lparr>newTask := cs, executor := XDeploy c\<rparr>, s)"
| "executor_step os hash cfg sent (XDeploy c) (q, s) =
     do { (r, s) \<leftarrow> deploymentHandler os hash cfg (fst c) s; Some (q\<lparr>executor := XReply c r\<rparr>, s) }"
| "executor_step os hash cfg sent (XReply c r) (q, s) =
     Some (q\<lparr>answers := answers q @ [answer_deploy sent (fst c) (task_ready r) (snd c)], executor := XUpdate (fst c)\<rparr>, s)"
| "executor_step os hash cfg sent (XUpdate task) (q, s) =
     Some (q\<lparr>executor := if MqttIsInterestRegistered (ServiceName task) (node_mqtt s) then XIdle else XRefresh task RQuery\<rparr>, s)"
| "executor_step os hash cfg sent (XRefresh task RReturn) (q, s) = Some (q\<lparr>executor := XRegister task\<rparr>, s)"
| "executor_step os hash cfg sent (XRefresh task pc) (q, s) =
     do { (pc, s) \<leftarrow> refresh_step (ServiceName task) pc s; Some (q\<lparr>executor := XRefresh task pc\<rparr>, s) }"
| "executor_step os hash cfg sent (XRegister task) (q, s) =
     Some (q\<lparr>executor := XIdle\<rparr>, registers (ServiceName task) s)"

lemma executor_step_refresh:
  "pc \<noteq> RReturn \<Longrightarrow> executor_step os hash cfg sent (XRefresh task pc) (q, s) =
    do { (pc, s) \<leftarrow> refresh_step (ServiceName task) pc s; Some (q\<lparr>executor := XRefresh task pc\<rparr>, s) }"
  by (cases pc) simp_all

text \<open>Requests outside the queue are served as before, the others by a round of the executor.\<close>

lemma serve_submit:
  assumes "submit m req = Some (task, w)"
  shows "serve os hash cfg m req s =
    do { (result, s) \<leftarrow> execute_task os hash cfg (meanwhile req) task s;
         Some (answer_deploy (write_error req) task result w, s) }"
proof -
  obtain err body where b: "deploy_body req = (err, body)" by fastforce
  with assms show ?thesis
    by (cases "route_of req")
      (auto simp: submit_def serve_def containerDeploy_def CreateUnikernelNamesapce_def Let_def split: if_splits)
qed

section \<open>A round of the executor\<close>

fun executor_rank :: "executor_pc \<Rightarrow> nat" where
  "executor_rank XIdle = 0" | "executor_rank (XDeploy _) = 5" | "executor_rank (XReply _ _) = 4"
| "executor_rank (XUpdate _) = 3" | "executor_rank (XRefresh _ _) = 2" | "executor_rank (XRegister _) = 1"

fun executor_refresh :: "executor_pc \<Rightarrow> refresh_pc" where
  "executor_refresh (XRefresh _ pc) = pc" | "executor_refresh _ = RReturn"

fun while_executing :: "TableQueryResponse list \<Rightarrow> executor_pc \<Rightarrow> 'w node \<Rightarrow> 'w node option" where
  "while_executing msgs (XRefresh _ pc) s = while_refreshing msgs pc s"
| "while_executing msgs pc s = Some s"

lemma executor_step_decreases:
  assumes "executor_step os hash cfg sent pc (q, s) = Some (q', s')" "pc \<noteq> XIdle"
  shows "executor_rank (executor q') < executor_rank pc \<or> executor_rank (executor q') = executor_rank pc \<and>
    (refresh_rank (executor_refresh (executor q')) < refresh_rank (executor_refresh pc) \<or>
     refresh_rank (executor_refresh (executor q')) = refresh_rank (executor_refresh pc) \<and>
     refresh_left (executor_refresh (executor q')) < refresh_left (executor_refresh pc))"
proof (cases "\<exists>task rpc. pc = XRefresh task rpc \<and> rpc \<noteq> RReturn")
  case True
  then obtain task rpc where pc: "pc = XRefresh task rpc" "rpc \<noteq> RReturn" by blast
  with assms(1) obtain rpc' where r: "refresh_step (ServiceName task) rpc s = Some (rpc', s')" "executor q' = XRefresh task rpc'"
    by (auto simp: executor_step_refresh bind_eq_Some_conv)
  with pc refresh_step_decreases [OF r(1) pc(2)] show ?thesis by simp
next
  case False
  with assms show ?thesis
    by (cases "(os, hash, cfg, sent, pc, q, s)" rule: executor_step.cases) (auto simp: bind_eq_Some_conv split: if_splits)
qed

function executor_rest :: "'w os \<Rightarrow> (string \<Rightarrow> nat \<Rightarrow> string) \<Rightarrow> NetConfiguration \<Rightarrow> error option \<Rightarrow>
    TableQueryResponse list \<Rightarrow> deploy_queue \<Rightarrow> 'w node \<Rightarrow> (deploy_queue \<times> 'w node) option" where
  "executor_rest os hash cfg sent msgs q s =
     (if executor q = XIdle then Some (q, s)
      else do {
        s \<leftarrow> while_executing msgs (executor q) s;
        (q, s) \<leftarrow> executor_step os hash cfg sent (executor q) (q, s);
        executor_rest os hash cfg sent msgs q s
      })"
  by pat_completeness auto
termination
proof (relation "measures [\<lambda>(os, hash, cfg, sent, msgs, q, s). executor_rank (executor q),
    \<lambda>(os, hash, cfg, sent, msgs, q, s). refresh_rank (executor_refresh (executor q)),
    \<lambda>(os, hash, cfg, sent, msgs, q, s). refresh_left (executor_refresh (executor q))]", goal_cases)
  case (2 os hash cfg sent msgs q s s1 r q' s')
  from executor_step_decreases [of os hash cfg sent "executor q" q s1 q' s'] 2(1,3) 2(4) [symmetric]
  show ?case by simp
qed simp

declare executor_rest.simps [simp del]

lemma executor_rest_idle [simp]: "executor q = XIdle \<Longrightarrow> executor_rest os hash cfg sent msgs q s = Some (q, s)"
  by (simp add: executor_rest.simps)

lemma executor_rest_next:
  "executor q \<noteq> XIdle \<Longrightarrow> executor_rest os hash cfg sent msgs q s =
    do { s \<leftarrow> while_executing msgs (executor q) s; (q, s) \<leftarrow> executor_step os hash cfg sent (executor q) (q, s);
         executor_rest os hash cfg sent msgs q s }"
  by (subst executor_rest.simps) simp

lemma executor_rest_register:
  "executor_rest os hash cfg sent msgs (q\<lparr>executor := XRegister task\<rparr>) s =
    Some (q\<lparr>executor := XIdle\<rparr>, registers (ServiceName task) s)"
  by (simp add: executor_rest_next)

lemma executor_rest_refresh:
  "executor_rest os hash cfg sent msgs (q\<lparr>executor := XRefresh task pc\<rparr>) s =
    do { s \<leftarrow> refresh_rest (ServiceName task) msgs pc s; Some (q\<lparr>executor := XIdle\<rparr>, registers (ServiceName task) s) }"
proof (induction "ServiceName task" msgs pc s rule: refresh_rest.induct)
  case (1 msgs pc s)
  show ?case
  proof (cases "pc = RReturn")
    case True
    then show ?thesis by (simp add: executor_rest_next [of "q\<lparr>executor := XRefresh _ _\<rparr>"] executor_rest_register)
  next
    case False
    note next_steps = executor_rest_next [of "q\<lparr>executor := XRefresh _ _\<rparr>"] executor_step_refresh refresh_rest_next [OF False]
    show ?thesis
    proof (cases "while_refreshing msgs pc s")
      case None
      then show ?thesis by (simp add: next_steps)
    next
      case (Some s1)
      show ?thesis
      proof (cases "refresh_step (ServiceName task) pc s1")
        case None
        with False Some show ?thesis by (simp add: next_steps)
      next
        case (Some r)
        then obtain pc' s' where r: "refresh_step (ServiceName task) pc s1 = Some (pc', s')" by (cases r) simp
        from 1 [OF False \<open>while_refreshing _ _ _ = Some s1\<close> r HOL.refl] False \<open>while_refreshing _ _ _ = Some s1\<close> r
        show ?thesis by (simp add: next_steps)
      qed
    qed
  qed
qed

lemma executor_rest_update:
  "executor_rest os hash cfg sent msgs (q\<lparr>executor := XUpdate task\<rparr>) s =
    do { s \<leftarrow> updateInternalProxyDataStructures msgs task s; Some (q\<lparr>executor := XIdle\<rparr>, s) }"
  by (cases "MqttIsInterestRegistered (ServiceName task) (node_mqtt s)";
      cases "RefreshServiceTable (ServiceName task) msgs s")
    (simp_all add: executor_rest_next [of "q\<lparr>executor := XUpdate _\<rparr>"] executor_rest_refresh
      refresh_uninterrupted updateInternalProxyDataStructures_def registers_def)

text \<open>
  The round of the executor step by step, with nothing in between but the responses that the refresh
  waits for, is the deployment followed by the update of the table; the handler has its answer before the
  update starts.
\<close>

lemma executor_is_execute_task:
  "executor_rest os hash cfg sent msgs (q\<lparr>executor := XDeploy (task, w)\<rparr>) s =
    do { (reply, s) \<leftarrow> execute_task os hash cfg msgs task s;
         Some (q\<lparr>answers := answers q @ [answer_deploy sent task reply w], executor := XIdle\<rparr>, s) }"
proof (cases "deploymentHandler os hash cfg task s")
  case None
  then show ?thesis by (simp add: executor_rest_next execute_task_def)
next
  case (Some x)
  obtain r s1 where x: "x = (r, s1)" by fastforce
  let ?q = "q\<lparr>answers := answers q @ [answer_deploy sent task (task_ready r) w]\<rparr>"
  have "executor_rest os hash cfg sent msgs (q\<lparr>executor := XDeploy (task, w)\<rparr>) s =
      executor_rest os hash cfg sent msgs (?q\<lparr>executor := XUpdate task\<rparr>) s1"
    using Some x
    by (simp add: executor_rest_next [of "q\<lparr>executor := XDeploy _\<rparr>"] executor_rest_next [of "q\<lparr>executor := XReply _ _\<rparr>"])
  with Some x show ?thesis
    by (cases "updateInternalProxyDataStructures msgs task s1") (simp_all add: executor_rest_update execute_task_def)
qed

section \<open>What the queue keeps\<close>

definition call_ok :: "deploy_call \<Rightarrow> bool" where
  "call_ok c \<longleftrightarrow> Runtime (fst c) \<in> {CONTAINER_RUNTIME, UNIKERNEL_RUNTIME} \<and> status (snd c) \<in> {None, Some StatusBadRequest}"

fun executor_ok :: "executor_pc \<Rightarrow> bool" where
  "executor_ok (XDeploy c) \<longleftrightarrow> call_ok c" | "executor_ok (XReply c r) \<longleftrightarrow> call_ok c" | "executor_ok _ \<longleftrightarrow> True"

definition queue_ok :: "deploy_queue \<Rightarrow> bool" where
  "queue_ok q \<longleftrightarrow> length (newTask q) \<le> queue_size \<and> list_all call_ok (newTask q) \<and> executor_ok (executor q) \<and>
     list_all (\<lambda>w. status w \<in> {Some 200, Some 400, Some 500}) (answers q)"

lemma queue_ok_New [simp]: "queue_ok NewDeployTaskQueue"
  by (simp add: queue_ok_def NewDeployTaskQueue_def)

lemma submit_ok: "submit m req = Some c \<Longrightarrow> call_ok c"
  by (auto simp: submit_def call_ok_def refuse_body_def WriteHeader_def new_response_def split: if_splits route.splits)

lemma NewTask_ok: "queue_ok q \<Longrightarrow> call_ok c \<Longrightarrow> NewTask c q = Some q' \<Longrightarrow> queue_ok q'"
  by (auto simp: queue_ok_def NewTask_def split: if_splits)

section \<open>Every task is answered\<close>

text \<open>
  Rounds of the executor one after the other, each with the responses that arrive in it and the error of
  writing its answer.
\<close>

fun drain :: "'w os \<Rightarrow> (string \<Rightarrow> nat \<Rightarrow> string) \<Rightarrow> NetConfiguration \<Rightarrow> (TableQueryResponse list \<times> error option) list \<Rightarrow>
    deploy_queue \<Rightarrow> 'w node \<Rightarrow> (deploy_queue \<times> 'w node) option" where
  "drain os hash cfg [] q s = Some (q, s)"
| "drain os hash cfg ((msgs, sent) # rounds) q s =
     do {
       (q, s) \<leftarrow> executor_step os hash cfg sent (executor q) (q, s);
       (q, s) \<leftarrow> executor_rest os hash cfg sent msgs q s;
       drain os hash cfg rounds q s
     }"

lemma drain_executes:
  assumes "executor q = XIdle" "length rounds = length (newTask q)" "list_all call_ok (newTask q)" "sound b4 b6 s"
  shows "\<exists>q' s' ws. drain os hash cfg rounds q s = Some (q', s') \<and> newTask q' = [] \<and> executor q' = XIdle \<and>
    answers q' = answers q @ ws \<and> sound b4 b6 s' \<and>
    length ws = length (newTask q) \<and>
    (\<exists>replies. taskExecutor os hash cfg (zip (map fst (newTask q)) (map fst rounds)) s = Some (replies, s') \<and>
       ws = map2 (\<lambda>(c, r) reply. answer_deploy (snd r) (fst c) reply (snd c)) (zip (newTask q) rounds) replies)"
  using assms
proof (induction rounds arbitrary: q s)
  case Nil
  then show ?case by simp
next
  case (Cons r rounds)
  from Cons.prems(2) obtain c cs where q: "newTask q = c # cs" by (cases "newTask q") simp_all
  obtain task w where c: "c = (task, w)" by fastforce
  obtain msgs sent where r: "r = (msgs, sent)" by fastforce
  from Cons.prems(3) q c have "Runtime task \<in> {CONTAINER_RUNTIME, UNIKERNEL_RUNTIME}" by (simp add: call_ok_def)
  from execute_task_sound [OF Cons.prems(4) this, of os hash cfg msgs] obtain reply s1 where
    s1: "execute_task os hash cfg msgs task s = Some (reply, s1)" "sound b4 b6 s1" by blast
  let ?q = "q\<lparr>newTask := cs, answers := answers q @ [answer_deploy sent task reply w], executor := XIdle\<rparr>"
  have "executor_rest os hash cfg sent msgs ((q\<lparr>newTask := cs\<rparr>)\<lparr>executor := XDeploy (task, w)\<rparr>) s = Some (?q, s1)"
    using s1(1) by (simp only: executor_is_execute_task) simp
  then have first: "drain os hash cfg (r # rounds) q s = drain os hash cfg rounds ?q s1"
    using Cons.prems(1) q c r by simp
  from Cons.IH [of ?q s1] Cons.prems(2,3) q s1(2) obtain q' s' ws replies where
    "drain os hash cfg rounds ?q s1 = Some (q', s')" "newTask q' = []" "executor q' = XIdle"
    "answers q' = answers q @ [answer_deploy sent task reply w] @ ws" "sound b4 b6 s'"
    "length ws = length cs"
    "taskExecutor os hash cfg (zip (map fst cs) (map fst rounds)) s1 = Some (replies, s')"
    "ws = map2 (\<lambda>(c, r) reply. answer_deploy (snd r) (fst c) reply (snd c)) (zip cs rounds) replies" by auto
  with first q c r s1(1) show ?case by auto
qed


definition sample_queue :: deploy_queue where
  "sample_queue = NewDeployTaskQueue\<lparr>newTask :=
     [(complete_task CONTAINER_RUNTIME sample_manager sample_task, new_response),
      (complete_task UNIKERNEL_RUNTIME sample_manager sample_task, WriteHeader StatusBadRequest new_response)]\<rparr>"


end
