(* ===== verification/Daemon.thy ===== *)
theory Daemon
  imports ServerSafety Executor
begin

text \<open>
  The whole daemon of a registered node: the readers, the two handlers and the eviction job of the proxy, the
  HTTP handlers, the executor of the deployments, the timers of the interests, the response handler, the
  updates of jobs that the broker announces with the refreshes they start, and the job on address changes, in
  any interleaving of their steps on one node.
\<close>

section \<open>State\<close>

text \<open>The refreshes are the goroutines that updates have started, with the place where each one is.\<close>

record ('w, 'u, 'd) daemon =
  the_system :: "('w node, 'u, 'd) proxy_system"
  deployments :: deploy_queue
  refreshes :: "(string \<times> refresh_pc) list"

definition node_of :: "('w, 'u, 'd) daemon \<Rightarrow> 'w node" where
  "node_of d = environment (the_proxy (the_system d))"

definition set_node :: "'w node \<Rightarrow> ('w, 'u, 'd) daemon \<Rightarrow> ('w, 'u, 'd) daemon" where
  "set_node s d = d\<lparr>the_system := (the_system d)\<lparr>the_proxy := (the_proxy (the_system d))\<lparr>environment := s\<rparr>\<rparr>\<rparr>"

definition panicked :: "('w, 'u, 'd) daemon \<Rightarrow> ('w, 'u, 'd) daemon" where
  "panicked d = d\<lparr>the_system := (the_system d)\<lparr>crashed := True\<rparr>\<rparr>"

definition daemon_start :: "('w node, 'u, 'd) GoProxyTunnel \<Rightarrow> ('w, 'u, 'd) daemon" where
  "daemon_start p = \<lparr>the_system = starting p, deployments = NewDeployTaskQueue, refreshes = []\<rparr>"

section \<open>Steps\<close>

text \<open>
  The steps of goroutines that keep no place of their own: a request that is answered without the queue, a
  step of a timer, a response of the cluster, the announcement of an update, and a round of the address job.
\<close>

inductive daemon_change :: "'w os \<Rightarrow> (string \<Rightarrow> nat \<Rightarrow> string) \<Rightarrow> NetManager \<Rightarrow> 'w node \<Rightarrow> 'w node option \<Rightarrow> bool"
  for os hash m where
  request: "submit m req = None \<Longrightarrow> daemon_change os hash m s (map_option snd (serve os hash cfg m req s))"
| timer: "i < length (timers (node_mqtt s)) \<Longrightarrow> timers (node_mqtt s) ! i = (job, pc) \<Longrightarrow>
    timer_ready ch pc (node_mqtt s) \<Longrightarrow> daemon_change os hash m s (run_timer ch i job pc s)"
| response: "daemon_change os hash m s (handled [r] s)"
| job_message: "JobUpdateHandler job \<in> set (subscribeHandlerDispatcher topic (node_mqtt s)) \<Longrightarrow>
    daemon_change os hash m s (Some (s\<lparr>node_mqtt := MessageHandler job (node_mqtt s)\<rparr>))"
| address: "daemon_change os hash m s (Some (snd (update_round a cfg s)))"

definition start_refresh :: "nat \<Rightarrow> ('w, 'u, 'd) daemon \<Rightarrow> ('w, 'u, 'd) daemon" where
  "start_refresh n d =
     (let s = node_of d in
      set_node (s\<lparr>node_mqtt := take_update n (node_mqtt s)\<rparr>)
        (d\<lparr>refreshes := refreshes d @ [(job_updates (node_mqtt s) ! n, RQuery)]\<rparr>))"

inductive daemon_step :: "'w os \<Rightarrow> (string \<Rightarrow> nat \<Rightarrow> string) \<Rightarrow> NetManager \<Rightarrow> (byte list \<Rightarrow> bool) \<Rightarrow> 'u netio \<Rightarrow>
    ('d, 'z) gopacket_scheme \<Rightarrow> ('w, 'u, 'd) daemon \<Rightarrow> ('w, 'u, 'd) daemon \<Rightarrow> bool"
  for os hash m read io lib where
  proxy: "proxy_step (daemon_change os hash m) read io lib (the_system d) sys \<Longrightarrow>
    daemon_step os hash m read io lib d (d\<lparr>the_system := sys\<rparr>)"
| queued: "\<not> crashed (the_system d) \<Longrightarrow> submit m req = Some c \<Longrightarrow> NewTask c (deployments d) = Some q \<Longrightarrow>
    daemon_step os hash m read io lib d (d\<lparr>deployments := q\<rparr>)"
| execute: "\<not> crashed (the_system d) \<Longrightarrow>
    executor_step os hash cfg sent (executor (deployments d)) (deployments d, node_of d) = Some (q, s) \<Longrightarrow>
    daemon_step os hash m read io lib d (set_node s (d\<lparr>deployments := q\<rparr>))"
| execute_panic: "\<not> crashed (the_system d) \<Longrightarrow>
    executor_step os hash cfg sent (executor (deployments d)) (deployments d, node_of d) = None \<Longrightarrow>
    daemon_step os hash m read io lib d (panicked d)"
| update: "\<not> crashed (the_system d) \<Longrightarrow> n < length (job_updates (node_mqtt (node_of d))) \<Longrightarrow>
    daemon_step os hash m read io lib d (start_refresh n d)"
| refresh: "\<not> crashed (the_system d) \<Longrightarrow> i < length (refreshes d) \<Longrightarrow> refreshes d ! i = (job, pc) \<Longrightarrow>
    refresh_step job pc (node_of d) = Some (pc', s) \<Longrightarrow>
    daemon_step os hash m read io lib d (set_node s (d\<lparr>refreshes := (refreshes d)[i := (job, pc')]\<rparr>))"
| refresh_panic: "\<not> crashed (the_system d) \<Longrightarrow> i < length (refreshes d) \<Longrightarrow> refreshes d ! i = (job, pc) \<Longrightarrow>
    refresh_step job pc (node_of d) = None \<Longrightarrow>
    daemon_step os hash m read io lib d (panicked d)"

inductive daemon_reachable :: "'w os \<Rightarrow> (string \<Rightarrow> nat \<Rightarrow> string) \<Rightarrow> NetManager \<Rightarrow> (byte list \<Rightarrow> bool) \<Rightarrow> 'u netio \<Rightarrow>
    ('d, 'z) gopacket_scheme \<Rightarrow> ('w node, 'u, 'd) GoProxyTunnel \<Rightarrow> ('w, 'u, 'd) daemon \<Rightarrow> bool"
  for os hash m read io lib p where
  start: "daemon_reachable os hash m read io lib p (daemon_start p)"
| step: "daemon_reachable os hash m read io lib p d \<Longrightarrow> daemon_step os hash m read io lib d d' \<Longrightarrow>
    daemon_reachable os hash m read io lib p d'"

section \<open>The invariant\<close>

text \<open>A sound node whose interests have one timer each.\<close>

definition daemon_ok :: "nat \<Rightarrow> nat \<Rightarrow> 'w node \<Rightarrow> bool" where
  "daemon_ok b4 b6 s \<longleftrightarrow> sound b4 b6 s \<and> interest_ok (node_mqtt s)"

lemma daemon_ok_client:
  assumes "daemon_ok b4 b6 s" "interest_ok c" "siprequests c = siprequests (node_mqtt s)"
    "response_channels c = response_channels (node_mqtt s)"
  shows "daemon_ok b4 b6 (s\<lparr>node_mqtt := c\<rparr>)"
  using assms(1,2) interest_okD(1) [OF assms(2)] query_ok_cong [OF assms(3,4)]
  by (simp add: daemon_ok_def sound_def node_ok_def)

text \<open>The node of the daemon takes the steps of lookups and refreshes.\<close>

interpretation dm: node_invariant "daemon_ok b4 b6" for b4 b6
proof unfold_locales
  show "daemon_ok b4 b6 s \<Longrightarrow> node_ok s" for s :: "'w node"
    by (simp add: daemon_ok_def sound_def)
  show "daemon_ok b4 b6 s \<Longrightarrow> query_ok c \<Longrightarrow> same_jobs (node_mqtt s) c \<Longrightarrow> daemon_ok b4 b6 (s\<lparr>node_mqtt := c\<rparr>)"
    for s :: "'w node" and c
    using ni.keeps_query [of s c] interest_ok_same [of "node_mqtt s" c] by (simp add: daemon_ok_def sound_def)
  show "daemon_ok b4 b6 s \<Longrightarrow> events_ok bus \<Longrightarrow> daemon_ok b4 b6 (s\<lparr>node_mqtt := (node_mqtt s)\<lparr>event_bus := bus\<rparr>\<rparr>)"
    for s :: "'w node" and bus
    using interest_ok_cong [of "(node_mqtt s)\<lparr>event_bus := bus\<rparr>" "node_mqtt s"]
      daemon_ok_client [of b4 b6 s "(node_mqtt s)\<lparr>event_bus := bus\<rparr>"] by (simp add: daemon_ok_def)
  show "daemon_ok b4 b6 s \<Longrightarrow> daemon_ok b4 b6 (registers job s)" for s :: "'w node" and job
    using ni.keeps_interest [of s job] register_ok [of "node_mqtt s" job]
    by (simp add: daemon_ok_def sound_def registers_def)
  show "daemon_ok b4 b6 s \<Longrightarrow> table_ok t \<Longrightarrow> daemon_ok b4 b6 (s\<lparr>node_env := (node_env s)\<lparr>env_table := t\<rparr>\<rparr>)"
    for s :: "'w node" and t
    using ni.keeps_table [of s t] by (simp add: daemon_ok_def sound_def net_ok_table)
qed

lemma update_round_client:
  "\<exists>b. snd (update_round a cfg s) = s\<lparr>node_mqtt := (node_mqtt s)\<lparr>broker := b\<rparr>\<rparr>"
proof (cases "NodePublicAddress cfg = IP_String a")
  case True
  then show ?thesis by (intro exI [of _ "broker (node_mqtt s)"]) (simp add: update_round_def)
next
  case False
  then show ?thesis by (auto simp: update_round_def notify_all_result)
qed

lemma other_client_ok:
  assumes "daemon_ok b4 b6 s" "timers c = timers (node_mqtt s)" "topics c = topics (node_mqtt s)"
    "runningHandlers c = runningHandlers (node_mqtt s)" "event_bus c = event_bus (node_mqtt s)"
    "siprequests c = siprequests (node_mqtt s)" "response_channels c = response_channels (node_mqtt s)"
  shows "daemon_ok b4 b6 (s\<lparr>node_mqtt := c\<rparr>)"
proof (rule daemon_ok_client [OF assms(1) _ assms(6,7)])
  have i: "interest_ok (node_mqtt s)" using assms(1) by (simp add: daemon_ok_def)
  show "interest_ok c" using interest_ok_cong [OF assms(2-4) _ i] interest_okD(1) [OF i] assms(5) by simp
qed

lemma daemon_change_ok:
  assumes "daemon_change os hash m s r" "daemon_ok b4 b6 s"
  shows "\<exists>s'. r = Some s' \<and> daemon_ok b4 b6 s'"
  using assms(1)
proof cases
  case (request req cfg)
  from assms(2) have s: "sound b4 b6 s" "interest_ok (node_mqtt s)" by (simp_all add: daemon_ok_def)
  from serve_sound [OF s(1), of os hash cfg m req] obtain w s' where
    "serve os hash cfg m req s = Some (w, s')" "sound b4 b6 s'" by blast
  with serve_interest [OF s] request show ?thesis by (simp add: daemon_ok_def)
next
  case (timer i job pc ch)
  with assms(2) run_timer_ok [OF _ _ timer(2-4), of b4 b6] show ?thesis by (auto simp: daemon_ok_def)
next
  case (response r)
  with dm.handled_ok [OF assms(2)] show ?thesis by simp
next
  case (job_message job topic)
  with other_client_ok [OF assms(2), of "MessageHandler job (node_mqtt s)"] show ?thesis by simp
next
  case (address a cfg)
  obtain b where b: "snd (update_round a cfg s) = s\<lparr>node_mqtt := (node_mqtt s)\<lparr>broker := b\<rparr>\<rparr>"
    using update_round_client by blast
  with other_client_ok [OF assms(2), of "(node_mqtt s)\<lparr>broker := b\<rparr>"] address show ?thesis by simp
qed

lemma daemon_tolerated: "tolerated (daemon_ok b4 b6) (daemon_change os hash m)"
  using daemon_change_ok unfolding tolerated_def by blast

lemma executor_step_ok:
  assumes "daemon_ok b4 b6 s" "queue_ok q"
  shows "\<exists>q' s'. executor_step os hash cfg sent (executor q) (q, s) = Some (q', s') \<and> daemon_ok b4 b6 s' \<and> queue_ok q'"
proof (cases "executor q")
  case XIdle
  with assms show ?thesis by (cases "newTask q") (simp_all add: queue_ok_def)
next
  case (XDeploy c)
  with assms have c: "Runtime (fst c) \<in> {CONTAINER_RUNTIME, UNIKERNEL_RUNTIME}" "sound b4 b6 s" "interest_ok (node_mqtt s)"
    by (simp_all add: queue_ok_def call_ok_def daemon_ok_def)
  from deploymentHandler_sound [OF c(2,1), of os hash cfg] obtain r s' where
    s': "deploymentHandler os hash cfg (fst c) s = Some (r, s')" "sound b4 b6 s'" by blast
  have "interest_ok (node_mqtt s')" using interest_ok_same [OF deploy_interest [OF c(2,1) s'(1)] c(3)] .
  with s' XDeploy assms show ?thesis by (simp add: queue_ok_def daemon_ok_def)
next
  case (XReply c r)
  with assms show ?thesis
    by (auto simp: queue_ok_def call_ok_def status_answer split: option.splits)
next
  case (XRefresh task pc)
  show ?thesis
  proof (cases "pc = RReturn")
    case False
    from dm.refresh_step_ok [OF assms(1), of "ServiceName task" pc] XRefresh assms(2) False show ?thesis
      by (auto simp: executor_step_refresh queue_ok_def)
  qed (use XRefresh assms in \<open>simp add: queue_ok_def\<close>)
qed (use assms dm.keeps_interest in \<open>simp_all add: queue_ok_def\<close>)

definition all_ok :: "nat \<Rightarrow> nat \<Rightarrow> ('w, 'u, 'd) daemon \<Rightarrow> bool" where
  "all_ok b4 b6 d \<longleftrightarrow> running_ok (daemon_ok b4 b6) (the_system d) \<and> queue_ok (deployments d)"

lemma all_ok_node: "all_ok b4 b6 d \<Longrightarrow> daemon_ok b4 b6 (node_of d)"
  by (simp add: all_ok_def running_ok_def system_ok_def proxy_ok_def node_of_def)

lemma all_ok_set:
  "all_ok b4 b6 d \<Longrightarrow> daemon_ok b4 b6 s \<Longrightarrow> queue_ok q \<Longrightarrow>
    all_ok b4 b6 (set_node s (d\<lparr>deployments := q, refreshes := rs\<rparr>))"
  by (simp add: all_ok_def running_ok_def system_ok_def proxy_ok_def channels_ok_def set_node_def)

lemma daemon_step_ok:
  assumes "daemon_step os hash m read io lib d d'" "serializes lib" "\<And>b. read b \<Longrightarrow> b \<noteq> []" "all_ok b4 b6 d"
  shows "all_ok b4 b6 d'"
proof -
  note node = all_ok_node [OF assms(4)]
  have q: "queue_ok (deployments d)" using assms(4) by (simp add: all_ok_def)
  from assms(1) show ?thesis
  proof cases
    case (proxy sys)
    with proxy_step_ok [OF proxy(2) assms(2,3) _ dm.node_invariant_axioms daemon_tolerated] assms(4)
    show ?thesis by (simp add: all_ok_def)
  next
    case (queued req c q')
    with NewTask_ok [OF q submit_ok] assms(4) show ?thesis by (simp add: all_ok_def)
  next
    case (execute cfg sent q' s)
    with executor_step_ok [OF node q, of os hash cfg sent] all_ok_set [OF assms(4), of s q' "refreshes d"] show ?thesis by simp
  next
    case (execute_panic cfg sent)
    with executor_step_ok [OF node q, of os hash cfg sent] show ?thesis by simp
  next
    case (update n)
    have "daemon_ok b4 b6 ((node_of d)\<lparr>node_mqtt := take_update n (node_mqtt (node_of d))\<rparr>)"
      by (rule other_client_ok [OF node]) (simp_all add: take_update_def)
    from all_ok_set [OF assms(4) this q] update show ?thesis by (simp add: start_refresh_def Let_def)
  next
    case (refresh i job pc pc' s)
    with dm.refresh_step_ok [OF node, of job pc] all_ok_set [OF assms(4) _ q] show ?thesis by simp
  next
    case (refresh_panic i job pc)
    with dm.refresh_step_ok [OF node, of job pc] show ?thesis by simp
  qed
qed

lemma daemon_reachable_ok:
  assumes "serializes lib" "\<And>b. read b \<Longrightarrow> b \<noteq> []"
  shows "daemon_reachable os hash m read io lib p d \<Longrightarrow> all_ok b4 b6 (daemon_start p) \<Longrightarrow> all_ok b4 b6 d"
  by (induction rule: daemon_reachable.induct) (use daemon_step_ok [OF _ assms] in blast)+

section \<open>The registered node\<close>

lemma cluster_configured_interest:
  assumes "NewEnvironmentClusterConfigured os h answer proxyname client w = Some node" "interest_ok client"
  shows "interest_ok (node_mqtt node)"
proof -
  from assms(1) obtain r c where "RequestSubnetworkMqttBlocking answer client = Some (r, c)" "node_mqtt node = c"
    by (auto simp: NewEnvironmentClusterConfigured_def bind_eq_Some_conv)
  with interest_ok_same [OF subnet_request_client(4) assms(2)] show ?thesis by blast
qed




end
