(* ===== verification/Races.thy ===== *)
theory Races
  imports DeploymentProgress NodeLookups
begin

text \<open>
  Two sequences of statements that the locks of the program do not keep together. \<open>DetachContainer\<close> of
  \<open>env/ContainerNetDeployment.go\<close> reads the service under the lock, releases it and deletes the service under
  the lock again; \<open>AddTableQueryEntry\<close> of \<open>env/EnvironmentManager.go\<close> removes the old entry and adds the new one
  under two locks of the table. What happens when a second goroutine runs in between.
\<close>

section \<open>Undeploying in steps\<close>

text \<open>
  Where the goroutine of an undeploy request is: before it looks the service up, then before each statement
  that works with the service it found.
\<close>

datatype detach_pc =
    DSearch
  | DTable service
  | DDelete service
  | DFree service
  | DFree6 service
  | DPorts service
  | DPorts6 service
  | DLink service
  | DInterest
  | DEnd

fun detach_step :: "'w os \<Rightarrow> string \<Rightarrow> int \<Rightarrow> detach_pc \<Rightarrow> 'w node \<Rightarrow> (detach_pc \<times> 'w node) option" where
  "detach_step os sname inst DSearch s =
     Some (case map_of (deployedServices (node_env s)) (service_key sname inst) of
             None \<Rightarrow> DEnd | Some srv \<Rightarrow> DTable srv, s)"
| "detach_step os sname inst (DTable srv) s =
     do {
       (_, t) \<leftarrow> RemoveByNsip (srv_ip srv) (env_table (node_env s));
       Some (DDelete srv, s\<lparr>node_env := (node_env s)\<lparr>env_table := t\<rparr>\<rparr>)
     }"
| "detach_step os sname inst (DDelete srv) s =
     Some (DFree srv, s\<lparr>node_env := (node_env s)\<lparr>deployedServices :=
       AList.delete (service_key sname inst) (deployedServices (node_env s))\<rparr>\<rparr>)"
| "detach_step os sname inst (DFree srv) s =
     Some (DFree6 srv, s\<lparr>node_env := freeContainerAddress (srv_ip srv) (node_env s)\<rparr>)"
| "detach_step os sname inst (DFree6 srv) s =
     Some (DPorts srv, s\<lparr>node_env := freeContainerAddress (srv_ipv6 srv) (node_env s)\<rparr>)"
| "detach_step os sname inst (DPorts srv) s =
     Some (DPorts6 srv, s\<lparr>node_os := snd (ManageContainerPorts os (srv_ip srv) (srv_portmapping srv) ClosePorts (node_os s))\<rparr>)"
| "detach_step os sname inst (DPorts6 srv) s =
     Some (DLink srv, s\<lparr>node_os := snd (ManageContainerPorts os (srv_ipv6 srv) (srv_portmapping srv) ClosePorts (node_os s))\<rparr>)"
| "detach_step os sname inst (DLink srv) s =
     Some (DInterest, s\<lparr>node_os := ignoring os (LinkDel (veth_Name (srv_veth srv))) (node_os s)\<rparr>)"
| "detach_step os sname inst DInterest s =
     do {
       env \<leftarrow> (if \<not> MqttIsInterestRegistered sname (node_mqtt s) then RemoveServiceEntries sname (node_env s)
               else Some (node_env s));
       Some (DEnd, s\<lparr>node_env := env\<rparr>)
     }"
| "detach_step os sname inst DEnd s = Some (DEnd, s)"

fun detach_steps :: "'w os \<Rightarrow> string \<Rightarrow> int \<Rightarrow> nat \<Rightarrow> detach_pc \<Rightarrow> 'w node \<Rightarrow> (detach_pc \<times> 'w node) option" where
  "detach_steps os sname inst 0 pc s = Some (pc, s)"
| "detach_steps os sname inst (Suc n) pc s =
     do { (pc, s) \<leftarrow> detach_step os sname inst pc s; detach_steps os sname inst n pc s }"

lemma nine_steps: "(9 :: nat) = Suc (Suc (Suc (Suc (Suc (Suc (Suc (Suc (Suc 0))))))))"
  by simp

lemma detach_steps_end [simp]: "detach_steps os sname inst n DEnd s = Some (DEnd, s)"
  by (induction n) simp_all

text \<open>Without a second request in between the steps are the call.\<close>

lemma detach_uninterrupted:
  "detach_steps os sname inst 9 DSearch s = map_option (Pair DEnd) (DetachContainer os sname inst s)"
proof (cases "map_of (deployedServices (node_env s)) (service_key sname inst)")
  case None
  then show ?thesis by (simp add: nine_steps DetachContainer_def)
next
  case (Some srv)
  obtain err t where "RemoveByNsip (srv_ip srv) (env_table (node_env s)) = Some (err, t)"
    using RemoveByNsip_total by blast
  with Some show ?thesis
    by (auto simp: nine_steps DetachContainer_def Let_def split: Option.bind_splits)
qed

section \<open>Two requests\<close>

text \<open>A schedule says which of the two requests moves next.\<close>

fun detach_both :: "'w os \<Rightarrow> string \<Rightarrow> int \<Rightarrow> bool list \<Rightarrow> detach_pc \<times> detach_pc \<Rightarrow> 'w node \<Rightarrow>
    ((detach_pc \<times> detach_pc) \<times> 'w node) option" where
  "detach_both os sname inst [] pcs s = Some (pcs, s)"
| "detach_both os sname inst (True # sched) (pc1, pc2) s =
     do { (pc1, s) \<leftarrow> detach_step os sname inst pc1 s; detach_both os sname inst sched (pc1, pc2) s }"
| "detach_both os sname inst (False # sched) (pc1, pc2) s =
     do { (pc2, s) \<leftarrow> detach_step os sname inst pc2 s; detach_both os sname inst sched (pc1, pc2) s }"

lemma detach_both_first:
  "detach_both os sname inst (replicate n True @ sched) (pc1, pc2) s =
    do { (pc1, s) \<leftarrow> detach_steps os sname inst n pc1 s; detach_both os sname inst sched (pc1, pc2) s }"
proof (induction n arbitrary: pc1 s)
  case (Suc n)
  show ?case by (cases "detach_step os sname inst pc1 s") (auto simp: Suc.IH)
qed simp

lemma detach_both_second:
  "detach_both os sname inst (replicate n False) (pc1, pc2) s =
    map_option (\<lambda>(pc2, s). ((pc1, pc2), s)) (detach_steps os sname inst n pc2 s)"
proof (induction n arbitrary: pc2 s)
  case (Suc n)
  show ?case by (cases "detach_step os sname inst pc2 s") (auto simp: Suc.IH)
qed simp

text \<open>What a request that has found its service still does to the pools.\<close>

lemma detach_finish:
  "\<exists>s' t. detach_steps os sname inst 8 (DTable srv) s = Some (DEnd, s') \<and>
    node_env s' = (undeploy_env (service_key sname inst) (srv_ip srv) (srv_ipv6 srv) (node_env s))\<lparr>env_table := t\<rparr>"
proof -
  have eight: "(8 :: nat) = Suc (Suc (Suc (Suc (Suc (Suc (Suc (Suc 0)))))))" by simp
  obtain err t where t: "RemoveByNsip (srv_ip srv) (env_table (node_env s)) = Some (err, t)"
    using RemoveByNsip_total by blast
  let ?e = "(undeploy_env (service_key sname inst) (srv_ip srv) (srv_ipv6 srv) (node_env s))\<lparr>env_table := t\<rparr>"
  obtain u where u: "RemoveServiceEntries sname ?e = Some (?e\<lparr>env_table := u\<rparr>)"
    using RemoveServiceEntries_total by blast
  show ?thesis
  proof (cases "MqttIsInterestRegistered sname (node_mqtt s)")
    case True
    with t show ?thesis by (simp add: eight undeploy_env_table) (rule exI [of _ t], simp)
  next
    case False
    with t u show ?thesis by (simp add: eight undeploy_env_table) (rule exI [of _ u], simp)
  qed
qed

text \<open>Addresses as deployments take them, one after the other.\<close>

fun generate_addresses :: "nat \<Rightarrow> Environment \<Rightarrow> ((error + ip) list \<times> Environment) option" where
  "generate_addresses 0 env = Some ([], env)"
| "generate_addresses (Suc n) env =
     do { (r, env) \<leftarrow> generateAddress env; (rs, env) \<leftarrow> generate_addresses n env; Some (r # rs, env) }"

lemma generate_cached:
  "\<exists>env'. generate_addresses (length (addrCache env)) env = Some (map Inr (addrCache env), env')"
proof (induction "addrCache env" arbitrary: env)
  case Nil
  then show ?case by (metis generate_addresses.simps(1) list.map_disc_iff list.size(3))
next
  case (Cons a rest)
  from Cons.hyps(1) [of "env\<lparr>addrCache := rest\<rparr>"] obtain env' where
    "generate_addresses (length rest) (env\<lparr>addrCache := rest\<rparr>) = Some (map Inr rest, env')" by auto
  moreover have "generateAddress env = Some (Inr a, env\<lparr>addrCache := rest\<rparr>)"
    unfolding generateAddress_def Cons.hyps(2) [symmetric] by simp
  ultimately show ?case using Cons.hyps(2) [symmetric] by simp
qed

text \<open>
  C37: Two undeploy requests for the same container that overlap free its address twice. When both have
  looked the service up before either has deleted it, the cache of free addresses ends with the address twice,
  and once the addresses cached before are used up the next two deployments are both given that address.
\<close>

theorem concurrent_undeploys_share_address:
  assumes "net_ok b4 b6 (node_env s)"
    and "map_of (deployedServices (node_env s)) (service_key sname inst) = Some srv"
  shows "\<exists>s' env. detach_both os sname inst (True # False # replicate 8 True @ replicate 8 False) (DSearch, DSearch) s =
      Some ((DEnd, DEnd), s') \<and>
    generate_addresses (length (addrCache (node_env s)) + 2) (node_env s') =
      Some (map Inr (addrCache (node_env s) @ [srv_ip srv, srv_ip srv]), env)"
proof -
  obtain s1 t1 where s1: "detach_steps os sname inst 8 (DTable srv) s = Some (DEnd, s1)"
    "node_env s1 = (undeploy_env (service_key sname inst) (srv_ip srv) (srv_ipv6 srv) (node_env s))\<lparr>env_table := t1\<rparr>"
    using detach_finish by blast
  obtain s2 t2 where s2: "detach_steps os sname inst 8 (DTable srv) s1 = Some (DEnd, s2)"
    "node_env s2 = (undeploy_env (service_key sname inst) (srv_ip srv) (srv_ipv6 srv) (node_env s1))\<lparr>env_table := t2\<rparr>"
    using detach_finish by blast
  note a = deployed_addresses [OF assms]
  have six: "addrCache (freeContainerAddress (srv_ipv6 srv) env) = addrCache env" for env
  proof (cases "srv_ipv6 srv = None")
    case False
    with a(3) have "srv_ipv6 srv \<in> universe6 b6" by blast
    then obtain n where n: "srv_ipv6 srv = v6addr n" "b6 \<le> n" "n < b6 + 254" unfolding universe6_def by force
    with net_okD(2) [OF assms(1)] have "2 ^ 48 \<le> n" "n < 2 ^ 128" by (simp_all add: pool6_ok_def)
    with n(1) show ?thesis by (simp add: freeContainerAddress_def To4_v6addr)
  qed (simp add: free_nil)
  have "addrCache (node_env s2) = addrCache (node_env s) @ [srv_ip srv, srv_ip srv]"
    unfolding s2(2) s1(2) by (simp add: undeploy_env_def six free4_fields [OF a(1)])
  moreover from generate_cached [of "node_env s2"] obtain env where
    "generate_addresses (length (addrCache (node_env s2))) (node_env s2) = Some (map Inr (addrCache (node_env s2)), env)"
    by blast
  moreover have "detach_both os sname inst (True # False # replicate 8 True @ replicate 8 False) (DSearch, DSearch) s =
      Some ((DEnd, DEnd), s2)"
    using assms(2) s1(1) s2(1) by (simp add: detach_both_first detach_both_second)
  ultimately show ?thesis by auto
qed

theorem concurrent_undeploys_share_address_witness:
  "\<exists>addrs s1 s2 env rs a. ContainerDeployNetwork log_os (\<lambda>n k. take k n) 7 ''a.b.c.d'' 0 '''' sample_node = Some (Inr addrs, s1) \<and>
    detach_both log_os ''a.b.c.d'' 0 (True # False # replicate 8 True @ replicate 8 False) (DSearch, DSearch) s1 =
      Some ((DEnd, DEnd), s2) \<and>
    generate_addresses (length (addrCache (node_env s1)) + 2) (node_env s2) = Some (rs @ [Inr a, Inr a], env)"
proof -
  obtain r s1 where d: "ContainerDeployNetwork log_os (\<lambda>n k. take k n) 7 ''a.b.c.d'' 0 '''' sample_node =
      Some (r, s1)" "returned r s1"
    using go_post_exists [OF container_deploy_granted [OF log_os_granting sample_node_ok sample_available,
      of "''''" "\<lambda>n k. take k n" 7 "''a.b.c.d''" 0]]
    by (auto simp: port_mappings_def)
  then obtain addrs where r: "r = Inr addrs" by (auto simp: returned_def)
  from go_post_exists [OF container_deploy_post [OF sample_node_ok, where os = log_os and hash = "\<lambda>n k. take k n" and pid = 7 and
      sname = "''a.b.c.d''" and inst = 0 and pm = "''''"]]
  have post: "net_ok (base4 + 1) (base6 + 1) (node_env s1)"
    "\<exists>srv. map_of (deployedServices (node_env s1)) (service_key ''a.b.c.d'' 0) = Some srv"
    using d(1) r by (auto simp: deployed_post_def update_conv')
  then obtain srv where "map_of (deployedServices (node_env s1)) (service_key ''a.b.c.d'' 0) = Some srv" by blast
  from concurrent_undeploys_share_address [OF post(1) this, where os = log_os] d(1) r show ?thesis
    by fastforce
qed

section \<open>Two updates of one entry\<close>

lemma search_adds: "isValid e \<Longrightarrow> translationTable (env_table (node_env (insert_entry e s))) =
    translationTable (env_table (node_env s)) @ [e]"
  by (simp add: insert_entry_def TableManager_Add_def)

lemma insert_entries: "isValid e \<Longrightarrow> table_entries (env_table (node_env (insert_entry e s))) =
    add_mset e (table_entries (env_table (node_env s)))"
  by (simp add: table_entries_def search_adds)

lemma forget_unknown:
  assumes "\<forall>x \<in># table_entries (env_table (node_env s)). \<not> nsip_matches k x"
  shows "forget_nsip k s = Some s"
  by (cases rule: tab.remove_key_cases [where k = k and t = "env_table (node_env s)"])
    (use assms in \<open>auto simp: forget_nsip_def\<close>)

text \<open>
  C38: A lookup and a refresh that add the entry of the same instance at the same time leave it in the table
  twice, which one response of the cluster that answers both may cause. A later update of the instance, say
  because it moved to another node, then replaces one copy only: the old entry stays in the table and
  lookups of its service addresses go on returning it.
\<close>

theorem concurrent_updates_duplicate:
  assumes "isValid e" and "isValid e'" and "Nsip e' = Nsip e"
    and "\<forall>x \<in># table_entries (env_table (node_env s)). \<not> nsip_matches (Nsip e) x"
  shows "\<exists>s1 s2 s3 s4 env. lookup_step a (LAdd [e]) s = Some (LInsert e [], s1) \<and>
    refresh_step job (RAdd [e]) s1 = Some (RInsert e [], s2) \<and>
    lookup_step a (LInsert e []) s2 = Some (LAdd [], s3) \<and>
    refresh_step job (RInsert e []) s3 = Some (RAdd [], s4) \<and>
    AddTableQueryEntry e' (node_env s4) = Some env \<and>
    table_entries (env_table env) = table_entries (env_table (node_env s)) + {#e, e'#} \<and>
    (\<forall>b. serves b e \<longrightarrow> e \<in> set (SearchByServiceIP b (env_table env)))"
proof -
  let ?t = "env_table (node_env s)"
  let ?s3 = "insert_entry e s"
  let ?s4 = "insert_entry e ?s3"
  have "forget_nsip (Nsip e) s = Some s" by (rule forget_unknown [OF assms(4)])
  then have steps: "lookup_step a (LAdd [e]) s = Some (LInsert e [], s)" "refresh_step job (RAdd [e]) s = Some (RInsert e [], s)"
    "lookup_step a (LInsert e []) s = Some (LAdd [], ?s3)" "refresh_step job (RInsert e []) ?s3 = Some (RAdd [], ?s4)"
    by simp_all
  have t4: "table_entries (env_table (node_env ?s4)) = table_entries ?t + {#e, e#}"
    by (simp add: insert_entries [OF assms(1)])
  have self: "nsip_matches (Nsip e) e" by (simp add: nsip_matches_def)
  obtain u where u: "RemoveByNsip (Nsip e) (env_table (node_env ?s4)) = Some (None, u)" "table_entries u = table_entries ?t + {#e#}"
  proof (cases rule: tab.remove_key_cases [where k = "Nsip e" and t = "env_table (node_env ?s4)"])
    case (hit x t')
    with t4 assms(4) have "x = e" by auto
    with hit t4 that show ?thesis by auto
  next
    case (miss err)
    with t4 self show ?thesis by auto
  qed
  let ?env = "(node_env ?s4)\<lparr>env_table := u\<lparr>translationTable := translationTable u @ [e']\<rparr>\<rparr>"
  have "AddTableQueryEntry e' (node_env ?s4) = Some ?env"
    using u(1) assms(2,3) by (simp add: AddTableQueryEntry_def TableManager_Add_def)
  moreover have "table_entries (env_table ?env) = table_entries ?t + {#e, e'#}"
    using u(2) by (simp add: table_entries_def)
  moreover have "e \<in> set (translationTable u)"
    using u(2) by (metis table_entries_def set_mset_mset union_iff union_single_eq_member)
  then have "serves b e \<longrightarrow> e \<in> set (SearchByServiceIP b (env_table ?env))" for b
    by (simp add: set_SearchByServiceIP)
  ultimately show ?thesis using steps by blast
qed

theorem concurrent_updates_duplicate_witness:
  "\<exists>s1 s2 s3 s4 env. lookup_step (IPv4 10 30 255 255) (LAdd [sample_entry]) sample_node = Some (LInsert sample_entry [], s1) \<and>
    refresh_step ''app.ns.srv.ns'' (RAdd [sample_entry]) s1 = Some (RInsert sample_entry [], s2) \<and>
    lookup_step (IPv4 10 30 255 255) (LInsert sample_entry []) s2 = Some (LAdd [], s3) \<and>
    refresh_step ''app.ns.srv.ns'' (RInsert sample_entry []) s3 = Some (RAdd [], s4) \<and>
    AddTableQueryEntry (sample_entry\<lparr>Nodeip := IPv4 192 168 0 8\<rparr>) (node_env s4) = Some env \<and>
    table_entries (env_table env) = table_entries (env_table (node_env sample_node)) +
      {#sample_entry, sample_entry\<lparr>Nodeip := IPv4 192 168 0 8\<rparr>#} \<and>
    (\<forall>b. serves b sample_entry \<longrightarrow> sample_entry \<in> set (SearchByServiceIP b (env_table env)))"
proof (rule concurrent_updates_duplicate [OF sample_entry_valid])
  show "isValid (sample_entry\<lparr>Nodeip := IPv4 192 168 0 8\<rparr>)"
    by (simp add: isValid_def sample_entry_def name_matches_def name_char_def Let_def IPv4_def)
  show "\<forall>x \<in># table_entries (env_table (node_env sample_node)). \<not> nsip_matches (Nsip sample_entry) x"
    using new_environment_table [OF sample_env_new]
    by (simp add: sample_node_def table_entries_def NewTableManager_def)
qed simp

end
