(* ===== verification/PortSafety.thy ===== *)
theory PortSafety
  imports Requests
begin

text \<open>
  The port mappings of the node as a whole: \<open>open_ports\<close> says that the DNAT rules of every deployed
  service are in the chain, and every deployment, failed ones included, and every detachment keeps it,
  so the rules of a container last until it is detached. The effect of iptables on the chain is the
  documented one (\<open>iptables_documented\<close>); no other request names the chain.
\<close>

section \<open>The chain and the other requests\<close>

definition names_chain :: "os_call \<Rightarrow> bool" where
  "names_chain c =
     (case c of
        IptAppend p t ch r \<Rightarrow> t = ''nat'' \<and> ch = chain
      | IptAppendUnique p t ch r \<Rightarrow> t = ''nat'' \<and> ch = chain
      | IptDelete p t ch r \<Rightarrow> t = ''nat'' \<and> ch = chain
      | IptDeleteChain p t ch \<Rightarrow> t = ''nat'' \<and> ch = chain
      | IptAddChain p t ch \<Rightarrow> t = ''nat'' \<and> ch = chain
      | _ \<Rightarrow> False)"

definition chain_documented :: "'w os \<Rightarrow> ('w \<Rightarrow> protocol \<Rightarrow> string list list) \<Rightarrow> bool" where
  "chain_documented os rules \<longleftrightarrow> iptables_documented os rules \<and>
     (\<forall>c w. \<not> names_chain c \<longrightarrow> rules (snd (os c w)) = rules w)"

text \<open>Requests that lose no rule of the chain, whatever they answer.\<close>

definition keeps_rules :: "('w \<Rightarrow> protocol \<Rightarrow> string list list) \<Rightarrow> ('w \<Rightarrow> 'r \<times> 'w) \<Rightarrow> bool" where
  "keeps_rules rules f \<longleftrightarrow> (\<forall>w p. mset (rules w p) \<subseteq># mset (rules (snd (f w)) p))"

named_theorems keeping "requests that lose no rule of the chain"

lemma keeps_call [keeping]:
  "chain_documented os rules \<Longrightarrow> \<not> names_chain c \<Longrightarrow> keeps_rules rules (os c)"
  by (simp add: keeps_rules_def chain_documented_def)

lemma keeps_ignoring [keeping]:
  "chain_documented os rules \<Longrightarrow> \<not> names_chain c \<Longrightarrow> mset (rules w p) \<subseteq># mset (rules (ignoring os c w) p)"
  using keeps_call [of os rules c] by (simp add: keeps_rules_def ignoring_def)

lemma keepsD: "keeps_rules rules f \<Longrightarrow> f w = (r, w') \<Longrightarrow> mset (rules w p) \<subseteq># mset (rules w' p)"
  unfolding keeps_rules_def by (metis snd_conv)

lemma keeps_seq [keeping]:
  assumes "chain_documented os rules" and "list_all (\<lambda>c. \<not> names_chain c) cs"
  shows "keeps_rules rules (os_seq os cs)"
  unfolding keeps_rules_def
proof (intro allI)
  show "mset (rules w p) \<subseteq># mset (rules (snd (os_seq os cs w)) p)" for w p
    using assms(2)
  proof (induction cs arbitrary: w)
    case (Cons c cs)
    obtain r w1 where c: "os c w = (r, w1)" by (cases "os c w")
    from keepsD [OF keeps_call [OF assms(1)] c, of p] Cons.prems have "mset (rules w p) \<subseteq># mset (rules w1 p)" by simp
    with Cons c show ?case by (auto split: option.split intro: subset_mset.order_trans)
  qed simp
qed

lemma keeps_namespace [keeping]:
  assumes doc: "chain_documented os rules" and "\<not> names_chain get_ns" "\<not> names_chain set_ns"
    and f: "keeps_rules rules f"
  shows "keeps_rules rules (exec_in_namespace os get_ns set_ns f)"
  unfolding keeps_rules_def
proof (intro allI)
  fix w p
  have q: "rules (snd (os c w)) = rules w" if "\<not> names_chain c" for c w
    using doc that by (simp add: chain_documented_def)
  have n: "\<not> names_chain NsGet" "\<not> names_chain NsClose" "\<not> names_chain NsRestore" by (simp_all add: names_chain_def)
  have r: "rules w2 = rules w1" if "os c w1 = (x, w2)" "\<not> names_chain c" for c w1 x w2
    using q [of c w1] that by simp
  show "mset (rules w p) \<subseteq># mset (rules (snd (exec_in_namespace os get_ns set_ns f w)) p)"
    using n assms(2,3)
    by (auto simp: exec_in_namespace_def ignoring_def q split: prod.splits option.splits
        dest!: r dest: keepsD [OF f, of _ _ _ p])
qed

lemma keeps_after [keeping]:
  assumes "chain_documented os rules" and "\<not> names_chain c" and "keeps_rules rules f"
  shows "keeps_rules rules (\<lambda>w. case os c w of (Some err, w) \<Rightarrow> (Some err, w) | (None, w) \<Rightarrow> f w)"
  unfolding keeps_rules_def
proof (intro allI)
  fix w p
  obtain r w1 where c: "os c w = (r, w1)" by (cases "os c w")
  have "mset (rules w p) \<subseteq># mset (rules w1 p)" by (rule keepsD [OF keeps_call [OF assms(1,2)] c])
  moreover have "mset (rules w1 p) \<subseteq># mset (rules (snd (f w1)) p)" using assms(3) by (simp add: keeps_rules_def)
  ultimately show "mset (rules w p) \<subseteq>#
      mset (rules (snd (case os c w of (Some err, w) \<Rightarrow> (Some err, w) | (None, w) \<Rightarrow> f w)) p)"
    using c by (cases r) (auto intro: subset_mset.order_trans)
qed

lemma keeps_setup [keeping]:
  assumes "chain_documented os rules"
  shows "keeps_rules rules (setContainerRoutes os env pid v)" "keeps_rules rules (setIPv6ContainerRoutes os env pid v)"
    "keeps_rules rules (addPeerLinkNetwork os pid addr v)" "keeps_rules rules (disableDAD os pid v)"
    "keeps_rules rules (setVethFirewallRules os env v)" "keeps_rules rules (addPeerLinkNetworkByNsName os ns addr v)"
  unfolding setContainerRoutes_def setIPv6ContainerRoutes_def addPeerLinkNetwork_def [abs_def]
    addPeerLinkNetworkByNsName_def [abs_def] disableDAD_def setVethFirewallRules_def execInsideNs_def execInsideNsByName_def
  by (intro keeping assms; simp add: names_chain_def)+

lemma keeps_unikernel [keeping]:
  assumes doc: "chain_documented os rules"
  shows "keeps_rules rules (execInsideNsByName os ns (unikernel_setup os env peer a))"
proof -
  have "keeps_rules rules (unikernel_setup os env peer a)"
    unfolding keeps_rules_def
  proof (intro allI)
    fix w p
    have s: "mset (rules w p) \<subseteq># mset (rules w' p)"
      if "os_seq os cs w = (r, w')" "list_all (\<lambda>c. \<not> names_chain c) cs" for cs w r w'
      using keepsD [OF keeps_seq [OF doc that(2)] that(1)] .
    have c: "mset (rules w p) \<subseteq># mset (rules w' p)" if "os c w = (r, w')" "\<not> names_chain c" for c w r w'
      using keepsD [OF keeps_call [OF doc that(2)] that(1)] .
    let ?first = "[LinkAddBridge ''virbr0'', AddrAdd ''virbr0'' ''192.168.1.1/30'', LinkAddTap ''tap0'']"
    obtain r1 w1 where 1: "os_seq os ?first w = (r1, w1)" by (cases "os_seq os ?first w")
    obtain r2 w2 where 2: "os (LinkSetMaster ''tap0'' ''virbr0'') w1 = (r2, w2)" by (cases "os (LinkSetMaster ''tap0'' ''virbr0'') w1")
    from s [OF 1] c [OF 2] have "mset (rules w p) \<subseteq># mset (rules w1 p)" "mset (rules w1 p) \<subseteq># mset (rules w2 p)"
      by (simp_all add: names_chain_def)
    then have le: "mset (rules w p) \<subseteq># mset (rules w1 p)" "mset (rules w p) \<subseteq># mset (rules w2 p)"
      by (simp, blast intro: subset_mset.order_trans)
    have rest: "mset (rules w p) \<subseteq># mset (rules (snd (os_seq os cs w2)) p)" if "list_all (\<lambda>c. \<not> names_chain c) cs" for cs
      using keeps_seq [OF doc that] le(2) unfolding keeps_rules_def by (blast intro: subset_mset.order_trans)
    show "mset (rules w p) \<subseteq># mset (rules (snd (unikernel_setup os env peer a w)) p)"
      unfolding unikernel_setup_def 1 using 2 le
      by (cases r1; cases r2; simp del: os_seq.simps) (rule rest, simp add: names_chain_def)
  qed
  then show ?thesis unfolding execInsideNsByName_def by (intro keeps_namespace doc) (simp_all add: names_chain_def)
qed

section \<open>Opening and closing\<close>

text \<open>The rules of the port mappings of one address; an address without a family has none.\<close>

definition port_rules :: "ip \<Rightarrow> string \<Rightarrow> protocol \<Rightarrow> string list multiset" where
  "port_rules a portmapping p =
     (if has_family a \<and> family a = p then mset (map (mapping_rule a) (port_mappings portmapping)) else {#})"

lemma no_family_manage:
  assumes "\<not> has_family a"
  shows "manage_mappings os a operation pms w = ((if pms = [] then None else fst (manage_mappings os a operation pms w)), w)"
    "pms \<noteq> [] \<Longrightarrow> fst (manage_mappings os a operation pms w) \<noteq> None"
  using assms by (cases pms; auto simp: has_family_def nat_operation_def split: prod.split)+

lemma open_keeps [keeping]:
  assumes "chain_documented os rules"
  shows "keeps_rules rules (ManageContainerPorts os a portmapping OpenPorts)"
  unfolding keeps_rules_def ManageContainerPorts_mappings
proof (intro allI)
  fix w p
  show "mset (rules w p) \<subseteq># mset (rules (snd (manage_mappings os a OpenPorts (port_mappings portmapping) w)) p)"
  proof (cases "has_family a")
    case True
    from assms have "iptables_documented os rules" by (simp add: chain_documented_def)
    from open_mappings [OF this True, of "port_mappings portmapping" w] show ?thesis by auto
  next
    case False
    then show ?thesis by (simp add: no_family_manage(1) [OF False, where operation = OpenPorts])
  qed
qed

lemma opened_ports:
  assumes doc: "chain_documented os rules" and run: "ManageContainerPorts os a portmapping OpenPorts w = (None, w')"
  shows "list_all mapping_valid (port_mappings portmapping)"
    "mset (rules w' p) = mset (rules w p) + port_rules a portmapping p"
proof -
  have m: "manage_mappings os a OpenPorts (port_mappings portmapping) w = (None, w')"
    using run by (simp add: ManageContainerPorts_mappings)
  have "list_all mapping_valid (port_mappings portmapping) \<and>
      mset (rules w' p) = mset (rules w p) + port_rules a portmapping p"
  proof (cases "has_family a")
    case True
    from doc have "iptables_documented os rules" by (simp add: chain_documented_def)
    from open_mappings [OF this True, of "port_mappings portmapping" w] m
    have all: "list_all mapping_valid (port_mappings portmapping)"
      and r: "rules w' = (rules w)(family a := rules w (family a) @
        map (mapping_rule a) (takeWhile mapping_valid (port_mappings portmapping)))"
      by (auto split: if_splits)
    from all have "takeWhile mapping_valid (port_mappings portmapping) = port_mappings portmapping"
      by (simp add: list_all_iff)
    with all r True show ?thesis by (auto simp: port_rules_def)
  next
    case False
    with m no_family_manage [OF False, where os = os and operation = OpenPorts and pms = "port_mappings portmapping" and w = w]
    show ?thesis by (cases "port_mappings portmapping = []") (auto simp: port_rules_def)
  qed
  then show "list_all mapping_valid (port_mappings portmapping)"
    "mset (rules w' p) = mset (rules w p) + port_rules a portmapping p" by simp_all
qed

text \<open>Closing takes away the rules of the address and nothing else.\<close>

lemma closed_ports:
  assumes doc: "chain_documented os rules" and valid: "list_all mapping_valid (port_mappings portmapping)"
    and there: "\<And>p. port_rules a portmapping p \<subseteq># mset (rules w p)"
  shows "mset (rules (snd (ManageContainerPorts os a portmapping ClosePorts w)) p) =
    mset (rules w p) - port_rules a portmapping p"
proof (cases "has_family a")
  case True
  have "mset (map (mapping_rule a) (port_mappings portmapping)) \<subseteq># mset (rules w (family a))"
    using there [of "family a"] True by (simp add: port_rules_def)
  from doc have "iptables_documented os rules" by (simp add: chain_documented_def)
  from close_mappings [OF this True valid \<open>mset _ \<subseteq># _\<close>] show ?thesis
    by (auto simp: ManageContainerPorts_mappings port_rules_def True)
next
  case False
  then show ?thesis
    by (simp add: ManageContainerPorts_mappings port_rules_def no_family_manage(1) [OF False, where operation = ClosePorts])
qed

section \<open>The invariant\<close>

definition service_rules :: "service \<Rightarrow> protocol \<Rightarrow> string list multiset" where
  "service_rules srv p = port_rules (srv_ip srv) (srv_portmapping srv) p + port_rules (srv_ipv6 srv) (srv_portmapping srv) p"

definition deployed_rules :: "(string \<times> service) list \<Rightarrow> protocol \<Rightarrow> string list multiset" where
  "deployed_rules services p = (\<Sum>(k, srv) \<leftarrow> services. service_rules srv p)"

definition mappings_valid :: "service \<Rightarrow> bool" where
  "mappings_valid srv \<longleftrightarrow> list_all mapping_valid (port_mappings (srv_portmapping srv))"

definition open_ports :: "('w \<Rightarrow> protocol \<Rightarrow> string list list) \<Rightarrow> 'w node \<Rightarrow> bool" where
  "open_ports rules s \<longleftrightarrow>
     (\<forall>(k, srv) \<in> set (deployedServices (node_env s)). mappings_valid srv) \<and>
     (\<forall>p. deployed_rules (deployedServices (node_env s)) p \<subseteq># mset (rules (node_os s) p))"

lemma set_update: "set (AList.update key srv al) \<subseteq> insert (key, srv) (set al)"
  by (induction al) auto

lemma deployed_update:
  "deployed_rules (AList.update key srv al) p \<subseteq># deployed_rules al p + service_rules srv p"
proof (induction al)
  case (Cons kv al)
  then show ?case
    by (cases kv) (auto simp: deployed_rules_def ac_simps intro: subset_mset.add_mono)
qed (simp add: deployed_rules_def)

lemma deployed_delete:
  assumes "map_of al key = Some srv"
  shows "deployed_rules (AList.delete key al) p + service_rules srv p \<subseteq># deployed_rules al p"
  using assms
proof (induction al)
  case (Cons kv al)
  obtain k v where kv: "kv = (k, v)" by (cases kv)
  have less: "deployed_rules (AList.delete key al) p \<subseteq># deployed_rules al p"
    by (induction al) (auto simp: deployed_rules_def intro: subset_mset.order_trans)
  show ?case
  proof (cases "k = key")
    case True
    with Cons.prems kv less show ?thesis by (simp add: deployed_rules_def ac_simps)
  next
    case False
    with Cons kv show ?thesis by (simp add: deployed_rules_def ac_simps)
  qed
qed simp

section \<open>Deployments\<close>

text \<open>
  While a deployment is under way: the services are those of the start and the chain has their rules
  and the ones the deployment has opened. It ends there, or with the service registered.
\<close>

definition holding_rules :: "('w \<Rightarrow> protocol \<Rightarrow> string list list) \<Rightarrow> (protocol \<Rightarrow> string list multiset) \<Rightarrow>
    'w node \<Rightarrow> 'w node \<Rightarrow> bool" where
  "holding_rules rules m s0 s \<longleftrightarrow> deployedServices (node_env s) = deployedServices (node_env s0) \<and>
     (\<forall>p. mset (rules (node_os s0) p) + m p \<subseteq># mset (rules (node_os s) p))"

definition ports_done :: "('w \<Rightarrow> protocol \<Rightarrow> string list list) \<Rightarrow> 'w node \<Rightarrow> 'w node \<Rightarrow> bool" where
  "ports_done rules s0 s \<longleftrightarrow> holding_rules rules (\<lambda>p. {#}) s0 s \<or>
     (\<exists>key srv. mappings_valid srv \<and>
        deployedServices (node_env s) = AList.update key srv (deployedServices (node_env s0)) \<and>
        (\<forall>p. mset (rules (node_os s0) p) + service_rules srv p \<subseteq># mset (rules (node_os s) p)))"

definition leads :: "('s \<Rightarrow> bool) \<Rightarrow> ('r \<times> 's) option \<Rightarrow> bool" where
  "leads Q out \<longleftrightarrow> (\<forall>r s. out = Some (r, s) \<longrightarrow> Q s)"

lemma holding_self: "holding_rules rules (\<lambda>p. {#}) s s"
  by (simp add: holding_rules_def)

lemma holding_done: "holding_rules rules m s0 s \<Longrightarrow> ports_done rules s0 s"
  unfolding ports_done_def holding_rules_def
  by (metis (no_types, lifting) add.right_neutral mset_subset_eq_add_left subset_mset.order_trans)

lemma ports_done_open:
  assumes "open_ports rules s0" and "ports_done rules s0 s"
  shows "open_ports rules s"
  using assms(2) unfolding ports_done_def
proof (elim disjE exE conjE)
  assume "holding_rules rules (\<lambda>p. {#}) s0 s"
  with assms(1) show ?thesis
    by (auto simp: holding_rules_def open_ports_def intro: subset_mset.order_trans)
next
  fix key srv
  assume v: "mappings_valid srv"
    and d: "deployedServices (node_env s) = AList.update key srv (deployedServices (node_env s0))"
    and r: "\<forall>p. mset (rules (node_os s0) p) + service_rules srv p \<subseteq># mset (rules (node_os s) p)"
  have "mappings_valid x" if "(k, x) \<in> set (AList.update key srv (deployedServices (node_env s0)))" for k x
    using that v assms(1) set_update [of key srv "deployedServices (node_env s0)"] by (auto simp: open_ports_def)
  moreover have "deployed_rules (AList.update key srv (deployedServices (node_env s0))) p \<subseteq># mset (rules (node_os s) p)" for p
  proof -
    have "deployed_rules (deployedServices (node_env s0)) p + service_rules srv p \<subseteq># mset (rules (node_os s0) p) + service_rules srv p"
      using assms(1) by (simp add: open_ports_def)
    with deployed_update r show ?thesis by (meson subset_mset.order_trans)
  qed
  ultimately show ?thesis by (auto simp: open_ports_def d)
qed

text \<open>Requests and cleanups that only lose nothing, as stages of a deployment.\<close>

definition steady :: "('w \<Rightarrow> protocol \<Rightarrow> string list list) \<Rightarrow> ('w node \<Rightarrow> 'w node) \<Rightarrow> bool" where
  "steady rules f \<longleftrightarrow> (\<forall>s. holding_rules rules (\<lambda>p. {#}) s (f s))"

lemma holding_trans:
  "holding_rules rules m s0 s1 \<Longrightarrow> holding_rules rules m' s1 s2 \<Longrightarrow> holding_rules rules (\<lambda>p. m p + m' p) s0 s2"
  unfolding holding_rules_def
  by (metis (no_types, lifting) add.assoc subset_mset.add_right_mono subset_mset.order_trans)

lemma holding_steady: "holding_rules rules m s0 s1 \<Longrightarrow> holding_rules rules (\<lambda>p. {#}) s1 s2 \<Longrightarrow> holding_rules rules m s0 s2"
  using holding_trans [of rules m s0 s1 "\<lambda>p. {#}" s2] by simp

lemma steadyD: "steady rules f \<Longrightarrow> holding_rules rules m s0 s \<Longrightarrow> holding_rules rules m s0 (f s)"
  unfolding steady_def using holding_steady by blast

named_theorems steady_intros "operations that lose no rule and keep the services"

lemma steady_comp [steady_intros]: "steady rules f \<Longrightarrow> steady rules g \<Longrightarrow> steady rules (f \<circ> g)"
  unfolding steady_def using holding_steady by fastforce

lemma steady_env [steady_intros]:
  "(\<And>env. deployedServices (f env) = deployedServices env) \<Longrightarrow> steady rules (update_env f)"
  by (simp add: steady_def holding_rules_def update_env_def)

lemma free_services [simp]: "deployedServices (freeContainerAddress a env) = deployedServices env"
  by (simp add: freeContainerAddress_def)

lemma steady_cleanups [steady_intros]:
  assumes "chain_documented os rules"
  shows "steady rules (delete_veth os veth)" "steady rules (delete_nil os)" "steady rules (free_addresses a a6)"
    "steady rules (update_env (freeContainerAddress a))" "steady rules (update_env BookVethNumber)" "steady rules id"
    "steady rules (snd \<circ> unikernel_cleanup os ns veth)" "steady rules (snd \<circ> free_after a (unikernel_cleanup os ns veth))"
proof -
  have k: "mset (rules w p) \<subseteq># mset (rules (snd (os c w)) p)" if "\<not> names_chain c" for c w p
    using keeps_call [OF assms that] by (simp add: keeps_rules_def)
  note n = names_chain_def
  show "steady rules (delete_veth os veth)" "steady rules (delete_nil os)"
    by (simp_all add: steady_def holding_rules_def delete_veth_def delete_nil_def ignore_os_def ignoring_def k n)
  show "steady rules (free_addresses a a6)" "steady rules (update_env (freeContainerAddress a))"
    "steady rules (update_env BookVethNumber)" "steady rules id"
    unfolding free_addresses_def by (auto intro!: steady_env simp: BookVethNumber_def) (simp add: steady_def holding_self)
  have "rules (snd (os c w)) = rules w" if "\<not> names_chain c" for c w
    using assms that by (simp add: chain_documented_def)
  then have u: "holding_rules rules (\<lambda>p. {#}) s (snd (unikernel_cleanup os ns veth s))" for s
    by (simp add: holding_rules_def unikernel_cleanup_def ignoring_def Let_def split_beta n)
  then show "steady rules (snd \<circ> unikernel_cleanup os ns veth)" by (simp add: steady_def)
  show "steady rules (snd \<circ> free_after a (unikernel_cleanup os ns veth))"
    using u by (simp add: steady_def free_after_def split_beta holding_rules_def update_env_def)
qed

lemma stage_os:
  assumes "keeps_rules rules f" and "steady rules cleanup" and "holding_rules rules m s0 s"
    and "\<And>s1. holding_rules rules m s0 s1 \<Longrightarrow> leads (ports_done rules s0) (k () s1)"
  shows "leads (ports_done rules s0) (go_try (on_os f) cleanup k s)"
proof -
  obtain r w where f: "f (node_os s) = (r, w)" by (cases "f (node_os s)")
  have "holding_rules rules m s0 (s\<lparr>node_os := w\<rparr>)"
    by (rule holding_steady [OF assms(3)]) (simp add: holding_rules_def keepsD [OF assms(1) f])
  with assms(4) [OF this] holding_done [OF steadyD [OF assms(2) this]] f show ?thesis
    by (cases r) (auto simp: go_try_def on_os_def leads_def)
qed

lemma stage_open:
  assumes doc: "chain_documented os rules" and "steady rules cleanup" and h: "holding_rules rules m s0 s"
    and k: "\<And>s1. holding_rules rules (\<lambda>p. m p + port_rules a pm p) s0 s1 \<Longrightarrow>
      list_all mapping_valid (port_mappings pm) \<Longrightarrow> leads (ports_done rules s0) (k () s1)"
  shows "leads (ports_done rules s0) (go_try (on_os (ManageContainerPorts os a pm OpenPorts)) cleanup k s)"
proof -
  obtain r w where f: "ManageContainerPorts os a pm OpenPorts (node_os s) = (r, w)"
    by (cases "ManageContainerPorts os a pm OpenPorts (node_os s)")
  have all: "holding_rules rules m s0 (s\<lparr>node_os := w\<rparr>)"
    by (rule holding_steady [OF h]) (simp add: holding_rules_def keepsD [OF open_keeps [OF doc] f])
  show ?thesis
  proof (cases r)
    case None
    with f have run: "ManageContainerPorts os a pm OpenPorts (node_os s) = (None, w)" by simp
    have "holding_rules rules (port_rules a pm) s (s\<lparr>node_os := w\<rparr>)"
      by (simp add: holding_rules_def opened_ports(2) [OF doc run])
    from k [OF holding_trans [OF h this] opened_ports(1) [OF doc run]] run show ?thesis
      by (simp add: go_try_def on_os_def)
  next
    case (Some e)
    with f holding_done [OF steadyD [OF assms(2) all]] show ?thesis by (simp add: go_try_def on_os_def leads_def)
  qed
qed

lemma stage_env:
  assumes "\<And>env r env'. f env = Some (r, env') \<Longrightarrow> deployedServices env' = deployedServices env"
    and "steady rules cleanup" and h: "holding_rules rules m s0 s"
    and k: "\<And>x s1. holding_rules rules m s0 s1 \<Longrightarrow> leads (ports_done rules s0) (k x s1)"
  shows "leads (ports_done rules s0) (go_try (on_env f) cleanup k s)"
proof (cases "f (node_env s)")
  case (Some out)
  obtain r env where out: "out = (r, env)" by (cases out)
  have "holding_rules rules m s0 (s\<lparr>node_env := env\<rparr>)"
    by (rule holding_steady [OF h]) (simp add: holding_rules_def assms(1) [OF Some [unfolded out]])
  with k [OF this] holding_done [OF steadyD [OF assms(2) this]] Some out show ?thesis
    by (cases r) (auto simp: go_try_def on_env_def leads_def)
qed (simp add: go_try_def on_env_def leads_def)

text \<open>Overwriting the error changes what is reported, not what is done.\<close>

lemma stage_overwritten:
  "leads Q (go_try act (snd \<circ> cleanup) k s) \<Longrightarrow> leads Q (go_try_overwritten act cleanup zero k s)"
  by (auto simp: leads_def go_try_def go_try_overwritten_def split: option.splits prod.splits sum.splits)

lemma stage_veth:
  assumes doc: "chain_documented os rules" and "steady rules cleanup" and h: "holding_rules rules m s0 s"
    and k: "\<And>x s1. holding_rules rules m s0 s1 \<Longrightarrow> leads (ports_done rules s0) (k x s1)"
  shows "leads (ports_done rules s0) (go_try (createVethsPairAndAttachToBridge os hash sname mtu) cleanup k s)"
proof -
  have veth: "leads (holding_rules rules m s0) (createVethsPairAndAttachToBridge os hash sname mtu s)"
  proof -
    have q: "leads (holding_rules rules m s0) (go_try (on_os (os c)) id k s)"
      if "\<not> names_chain c" "holding_rules rules m s0 s"
        "\<And>s1. holding_rules rules m s0 s1 \<Longrightarrow> leads (holding_rules rules m s0) (k () s1)" for c k s
    proof -
      obtain r w where f: "os c (node_os s) = (r, w)" by (cases "os c (node_os s)")
      have "holding_rules rules m s0 (s\<lparr>node_os := w\<rparr>)"
        by (rule holding_steady [OF that(2)]) (simp add: holding_rules_def keepsD [OF keeps_call [OF doc that(1)] f])
      with that(3) [OF this] f show ?thesis by (cases r) (auto simp: go_try_def on_os_def leads_def)
    qed
    show ?thesis unfolding createVethsPairAndAttachToBridge_def Let_def
      by (intro q h; simp add: names_chain_def leads_def)
  qed
  show ?thesis
    using veth k steadyD [OF assms(2)] holding_done
    by (auto simp: leads_def go_try_def split: option.splits sum.splits; blast)
qed

lemma configure_container_ports:
  assumes doc: "chain_documented os rules" and h: "holding_rules rules (\<lambda>p. {#}) s0 s"
    and k: "\<And>s1. holding_rules rules (\<lambda>p. port_rules a pm p + port_rules a6 pm p) s0 s1 \<Longrightarrow>
      list_all mapping_valid (port_mappings pm) \<Longrightarrow> leads (ports_done rules s0) (k () s1)"
  shows "leads (ports_done rules s0) (configure_container os veth pid pm a a6 k s)"
proof -
  note c = steady_comp [OF steady_cleanups(3) [OF doc] steady_cleanups(1) [OF doc]]
  note stage = stage_os [OF _ c]
  show ?thesis
    unfolding configure_container_def Let_def
    by (rule stage [OF keeps_setup(3) [OF doc] h], rule stage [OF keeps_setup(4) [OF doc]], assumption,
        rule stage [OF keeps_setup(3) [OF doc]], assumption, rule stage [OF keeps_setup(1) [OF doc]], assumption,
        rule stage [OF keeps_setup(2) [OF doc]], assumption,
        rule stage [OF keeps_setup(5) [OF doc]], erule steadyD [OF steady_cleanups(5) [OF doc]],
        rule stage_open [OF doc c], assumption, rule stage_open [OF doc c], assumption, rule k) simp_all
qed

lemma generate_services:
  "generateAddress env = Some (r, env') \<Longrightarrow> deployedServices env' = deployedServices env"
  "generateIPv6Address env = Some (r', env') \<Longrightarrow> deployedServices env' = deployedServices env"
  by (simp_all add: generateAddress_frame generateIPv6Address_frame)

lemma register_done:
  assumes "holding_rules rules (\<lambda>p. service_rules srv p) s0 s" and "mappings_valid srv"
  shows "ports_done rules s0 (register_service key srv s)"
  using assms unfolding ports_done_def holding_rules_def register_service_def update_env_def by auto

lemma container_ports:
  assumes doc: "chain_documented os rules"
  shows "leads (ports_done rules s) (ContainerDeployNetwork os hash pid sname inst pm s)"
proof -
  note v = steady_cleanups(1) [OF doc]
  note call = stage_os [OF keeps_call [OF doc] v]
  have assign: "leads (ports_done rules s) (assign_addresses os veth pid sname inst pm s1)"
    if h: "holding_rules rules (\<lambda>p. {#}) s s1" for s1 veth
    unfolding assign_addresses_def
  proof (rule stage_env [OF generate_services(1) v h], assumption,
      rule stage_env [OF generate_services(2) steady_comp [OF steady_cleanups(4) [OF doc] v]], assumption, assumption,
      rule configure_container_ports [OF doc], assumption)
    fix a a6 s2
    assume "holding_rules rules (\<lambda>p. port_rules a pm p + port_rules a6 pm p) s s2"
      "list_all mapping_valid (port_mappings pm)"
    then show "leads (ports_done rules s) (go_return (a, a6) (register_service (service_key sname inst)
        \<lparr>srv_ip = a, srv_ipv6 = a6, srv_sname = sname, srv_portmapping = pm, srv_veth = veth\<rparr> s2))"
      by (simp add: leads_def register_done service_rules_def mappings_valid_def)
  qed
  show ?thesis
    unfolding ContainerDeployNetwork_def
    by (rule stage_veth [OF doc steady_cleanups(2) [OF doc] holding_self],
        rule call, simp add: names_chain_def, assumption, rule call, simp add: names_chain_def, assumption, erule assign)
qed

lemma unikernel_ports:
  assumes doc: "chain_documented os rules"
  shows "leads (ports_done rules s) (UnikernelDeployNetwork os hash pid sname inst pm s)"
proof -
  let ?ns = "instance_name sname inst"
  note v = steady_cleanups(1) [OF doc]
  note call = stage_os [OF keeps_call [OF doc]]
  have assign: "leads (ports_done rules s) (assign_unikernel_address os ?ns veth sname pm s1)"
    if h: "holding_rules rules (\<lambda>p. {#}) s s1" for s1 veth
  proof -
    note c = steady_cleanups(8) [OF doc]
    note stage = stage_overwritten [OF stage_os [OF _ c]]
    have ends: "leads (ports_done rules s) (go_return (a, None) (register_service ?ns
        \<lparr>srv_ip = a, srv_ipv6 = None, srv_sname = sname, srv_portmapping = pm, srv_veth = veth\<rparr> s2))"
      if "holding_rules rules (\<lambda>p. {#} + port_rules a pm p) s s2" "list_all mapping_valid (port_mappings pm)" for a s2
      using that by (simp add: leads_def register_done service_rules_def mappings_valid_def port_rules_def has_family_def To4_def To16_def ip_bytes_def)
    show ?thesis
      unfolding assign_unikernel_address_def configure_unikernel_def Let_def
      by (rule stage_overwritten, rule stage_env [OF generate_services(1) steady_cleanups(7) [OF doc] h], assumption,
          rule stage_os [OF keeps_setup(6) [OF doc] c], assumption,
          rule stage [OF keeps_unikernel [OF doc]], assumption,
          rule stage [OF keeps_setup(5) [OF doc]], erule steadyD [OF steady_cleanups(5) [OF doc]],
          rule stage_overwritten, rule stage_open [OF doc c], assumption, rule ends) simp_all
  qed
  show ?thesis
    unfolding UnikernelDeployNetwork_def Let_def
    by (rule stage_veth [OF doc steady_cleanups(2) [OF doc] holding_self],
        rule call [OF _ v], simp add: names_chain_def, assumption,
        rule call [OF _ v], simp add: names_chain_def, assumption,
        rule call [OF _ steady_cleanups(6) [OF doc]], simp add: names_chain_def, assumption,
        rule call [OF _ steady_cleanups(7) [OF doc]], simp add: names_chain_def, assumption, erule assign)
qed

section \<open>Undeploying\<close>

text \<open>What the first closing, and both, leave for the other services.\<close>

lemma close_service:
  assumes doc: "chain_documented os rules" and ok: "open_ports rules s"
    and srv: "map_of (deployedServices (node_env s)) key = Some srv"
  defines "w1 \<equiv> snd (ManageContainerPorts os (srv_ip srv) (srv_portmapping srv) ClosePorts (node_os s))"
  shows "deployed_rules (AList.delete key (deployedServices (node_env s))) p \<subseteq># mset (rules w1 p)"
    "deployed_rules (AList.delete key (deployedServices (node_env s))) p \<subseteq>#
      mset (rules (snd (ManageContainerPorts os (srv_ipv6 srv) (srv_portmapping srv) ClosePorts w1)) p)"
proof -
  let ?d = "deployed_rules (AList.delete key (deployedServices (node_env s)))"
  let ?r = "port_rules (srv_ip srv) (srv_portmapping srv)" and ?r6 = "port_rules (srv_ipv6 srv) (srv_portmapping srv)"
  have all: "?d p + (?r p + ?r6 p) \<subseteq># mset (rules (node_os s) p)" for p
    using deployed_delete [OF srv, of p] ok unfolding open_ports_def service_rules_def
    by (blast intro: subset_mset.order_trans)
  have valid: "list_all mapping_valid (port_mappings (srv_portmapping srv))"
    using ok map_of_SomeD [OF srv] by (auto simp: open_ports_def mappings_valid_def)
  have le: "?r p \<subseteq># mset (rules (node_os s) p)" for p
    using all [of p] by (meson mset_subset_eq_add_left mset_subset_eq_add_right subset_mset.order_trans)
  note w1 = closed_ports [OF doc valid le, folded w1_def]
  have two: "?d p + ?r6 p \<subseteq># mset (rules w1 p)" for p
    unfolding w1 using subset_mset.le_diff_conv2 [OF le, of "?d p + ?r6 p"] all [of p] by (simp add: ac_simps)
  then have le6: "?r6 p \<subseteq># mset (rules w1 p)" for p by (meson mset_subset_eq_add_right subset_mset.order_trans)
  note w2 = closed_ports [OF doc valid le6]
  show "?d p \<subseteq># mset (rules w1 p)" using two [of p] by (meson mset_subset_eq_add_left subset_mset.order_trans)
  show "?d p \<subseteq># mset (rules (snd (ManageContainerPorts os (srv_ipv6 srv) (srv_portmapping srv) ClosePorts w1)) p)"
    unfolding w2 using subset_mset.le_diff_conv2 [OF le6, of "?d p"] two [of p] by simp
qed

lemma undeployed_open:
  assumes doc: "chain_documented os rules" and ok: "open_ports rules s"
    and "deployedServices (node_env s') = AList.delete key (deployedServices (node_env s))"
    and "\<And>p. deployed_rules (AList.delete key (deployedServices (node_env s))) p \<subseteq># mset (rules w p)"
    and "rules (node_os s') = rules w"
  shows "open_ports rules s'"
  using assms by (auto simp: open_ports_def set_delete)

lemma undeploy_ports:
  assumes doc: "chain_documented os rules" and ok: "open_ports rules s"
  shows "DetachContainer os sname inst s = Some s' \<Longrightarrow> open_ports rules s'"
    "DeleteUnikernelNamespace os sname inst s = Some s'' \<Longrightarrow> open_ports rules s''"
proof -
  have q: "rules (ignoring os c w) = rules w" if "\<not> names_chain c" for c w
    using doc that by (simp add: chain_documented_def ignoring_def)
  note n = names_chain_def
  have un: "RemoveServiceEntries j env = Some env' \<Longrightarrow> deployedServices env' = deployedServices env" for j env env'
    by (auto simp: RemoveServiceEntries_def bind_eq_Some_conv)
  show "open_ports rules s'" if run: "DetachContainer os sname inst s = Some s'"
  proof (cases "map_of (deployedServices (node_env s)) (service_key sname inst)")
    case None
    with run ok show ?thesis by (simp add: DetachContainer_def)
  next
    case (Some srv)
    show ?thesis
      by (rule undeployed_open [OF doc ok _ close_service(2) [OF doc ok Some]])
        (use run Some in \<open>auto simp: DetachContainer_def Let_def bind_eq_Some_conv q n dest!: un split: if_splits\<close>)
  qed
  show "open_ports rules s''" if run: "DeleteUnikernelNamespace os sname inst s = Some s''"
  proof (cases "map_of (deployedServices (node_env s)) (instance_name sname inst)")
    case None
    with run ok show ?thesis by (simp add: DeleteUnikernelNamespace_def)
  next
    case (Some srv)
    show ?thesis
      by (rule undeployed_open [OF doc ok _ close_service(1) [OF doc ok Some]])
        (use run Some in \<open>auto simp: DeleteUnikernelNamespace_def Let_def bind_eq_Some_conv q n\<close>)
  qed
qed

section \<open>Requests\<close>

lemma leadsD: "leads Q out \<Longrightarrow> out = Some (r, s) \<Longrightarrow> Q s"
  by (simp add: leads_def)

lemma query_entries_services:
  "AddTableQueryEntries es env = Some env' \<Longrightarrow> deployedServices env' = deployedServices env"
  by (induction es arbitrary: env) (force simp: AddTableQueryEntry_def bind_eq_Some_conv Let_def split_beta)+

lemma open_ports_cong:
  "deployedServices (node_env s') = deployedServices (node_env s) \<Longrightarrow> node_os s' = node_os s \<Longrightarrow>
    open_ports rules s' = open_ports rules s"
  by (simp add: open_ports_def)

lemma refresh_ports:
  assumes "RefreshServiceTable jobname msgs s = Some s'"
  shows "deployedServices (node_env s') = deployedServices (node_env s) \<and> node_os s' = node_os s"
proof -
  from assms obtain r client where q: "tableQueryByJobName jobname True msgs (node_mqtt s) = Some (r, client)"
    by (auto simp: RefreshServiceTable_def bind_eq_Some_conv)
  show ?thesis
    using assms q by (cases r) (auto simp: RefreshServiceTable_def bind_eq_Some_conv dest!: query_entries_services)
qed

lemma update_proxy_ports:
  assumes "updateInternalProxyDataStructures msgs task s = Some s'" and "open_ports rules s"
  shows "open_ports rules s'"
proof (cases "MqttIsInterestRegistered (ServiceName task) (node_mqtt s)")
  case True
  with assms show ?thesis by (simp add: updateInternalProxyDataStructures_def)
next
  case False
  with assms(1) obtain s1 where s1: "RefreshServiceTable (ServiceName task) msgs s = Some s1"
    "s' = s1\<lparr>node_mqtt := MqttRegisterInterest (ServiceName task) (node_mqtt s1)\<rparr>"
    by (auto simp: updateInternalProxyDataStructures_def bind_eq_Some_conv)
  with refresh_ports [OF s1(1)] open_ports_cong [of s' s rules] assms(2) show ?thesis by simp
qed

lemma deploymentHandler_ports:
  assumes doc: "chain_documented os rules" and run: "deploymentHandler os hash cfg task s = Some (r, s')"
    and ok: "open_ports rules s"
  shows "open_ports rules s'"
proof (cases "length (split_on CHR ''.'' (ServiceName task)) = 4")
  case True
  with run obtain deploy x s1 where d: "GetNetDeployment os hash (Runtime task) = Some deploy"
    "deploy (Pid task) (ServiceName task) (task_Instancenumber task) (PortMappings task) s = Some (x, s1)"
    by (auto simp: deploymentHandler_def Let_def bind_eq_Some_conv)
  have s': "\<exists>client. s' = s1\<lparr>node_mqtt := client\<rparr>"
  proof (cases x)
    case (Inl e)
    with run True d have "s' = s1\<lparr>node_mqtt := node_mqtt s1\<rparr>" by (simp add: deploymentHandler_def Let_def)
    then show ?thesis ..
  next
    case (Inr y)
    with run True d show ?thesis by (auto simp: deploymentHandler_def Let_def split: prod.splits option.splits)
  qed
  have "ports_done rules s s1"
    using d leadsD [OF container_ports [OF doc]] leadsD [OF unikernel_ports [OF doc]]
    by (auto simp: GetNetDeployment_def split: if_splits)
  from ports_done_open [OF ok this] s' show ?thesis by (auto simp: open_ports_def)
next
  case False
  with run ok show ?thesis by (simp add: deploymentHandler_def Let_def)
qed

lemma serve_ports:
  assumes doc: "chain_documented os rules" and "serve os hash cfg m req s = Some (w, s')" and "open_ports rules s"
  shows "open_ports rules s'"
proof -
  have task: "open_ports rules s1" if "execute_task os hash cfg msgs task s = Some (r, s1)" for msgs task r s1
    using that deploymentHandler_ports [OF doc _ assms(3)]
    by (auto simp: execute_task_def bind_eq_Some_conv intro: update_proxy_ports)
  from assms(2,3) task undeploy_ports [OF doc assms(3)] show ?thesis
    by (auto simp: serve_def containerDeploy_def containerUndeploy_def CreateUnikernelNamesapce_def
        DeleteUnikernelNamespaceHandler_def Let_def bind_eq_Some_conv split: route.splits if_splits option.splits prod.splits)
qed

lemma serve_all_ports:
  assumes "chain_documented os rules"
  shows "serve_all os hash cfg m reqs s = Some (ws, s') \<Longrightarrow> open_ports rules s \<Longrightarrow> open_ports rules s'"
  by (induction reqs arbitrary: s ws) (auto simp: bind_eq_Some_conv dest: serve_ports [OF assms])

lemma service_families:
  assumes "net_ok b4 b6 env" and "(key, srv) \<in> set (deployedServices env)"
  shows "has_family (srv_ip srv) \<and> family (srv_ip srv) = ProtocolIPv4"
    "srv_ipv6 srv \<noteq> None \<Longrightarrow> has_family (srv_ipv6 srv) \<and> family (srv_ipv6 srv) = ProtocolIPv6"
proof -
  have "srv_ip srv \<in> set (service_ips env)" using assms(2) by (force simp: service_ips_def)
  with net_okD(5) [OF assms(1)] have "srv_ip srv \<in> universe4 b4" by blast
  then show "has_family (srv_ip srv) \<and> family (srv_ip srv) = ProtocolIPv4"
    by (auto simp: universe4_def has_family_def family_def)
  assume "srv_ipv6 srv \<noteq> None"
  then have "srv_ipv6 srv \<in> set (service_ipv6s env)" using assms(2) by (force simp: service_ipv6s_def)
  with net_okD(7) [OF assms(1)] have "srv_ipv6 srv \<in> universe6 b6" by blast
  with net_okD(2) [OF assms(1)] obtain n where n: "srv_ipv6 srv = v6addr n" "2 ^ 48 \<le> n" "n < 2 ^ 128"
    by (auto simp: universe6_def pool6_ok_def)
  have "To16 (v6addr n) \<noteq> None" by (simp, simp add: v6addr_def)
  with n To4_v6addr [OF n(2,3)] show "has_family (srv_ipv6 srv) \<and> family (srv_ipv6 srv) = ProtocolIPv6"
    by (simp add: has_family_def family_def)
qed

section \<open>Properties\<close>


text \<open>The rules of the chain that a log of requests describes.\<close>

definition chain_call :: "os_call \<Rightarrow> (protocol \<Rightarrow> string list list) \<Rightarrow> protocol \<Rightarrow> string list list" where
  "chain_call c v =
     (case c of
        IptAppend p t ch r \<Rightarrow> if t = ''nat'' \<and> ch = chain then v(p := v p @ [r]) else v
      | IptDelete p t ch r \<Rightarrow> if t = ''nat'' \<and> ch = chain then v(p := remove1 r (v p)) else v
      | _ \<Rightarrow> v)"

definition logged_rules :: "os_call list \<Rightarrow> protocol \<Rightarrow> string list list" where
  "logged_rules w = fold chain_call w (\<lambda>p. [])"

lemma log_os_chain: "chain_documented log_os logged_rules"
  by (auto simp: chain_documented_def iptables_documented_def log_os_def logged_rules_def chain_call_def names_chain_def
      split: os_call.split)

definition sample_deploy :: http_request where
  "sample_deploy = \<lparr>route_of = ContainerDeploy, deploy_body = (None, sample_task),
     undeploy_body = (None, \<lparr>Servicename_of = '''', Instancenumber_of = 0\<rparr>), meanwhile = [], write_error = None\<rparr>"


end
