(* ===== verification/NatRestart.thy ===== *)
theory NatRestart
  imports ServerSafety "HOL-Library.Sublist"
begin

text \<open>
  The firewall across a restart of the daemon: \<open>IptableFlushAll\<close>, which the start of the process
  calls, and \<open>EnableForwarding\<close> and \<open>EnableMasquerading\<close>, which a registration calls. The nat table
  of a protocol is a map from the names of its chains to their rules; what the commands do to it is
  iptables' documentation, stated as the hypothesis \<open>nat_documented\<close> about a view of the system.
\<close>

section \<open>The documented effect of the commands\<close>

type_synonym nat_table = "string \<rightharpoonup> string list list"

definition jumps_to :: "string \<Rightarrow> string list \<Rightarrow> bool" where
  "jumps_to c rule \<longleftrightarrow> sublist [''-j'', c] rule"

definition referenced :: "string \<Rightarrow> nat_table \<Rightarrow> bool" where
  "referenced c t \<longleftrightarrow> (\<exists>ch rs. t ch = Some rs \<and> list_ex (jumps_to c) rs)"

text \<open>
  The wrapper's \<open>DeleteChain\<close> is \<open>ClearAndDeleteChain\<close> of go-iptables: it flushes the chain and then
  deletes it, which iptables refuses as long as a rule jumps to it. A chain can be added once, a rule
  is appended to a chain that exists, and deleting takes away the first equal rule.
\<close>

definition clear_delete :: "string \<Rightarrow> nat_table \<Rightarrow> nat_table" where
  "clear_delete c t =
     (if t c = None then t
      else if referenced c (t(c \<mapsto> [])) then t(c \<mapsto> []) else t(c := None))"

definition add_chain :: "string \<Rightarrow> nat_table \<Rightarrow> nat_table" where
  "add_chain c t = (if t c = None then t(c \<mapsto> []) else t)"

definition append_unique :: "string \<Rightarrow> string list \<Rightarrow> nat_table \<Rightarrow> nat_table" where
  "append_unique ch rule t =
     (case t ch of None \<Rightarrow> t | Some rs \<Rightarrow> if rule \<in> set rs then t else t(ch \<mapsto> rs @ [rule]))"

definition delete_rule :: "string \<Rightarrow> string list \<Rightarrow> nat_table \<Rightarrow> nat_table" where
  "delete_rule ch rule t = (case t ch of None \<Rightarrow> t | Some rs \<Rightarrow> t(ch \<mapsto> remove1 rule rs))"

definition builtin_chains :: "string list" where
  "builtin_chains = [''PREROUTING'', ''INPUT'', ''OUTPUT'', ''POSTROUTING'']"

definition nat_documented :: "'w os \<Rightarrow> ('w \<Rightarrow> protocol \<Rightarrow> nat_table) \<Rightarrow> bool" where
  "nat_documented os view \<longleftrightarrow>
     (\<forall>p c w. c \<notin> set builtin_chains \<longrightarrow>
        view (snd (os (IptDeleteChain p ''nat'' c) w)) = (view w)(p := clear_delete c (view w p))) \<and>
     (\<forall>p c w. view (snd (os (IptAddChain p ''nat'' c) w)) = (view w)(p := add_chain c (view w p))) \<and>
     (\<forall>p ch r w. view (snd (os (IptDelete p ''nat'' ch r) w)) = (view w)(p := delete_rule ch r (view w p))) \<and>
     (\<forall>p ch r w. view (snd (os (IptAppendUnique p ''nat'' ch r) w)) = (view w)(p := append_unique ch r (view w p))) \<and>
     (\<forall>p w. \<forall>ch \<in> set builtin_chains. view w p ch \<noteq> None)"

definition hook_jump :: "string list" where
  "hook_jump = [''-j'', chain]"

lemma chain_hooks [simp]:
  "chain \<noteq> ''PREROUTING''" "chain \<noteq> ''OUTPUT''" "chain \<noteq> ''POSTROUTING''"
  "''PREROUTING'' \<noteq> chain" "''OUTPUT'' \<noteq> chain" "''POSTROUTING'' \<noteq> chain" "chain \<notin> set builtin_chains"
  by (simp_all add: chain_def builtin_chains_def)

lemma documented_effects:
  assumes "nat_documented os view"
  shows "view (ignoring os (IptDeleteChain p ''nat'' chain) w) = (view w)(p := clear_delete chain (view w p))"
    "view (ignoring os (IptAddChain p ''nat'' c) w) = (view w)(p := add_chain c (view w p))"
    "view (ignoring os (IptDelete p ''nat'' ch r) w) = (view w)(p := delete_rule ch r (view w p))"
    "view (snd (os (IptAppendUnique p ''nat'' ch r) w)) = (view w)(p := append_unique ch r (view w p))"
  using assms unfolding nat_documented_def ignoring_def by simp_all

lemma must_append:
  assumes "nat_documented os view" and "must os (IptAppendUnique p ''nat'' ch r) w = Some w'"
  shows "view w' = (view w)(p := append_unique ch r (view w p))"
proof -
  from assms(2) have "os (IptAppendUnique p ''nat'' ch r) w = (None, w')" by (simp add: must_Some)
  with documented_effects(4) [OF assms(1), of p ch r w] show ?thesis by simp
qed

section \<open>The start of the process\<close>

definition flushed :: "nat_table \<Rightarrow> nat_table" where
  "flushed t =
     delete_rule ''POSTROUTING'' hook_jump (delete_rule ''PREROUTING'' hook_jump (clear_delete chain t))"

lemma flush_view:
  assumes "nat_documented os view"
  shows "view (IptableFlushAll os w) p = flushed (view w p)"
  by (cases p) (simp_all add: IptableFlushAll_def Let_def iptable_calls documented_effects [OF assms] flushed_def hook_jump_def)

lemma jumps_hook: "jumps_to chain hook_jump"
  by (simp add: jumps_to_def hook_jump_def)

lemma clear_delete_other: "ch \<noteq> c \<Longrightarrow> clear_delete c t ch = t ch"
  by (simp add: clear_delete_def Let_def)

lemma clear_delete_empty: "clear_delete c t c = None \<or> clear_delete c t c = Some []"
  by (simp add: clear_delete_def Let_def)

lemma clear_delete_referenced:
  assumes "t c = Some rs" "t ch = Some rs'" "ch \<noteq> c" "list_ex (jumps_to c) rs'"
  shows "clear_delete c t c = Some []"
  using assms by (auto simp: clear_delete_def referenced_def Let_def)

text \<open>
  The flush empties the chain but does not remove it once a registration has hooked it up: it deletes
  the chain before the rules that jump to it, and of those it deletes the one of \<open>PREROUTING\<close> and one
  of \<open>POSTROUTING\<close>, which no code adds, but not the one of \<open>OUTPUT\<close>.
\<close>

lemma flush_keeps_output_jump:
  assumes "nat_documented os view" and "view w p chain = Some rs"
    and "view w p ''OUTPUT'' = Some out" "hook_jump \<in> set out"
  shows "view (IptableFlushAll os w) p chain = Some []" "view (IptableFlushAll os w) p ''OUTPUT'' = Some out"
proof -
  have "list_ex (jumps_to chain) out" using assms(4) jumps_hook by (auto simp: list_ex_iff)
  from clear_delete_referenced [of "view w p" chain, OF assms(2,3) _ this]
  have "clear_delete chain (view w p) chain = Some []" by simp
  then show "view (IptableFlushAll os w) p chain = Some []" "view (IptableFlushAll os w) p ''OUTPUT'' = Some out"
    using assms(3) by (simp_all add: flush_view [OF assms(1)] flushed_def delete_rule_def clear_delete_other split: option.split)
qed

section \<open>A registration\<close>

text \<open>The chain as a registration leaves it: empty, and reached from both hooks.\<close>

definition clean_chain :: "nat_table \<Rightarrow> bool" where
  "clean_chain t \<longleftrightarrow> t chain = Some [] \<and>
     (\<forall>ch \<in> {''PREROUTING'', ''OUTPUT''}. \<exists>rs. t ch = Some rs \<and> hook_jump \<in> set rs)"

lemma append_keeps_clean:
  assumes "clean_chain t" and "ch \<noteq> chain"
  shows "clean_chain (append_unique ch r t)"
  using assms by (auto simp: clean_chain_def append_unique_def split: option.splits)

text \<open>Emptying the chain and hooking it up, whatever the table held.\<close>

lemma hook_up_clean:
  assumes "t1 = append_unique ''PREROUTING'' hook_jump (add_chain chain (clear_delete chain t))"
    and "t2 = append_unique ''OUTPUT'' hook_jump t1"
    and "t ''PREROUTING'' = Some pre" "t ''OUTPUT'' = Some out"
  shows "clean_chain t2"
proof -
  let ?t = "add_chain chain (clear_delete chain t)"
  have "?t chain = Some []" using clear_delete_empty [of chain t] by (auto simp: add_chain_def)
  moreover have "?t ''PREROUTING'' = Some pre" "?t ''OUTPUT'' = Some out"
    using assms(3,4) by (simp_all add: add_chain_def clear_delete_other)
  ultimately show ?thesis using assms(1,2) by (auto simp: clean_chain_def append_unique_def)
qed

lemma bind_SomeE: "Option.bind m f = Some y \<Longrightarrow> (\<And>x. m = Some x \<Longrightarrow> f x = Some y \<Longrightarrow> R) \<Longrightarrow> R"
  by (cases m) simp_all

lemma forwarding_clean:
  assumes doc: "nat_documented os view" and run: "EnableForwarding os bridge proxyname w = Some w'"
  shows "clean_chain (view w' p)"
proof -
  let ?d = "\<lambda>p. IptDeleteChain p ''nat'' chain" and ?a = "\<lambda>p. IptAddChain p ''nat'' chain"
  let ?j = "\<lambda>p ch. IptAppendUnique p ''nat'' ch [''-j'', chain]"
  from run obtain w0 w1 w2 w3 where steps:
    "must os (?j ProtocolIPv4 ''PREROUTING'')
       (ignoring os (?a ProtocolIPv6) (ignoring os (?d ProtocolIPv6)
         (ignoring os (?a ProtocolIPv4) (ignoring os (?d ProtocolIPv4) w0)))) = Some w1"
    "must os (?j ProtocolIPv4 ''OUTPUT'') w1 = Some w2"
    "must os (?j ProtocolIPv6 ''PREROUTING'') w2 = Some w3"
    "must os (?j ProtocolIPv6 ''OUTPUT'') w3 = Some w'"
    unfolding EnableForwarding_def Let_def iptable_calls by (elim bind_SomeE) (rule that; assumption)
  note E = documented_effects [OF doc]
  note m = must_append [OF doc steps(1)] must_append [OF doc steps(2)]
    must_append [OF doc steps(3)] must_append [OF doc steps(4)]
  note m = m [folded hook_jump_def]
  obtain pre out where hooks: "view w0 p ''PREROUTING'' = Some pre" "view w0 p ''OUTPUT'' = Some out"
    using doc unfolding nat_documented_def builtin_chains_def by (metis list.set_intros not_None_eq)
  have "view w' p = append_unique ''OUTPUT'' hook_jump (append_unique ''PREROUTING'' hook_jump
      (add_chain chain (clear_delete chain (view w0 p))))"
    using m by (cases p) (simp_all add: E)
  from hook_up_clean [OF HOL.refl this hooks] show ?thesis .
qed

lemma masquerade_clean:
  assumes doc: "nat_documented os view" and "masquerade os src src6 ifce w = Some w'"
    and "\<forall>p. clean_chain (view w p)"
  shows "\<forall>p. clean_chain (view w' p)"
proof -
  from assms(2) obtain w1 where
    "must os (IptAppendUnique ProtocolIPv4 ''nat'' ''POSTROUTING'' [''-s'', src, ''-o'', ifce, ''-j'', ''MASQUERADE'']) w = Some w1"
    "must os (IptAppendUnique ProtocolIPv6 ''nat'' ''POSTROUTING'' [''-s'', src6, ''-o'', ifce, ''-j'', ''MASQUERADE'']) w1 = Some w'"
    by (auto simp: masquerade_def iptable_calls bind_eq_Some_conv)
  with must_append [OF doc] assms(3) show ?thesis by (simp add: append_keeps_clean)
qed

lemma masquerade_all_clean:
  assumes "nat_documented os view" and "masquerade_all os src src6 ifce ps w = Some w'"
    and "\<forall>p. clean_chain (view w p)"
  shows "\<forall>p. clean_chain (view w' p)"
  using assms(2,3)
proof (induction ps arbitrary: w)
  case (Cons ip ps)
  obtain ifc pattern where ip: "ip = (ifc, pattern)" by (cases ip)
  show ?case
  proof (cases "ifc \<noteq> ifce \<and> Contains ifc pattern")
    case True
    with Cons.prems(1) ip obtain w1 where "masquerade os src src6 ifc w = Some w1"
      "masquerade_all os src src6 ifce ps w1 = Some w'" by (auto simp: bind_eq_Some_conv)
    with Cons.IH masquerade_clean [OF assms(1) _ Cons.prems(2)] show ?thesis by blast
  next
    case False
    with Cons.prems ip Cons.IH show ?thesis by (auto split: if_splits)
  qed
qed simp

lemma masquerading_clean:
  assumes "nat_documented os view" and "EnableMasquerading os ifces a m a6 m6 bridge ifce w = Some w'"
    and "\<forall>p. clean_chain (view w p)"
  shows "\<forall>p. clean_chain (view w' p)"
  using assms(2,3) masquerade_clean [OF assms(1)] masquerade_all_clean [OF assms(1)]
  unfolding EnableMasquerading_def bind_eq_Some_conv by blast

lemma NewCustom_clean:
  assumes "nat_documented os view" and "NewCustom os h proxyname cfg w = Some (e, w')"
  shows "\<forall>p. clean_chain (view w' p)"
proof -
  from assms(2) obtain bridge ifces a m a6 m6 ifce w1 w2 where
    "EnableForwarding os bridge proxyname w1 = Some w2"
    "EnableMasquerading os ifces a m a6 m6 bridge ifce w2 = Some w'"
    unfolding NewCustom_def bind_eq_Some_conv by auto
  with forwarding_clean [OF assms(1)] masquerading_clean [OF assms(1)] show ?thesis by blast
qed

section \<open>Properties\<close>

text \<open>
  C29: No port mapping survives a restart: when a registration has set a node up, the chain of the port
  mappings is empty for either protocol and reached from both hooks of the nat table, whatever the
  firewall held when the process was started.
\<close>

theorem registration_resets_port_mappings:
  assumes "nat_documented os view"
    and "register os su body s = Answered r s'" and "Proxy s = None" and "mqtt_started s = None"
    and "Proxy s' = Some proxy"
  shows "view (host_state s') p chain = Some [] \<and>
    (\<forall>hook \<in> {''PREROUTING'', ''OUTPUT''}.
      \<exists>rules. view (host_state s') p hook = Some rules \<and> [''-j'', chain] \<in> set rules)"
proof -
  from register_starts [OF assms(2-5)] obtain client px w1 node where
    node: "NewEnvironmentClusterConfigured os (su_host su) (su_subnet su) (HostTUNDeviceName (Listen px)) client w1 = Some node"
    "proxy = SetEnvironment node (Listen px)" by blast
  from node(1) obtain cfg where "NewCustom os (su_host su) (HostTUNDeviceName (Listen px)) cfg w1 = Some (node_env node, node_os node)"
    by (auto simp: NewEnvironmentClusterConfigured_def bind_eq_Some_conv)
  from NewCustom_clean [OF assms(1) this] have "clean_chain (view (node_os node) p)" by blast
  moreover have "host_state s' = node_os node" using assms(5) node(2) by (simp add: host_state_def SetEnvironment_def)
  ultimately show ?thesis by (simp add: clean_chain_def hook_jump_def)
qed

text \<open>The nat table that a log of requests describes, with the built-in chains empty at first.\<close>

definition apply_call :: "os_call \<Rightarrow> (protocol \<Rightarrow> nat_table) \<Rightarrow> protocol \<Rightarrow> nat_table" where
  "apply_call c v =
     (case c of
        IptDeleteChain p t ch \<Rightarrow>
          if t = ''nat'' \<and> ch \<notin> set builtin_chains then v(p := clear_delete ch (v p)) else v
      | IptAddChain p t ch \<Rightarrow> if t = ''nat'' then v(p := add_chain ch (v p)) else v
      | IptDelete p t ch r \<Rightarrow> if t = ''nat'' then v(p := delete_rule ch r (v p)) else v
      | IptAppendUnique p t ch r \<Rightarrow> if t = ''nat'' then v(p := append_unique ch r (v p)) else v
      | _ \<Rightarrow> v)"

definition logged_tables :: "os_call list \<Rightarrow> protocol \<Rightarrow> nat_table" where
  "logged_tables w = fold apply_call w (\<lambda>p ch. if ch \<in> set builtin_chains then Some [] else None)"

lemma logged_snoc [simp]: "logged_tables (w @ [c]) = apply_call c (logged_tables w)"
  by (simp add: logged_tables_def)

lemma apply_call_builtin:
  "v p ch \<noteq> None \<Longrightarrow> ch \<in> set builtin_chains \<Longrightarrow> apply_call c v p ch \<noteq> None"
  by (cases c) (auto simp: apply_call_def clear_delete_def add_chain_def delete_rule_def append_unique_def Let_def
      split: option.splits)

lemma logged_builtin: "ch \<in> set builtin_chains \<Longrightarrow> logged_tables w p ch \<noteq> None"
proof (induction w rule: rev_induct)
  case Nil
  then show ?case by (simp add: logged_tables_def)
next
  case (snoc c w)
  then show ?case unfolding logged_snoc by (intro apply_call_builtin)
qed

lemma log_os_documented: "nat_documented log_os logged_tables"
  unfolding nat_documented_def using logged_builtin by (simp add: log_os_def apply_call_def)

theorem registration_resets_port_mappings_witness:
  "\<exists>r s' proxy. register log_os sample_startup (None, sample_registration) (new_server sample_netcfg []) = Answered r s' \<and>
    Proxy s' = Some proxy \<and> logged_tables (host_state s') ProtocolIPv6 chain = Some []"
proof -
  obtain r s' proxy where start: "register log_os sample_startup (None, sample_registration) (new_server sample_netcfg []) =
      Answered r s'" "Proxy s' = Some proxy" using sample_start by blast
  from registration_resets_port_mappings [OF log_os_documented start(1) _ _ start(2), of ProtocolIPv6]
  have "logged_tables (host_state s') ProtocolIPv6 chain = Some []" by (simp add: new_server_def)
  with start show ?thesis by blast
qed

end
