(* ===== verification/CommandLine.thy ===== *)
theory CommandLine
  imports NatRestart
begin

text \<open>
  \<open>cmd/\<close> and \<open>logger/\<close>: the start of the process, the command that follows the log file, the command
  that shows the status of the service, and the loggers. What \<open>gonfig\<close> reads, what the files hold and
  what the executed commands print are arguments. The lemmas show what the followers of the log see
  and that debug messages are written exactly when the configuration asks for them.
\<close>

section \<open>Loggers\<close>

datatype log_output = Stdout | Stderr | Discard

record Logger =
  log_prefix :: string
  log_out :: log_output

text \<open>The variables of the package; a logger is created by the first call that asks for it.\<close>

record logging =
  infologger :: "Logger option"
  errorlogger :: "Logger option"
  debuglogger :: "Logger option"
  debugMode :: bool

definition no_loggers :: logging where
  "no_loggers = \<lparr>infologger = None, errorlogger = None, debuglogger = None, debugMode = False\<rparr>"

definition SetDebugMode :: "logging \<Rightarrow> logging" where
  "SetDebugMode l = l\<lparr>debugMode := True\<rparr>"

definition InfoLogger :: "logging \<Rightarrow> Logger \<times> logging" where
  "InfoLogger l =
     (case infologger l of
        Some g \<Rightarrow> (g, l)
      | None \<Rightarrow> let g = \<lparr>log_prefix = ''INFO-'', log_out = Stdout\<rparr> in (g, l\<lparr>infologger := Some g\<rparr>))"

definition ErrorLogger :: "logging \<Rightarrow> Logger \<times> logging" where
  "ErrorLogger l =
     (case errorlogger l of
        Some g \<Rightarrow> (g, l)
      | None \<Rightarrow> let g = \<lparr>log_prefix = ''ERROR-'', log_out = Stderr\<rparr> in (g, l\<lparr>errorlogger := Some g\<rparr>))"

definition DebugLogger :: "logging \<Rightarrow> Logger \<times> logging" where
  "DebugLogger l =
     (case debuglogger l of
        Some g \<Rightarrow> (g, l)
      | None \<Rightarrow>
          let g = \<lparr>log_prefix = ''DEBUG-'', log_out = Stdout\<rparr>;
              g = (if \<not> debugMode l then g\<lparr>log_out := Discard\<rparr> else g)
          in (g, l\<lparr>debuglogger := Some g\<rparr>))"

section \<open>The start of the process\<close>

text \<open>
  \<open>conf\<close> is what \<open>gonfig\<close> reads from the configuration file. The port is the variable \<open>localPort\<close>,
  which no code sets. The result is the process before its first request; \<open>None\<close> is a \<open>log.Fatal\<close>.
\<close>

definition localPort :: int where "localPort = 0"

definition startNetManager :: "'w os \<Rightarrow> error + NetConfiguration \<Rightarrow> ('w, 'u, 'd) netmanager \<Rightarrow> logging \<Rightarrow>
    (('w, 'u, 'd) netmanager \<times> logging) option" where
  "startNetManager os conf s l =
     (case conf of
        Inl err \<Rightarrow> None
      | Inr cfg \<Rightarrow>
          do {
            let s = s\<lparr>NetConfig := cfg\<rparr>;
            let l = (if Debug (NetConfig s) then SetDebugMode l else l);
            let w = IptableFlushAll os (server_os s);
            w \<leftarrow> createListener os localPort w;
            Some (s\<lparr>server_os := w\<rparr>, l)
          })"

section \<open>Following the log\<close>

text \<open>
  One round of the loop seeks to the offset and reads the rest of the file. A round fails at the
  seek or at the read, or finds the file with some content.
\<close>

datatype round = SeekFails error | ReadFails error | Content "byte list"

text \<open>What has been printed, and the error that ended the command, if one did.\<close>

fun tail_log :: "nat \<Rightarrow> round list \<Rightarrow> byte list list \<times> error option" where
  "tail_log offset [] = ([], None)"
| "tail_log offset (SeekFails err # rounds) = ([], Some err)"
| "tail_log offset (ReadFails err # rounds) = ([], Some err)"
| "tail_log offset (Content file # rounds) =
     (let data = drop offset file;
          (printed, r) = tail_log (offset + length data) rounds
      in (data # printed, r))"

definition logsNetManager :: "error + (error + nat) \<Rightarrow> round list \<Rightarrow> string list \<times> byte list list \<times> error option" where
  "logsNetManager file rounds =
     (case file of
        Inl err \<Rightarrow>
          ([''Error opening log file, is the NetManager running? Use NetManager status to check.''], [], Some err)
      | Inr (Inl err) \<Rightarrow> ([], [], Some err)
      | Inr (Inr offset) \<Rightarrow> ([], tail_log offset rounds))"

text \<open>
  A file that only grows is printed from where it ended when the command was started, each byte once.
\<close>

lemma tail_log_grows:
  "sorted_wrt prefix (start # files) \<Longrightarrow>
    \<exists>printed. tail_log (length start) (map Content files) = (printed, None) \<and> start @ concat printed = last (start # files)"
proof (induction files arbitrary: start)
  case Nil
  then show ?case by simp
next
  case (Cons f fs)
  from Cons.prems obtain new where f: "f = start @ new" by (auto simp: prefix_def)
  from Cons.prems have "sorted_wrt prefix (f # fs)" by simp
  from Cons.IH [OF this] obtain printed where
    "tail_log (length f) (map Content fs) = (printed, None)" "f @ concat printed = last (f # fs)" by auto
  with f show ?case by auto
qed

text \<open>A file that has been truncated is not printed before it is longer than it was.\<close>

lemma tail_log_truncated:
  "list_all (\<lambda>file. length file \<le> offset) files \<Longrightarrow> tail_log offset (map Content files) = (replicate (length files) [], None)"
  by (induction files) simp_all

text \<open>The command goes on until a round fails.\<close>

lemma tail_log_error: "snd (tail_log offset rounds) = None \<longleftrightarrow> (\<forall>r \<in> set rounds. \<exists>file. r = Content file)"
  by (induction offset rounds rule: tail_log.induct) (auto simp: Let_def split: prod.splits)

section \<open>The status of the service\<close>

text \<open>\<open>run\<close> is the standard output and the standard error of an executed command.\<close>

definition execCommandWithOutput :: "(string list \<Rightarrow> string \<times> string) \<Rightarrow> string list \<Rightarrow> string list" where
  "execCommandWithOutput run command =
     (let (stdout, stderr) = run command
      in (if length stderr > 0 then [stderr] else []) @ [stdout])"

definition statusNetManager :: "(string list \<Rightarrow> string \<times> string) \<Rightarrow> string list" where
  "statusNetManager run =
     execCommandWithOutput run [''systemctl'', ''status'', ''netmanager'', ''--no-pager''] @
     execCommandWithOutput run
       [''bash'', ''-c'', ''cat /var/log/oakestra/netmanager.log | grep STARTUP_CONFIG | tail -n 1'']"

section \<open>What a start leaves\<close>

lemma start_result:
  assumes "startNetManager os conf s l = Some (s', l')"
  shows "\<exists>cfg w. conf = Inr cfg \<and> s' = s\<lparr>NetConfig := cfg, server_os := w\<rparr> \<and>
    createListener os localPort (IptableFlushAll os (server_os s)) = Some w \<and>
    l' = (if Debug cfg then SetDebugMode l else l)"
  using assms by (auto simp: startNetManager_def Let_def bind_eq_Some_conv split: sum.splits)

text \<open>
  Debug messages are written exactly when the configuration asks for them, because the mode is set
  before the logger is first used: the logger keeps the output it was created with.
\<close>

lemma debug_messages:
  assumes "startNetManager os (Inr cfg) s no_loggers = Some (s', l)"
  shows "log_out (fst (DebugLogger l)) = (if Debug cfg then Stdout else Discard)"
    "fst (DebugLogger (SetDebugMode (snd (DebugLogger l)))) = fst (DebugLogger l)"
proof -
  from start_result [OF assms] have l: "l = (if Debug cfg then SetDebugMode no_loggers else no_loggers)" by auto
  show "log_out (fst (DebugLogger l)) = (if Debug cfg then Stdout else Discard)"
    by (simp add: l DebugLogger_def SetDebugMode_def no_loggers_def Let_def)
  show "fst (DebugLogger (SetDebugMode (snd (DebugLogger l)))) = fst (DebugLogger l)"
    by (cases "debuglogger l") (simp_all add: DebugLogger_def SetDebugMode_def Let_def)
qed

end
